(* ===== verification/Prelude.thy ===== *)
theory Prelude
  imports Main "HOL-Library.Word"
begin

text \<open>
  What every component of the development shares.

  \<^item> The machine types of the code: \<open>uint8\<close>, \<open>uint16\<close> and \<open>uint32\<close> are words of that
    width, a \<open>[]byte\<close> is a list of 8-bit words (a nil slice and an empty slice are both
    \<open>[]\<close>; the code never tells them apart), \<open>int\<close> lengths are \<open>nat\<close>.
  \<^item> The Go runtime: a computation either ends with a value or with a run-time fault. The
    faults the code can meet are an index or a slice expression out of range, a nil pointer
    dereference, a receive that blocks for ever, a second close of a channel and a type
    assertion that does not hold. An error
    that is returned is an ordinary value, the left summand of a sum.
  \<^item> \<open>encoding/binary\<close>: big-endian reads and writes of 16 and 32 bits.
  \<^item> The interfaces of the byte-level decoders, as locales: an item codec, and the two
    shapes of loop the code runs over such items.
\<close>

unbundle bit_operations_syntax

type_synonym u8 = "8 word"
type_synonym u16 = "16 word"
type_synonym u32 = "32 word"
type_synonym byte = u8
type_synonym bytes = "byte list"

named_theorems go_defs "definitions that evaluate the Go operations"
named_theorems const_defs "definitions of the numeric constants of the code"

section \<open>Go computations\<close>

datatype go_fault =
    IndexOutOfRange
  | SliceOutOfRange
  | NilDereference
  | BlockedForever
  | CloseOfClosedChannel
  | TypeAssertionFailed

datatype 'a go = Fault go_fault | Val 'a

primrec go_bind :: "'a go \<Rightarrow> ('a \<Rightarrow> 'b go) \<Rightarrow> 'b go" where
  "go_bind (Fault e) k = Fault e"
| "go_bind (Val x) k = k x"

abbreviation ok :: "'a \<Rightarrow> ('e + 'a) go" where
  "ok x \<equiv> Val (Inr x)"

abbreviation fail :: "'e \<Rightarrow> ('e + 'a) go" where
  "fail e \<equiv> Val (Inl e)"

text \<open>\<open>x, err := m; if err != nil { return err }; ...\<close>\<close>

definition try_bind :: "('e + 'a) go \<Rightarrow> ('a \<Rightarrow> ('e + 'b) go) \<Rightarrow> ('e + 'b) go" where
  "try_bind m k = go_bind m (case_sum (\<lambda>e. fail e) k)"

text \<open>
  Slice and index expressions. The upper bound of a Go slice expression is checked against
  the capacity; the model checks it against the length. Every slice expression of the code
  stands behind a length test that puts its upper bound within the length, unless the bound
  itself has wrapped around below the lower bound, which faults for any capacity.
\<close>

definition go_index :: "'a list \<Rightarrow> nat \<Rightarrow> 'a go" where
  "go_index b i = (if i < length b then Val (b ! i) else Fault IndexOutOfRange)"

definition go_slice :: "'a list \<Rightarrow> nat \<Rightarrow> nat \<Rightarrow> 'a list go" where
  "go_slice b lo hi =
     (if lo \<le> hi \<and> hi \<le> length b then Val (take (hi - lo) (drop lo b)) else Fault SliceOutOfRange)"

definition go_slice_from :: "'a list \<Rightarrow> nat \<Rightarrow> 'a list go" where
  "go_slice_from b lo = (if lo \<le> length b then Val (drop lo b) else Fault SliceOutOfRange)"

text \<open>\<open>copy(dst[off:], src)\<close> on a destination of fixed size.\<close>

definition go_copy_at :: "'a list \<Rightarrow> nat \<Rightarrow> 'a list \<Rightarrow> 'a list" where
  "go_copy_at dst off src =
     take off dst @ take (length dst - off) src @ drop (off + length src) dst"

section \<open>Big-endian integers\<close>

definition u16_of :: "byte \<Rightarrow> byte \<Rightarrow> u16" where
  "u16_of b0 b1 = ucast b1 OR push_bit 8 (ucast b0)"

definition u32_of :: "byte \<Rightarrow> byte \<Rightarrow> byte \<Rightarrow> byte \<Rightarrow> u32" where
  "u32_of b0 b1 b2 b3 =
     ucast b3 OR push_bit 8 (ucast b2) OR push_bit 16 (ucast b1) OR push_bit 24 (ucast b0)"

definition Uint16 :: "bytes \<Rightarrow> u16 go" where
  "Uint16 b =
     go_bind (go_index b 1) (\<lambda>b1. go_bind (go_index b 0) (\<lambda>b0. Val (u16_of b0 b1)))"

definition Uint32 :: "bytes \<Rightarrow> u32 go" where
  "Uint32 b =
     go_bind (go_index b 3) (\<lambda>b3. go_bind (go_index b 2) (\<lambda>b2.
     go_bind (go_index b 1) (\<lambda>b1. go_bind (go_index b 0) (\<lambda>b0. Val (u32_of b0 b1 b2 b3)))))"

definition PutUint16 :: "u16 \<Rightarrow> bytes" where
  "PutUint16 v = [ucast (drop_bit 8 v), ucast v]"

definition PutUint32 :: "u32 \<Rightarrow> bytes" where
  "PutUint32 v = [ucast (drop_bit 24 v), ucast (drop_bit 16 v), ucast (drop_bit 8 v), ucast v]"

section \<open>Laws of the Go computations\<close>

lemma go_bind_Val_iff: "go_bind m k = Val y \<longleftrightarrow> (\<exists>x. m = Val x \<and> k x = Val y)"
  by (cases m) auto

lemma go_bind_Fault_iff:
  "go_bind m k = Fault e \<longleftrightarrow> m = Fault e \<or> (\<exists>x. m = Val x \<and> k x = Fault e)"
  by (cases m) auto

lemma go_bind_cong [fundef_cong]:
  "m = m' \<Longrightarrow> (\<And>x. m' = Val x \<Longrightarrow> k x = k' x) \<Longrightarrow> go_bind m k = go_bind m' k'"
  by (cases m') auto

lemma go_bind_assoc: "go_bind (go_bind m f) g = go_bind m (\<lambda>x. go_bind (f x) g)"
  by (cases m) auto

lemma go_sum_cases [case_names Fault fail ok]:
  obtains (Fault) f where "m = Fault f" | (fail) e where "m = fail e" | (ok) x where "m = ok x"
  by (cases m; cases "case m of Val s \<Rightarrow> s"; force)

lemma try_bind_simps [simp]:
  "try_bind (Fault f) k = Fault f"
  "try_bind (fail e) k = fail e"
  "try_bind (ok x) k = k x"
  by (simp_all add: try_bind_def)

lemma try_bind_ok_iff: "try_bind m k = ok y \<longleftrightarrow> (\<exists>x. m = ok x \<and> k x = ok y)"
proof (cases m)
  case (Val s)
  then show ?thesis by (cases s) auto
qed simp

lemma try_bind_Fault_iff:
  "try_bind m k = Fault f \<longleftrightarrow> m = Fault f \<or> (\<exists>x. m = ok x \<and> k x = Fault f)"
proof (cases m)
  case (Val s)
  then show ?thesis by (cases s) auto
qed auto

lemma try_bind_fail_iff:
  "try_bind m k = fail e \<longleftrightarrow> m = fail e \<or> (\<exists>x. m = ok x \<and> k x = fail e)"
proof (cases m)
  case (Val s)
  then show ?thesis by (cases s) auto
qed auto

lemma try_bind_cong [fundef_cong]:
  "m = m' \<Longrightarrow> (\<And>x. m' = ok x \<Longrightarrow> k x = k' x) \<Longrightarrow> try_bind m k = try_bind m' k'"
  unfolding try_bind_def by (rule go_bind_cong) (auto split: sum.splits)

lemmas go_iffs = go_bind_Val_iff go_bind_Fault_iff try_bind_ok_iff try_bind_Fault_iff

lemma go_index_in [simp]: "i < length b \<Longrightarrow> go_index b i = Val (b ! i)"
  by (simp add: go_index_def)

lemma go_index_Val_iff: "go_index b i = Val x \<longleftrightarrow> i < length b \<and> x = b ! i"
  by (auto simp: go_index_def)

lemma go_slice_in [simp]:
  "lo \<le> hi \<Longrightarrow> hi \<le> length b \<Longrightarrow> go_slice b lo hi = Val (take (hi - lo) (drop lo b))"
  by (simp add: go_slice_def)

lemma go_slice_Val_iff:
  "go_slice b lo hi = Val x \<longleftrightarrow> lo \<le> hi \<and> hi \<le> length b \<and> x = take (hi - lo) (drop lo b)"
  by (auto simp: go_slice_def)

lemma go_slice_from_in [simp]: "lo \<le> length b \<Longrightarrow> go_slice_from b lo = Val (drop lo b)"
  by (simp add: go_slice_from_def)

lemma go_slice_from_Val_iff: "go_slice_from b lo = Val x \<longleftrightarrow> lo \<le> length b \<and> x = drop lo b"
  by (auto simp: go_slice_from_def)

lemma length_go_copy_at: "off \<le> length dst \<Longrightarrow> length (go_copy_at dst off src) = length dst"
  by (simp add: go_copy_at_def min_def)

section \<open>Laws of the big-endian integers\<close>

lemma u16_of_bytes [simp]: "u16_of (ucast (drop_bit 8 v)) (ucast v) = v"
  unfolding u16_of_def by (rule bit_word_eqI) (auto simp: bit_simps)

lemma bytes_of_u16_of:
  "ucast (drop_bit 8 (u16_of a b)) = a" "ucast (u16_of a b) = b"
  unfolding u16_of_def
  by (rule bit_word_eqI; auto simp: bit_simps dest: bit_imp_le_length)+

lemma PutUint16_u16_of [simp]: "PutUint16 (u16_of a b) = [a, b]"
  by (simp add: PutUint16_def bytes_of_u16_of)

lemma u32_of_bytes [simp]:
  "u32_of (ucast (drop_bit 24 v)) (ucast (drop_bit 16 v)) (ucast (drop_bit 8 v)) (ucast v) = v"
proof (rule bit_word_eqI)
  fix n assume "n < LENGTH(32)"
  then show "bit (u32_of (ucast (drop_bit 24 v)) (ucast (drop_bit 16 v))
      (ucast (drop_bit 8 v)) (ucast v)) n = bit v n"
    unfolding u32_of_def
    by (cases "n < 8"; cases "n < 16"; cases "n < 24") (auto simp: bit_simps)
qed

lemma bytes_of_u32_of:
  "ucast (drop_bit 24 (u32_of a b c d)) = a" "ucast (drop_bit 16 (u32_of a b c d)) = b"
  "ucast (drop_bit 8 (u32_of a b c d)) = c" "ucast (u32_of a b c d) = d"
  unfolding u32_of_def
  by (rule bit_word_eqI; auto simp: bit_simps dest: bit_imp_le_length)+

lemma PutUint32_u32_of [simp]: "PutUint32 (u32_of a b c d) = [a, b, c, d]"
  by (simp add: PutUint32_def bytes_of_u32_of)

lemma length_PutUint16 [simp]: "length (PutUint16 v) = 2"
  by (simp add: PutUint16_def)

lemma length_PutUint32 [simp]: "length (PutUint32 v) = 4"
  by (simp add: PutUint32_def)

lemma u16_of_eq_iff: "u16_of a b = v \<longleftrightarrow> [a, b] = PutUint16 v"
proof
  assume "[a, b] = PutUint16 v"
  then show "u16_of a b = v" by (simp add: PutUint16_def)
qed auto

lemma u32_of_eq_iff: "u32_of a b c d = v \<longleftrightarrow> [a, b, c, d] = PutUint32 v"
proof
  assume "[a, b, c, d] = PutUint32 v"
  then show "u32_of a b c d = v" by (simp add: PutUint32_def)
qed auto

lemma Uint16_Cons2 [simp]: "Uint16 (a # b # r) = Val (u16_of a b)"
  by (simp add: Uint16_def)

lemma Uint32_Cons4 [simp]: "Uint32 (a # b # c # d # r) = Val (u32_of a b c d)"
  by (simp add: Uint32_def)

lemma Uint16_in: "2 \<le> length b \<Longrightarrow> Uint16 b = Val (u16_of (b ! 0) (b ! 1))"
  by (auto simp: Uint16_def go_index_def)

lemma Uint32_in: "4 \<le> length b \<Longrightarrow> Uint32 b = Val (u32_of (b ! 0) (b ! 1) (b ! 2) (b ! 3))"
  by (auto simp: Uint32_def go_index_def)

lemma Uint16_Put [simp]: "Uint16 (PutUint16 v @ r) = Val v"
  by (simp add: PutUint16_def)

lemma Uint32_Put [simp]: "Uint32 (PutUint32 v @ r) = Val v"
  by (simp add: PutUint32_def)

lemma Uint32_Put_exact [simp]: "Uint32 (PutUint32 v) = Val v"
  using Uint32_Put [of v "[]"] by simp

lemma unat_u8_less: "unat (x :: u8) < 256"
  by (rule order_less_le_trans [OF unsigned_less]) simp

lemma unat_u16_less: "unat (x :: u16) < 65536"
  by (rule order_less_le_trans [OF unsigned_less]) simp

lemma unat_u16_of: "unat (u16_of a b) = 256 * unat a + unat b"
proof -
  have disj: "(ucast b :: u16) AND push_bit 8 (ucast a) = 0"
    by (rule bit_word_eqI) (auto simp: bit_simps dest: bit_imp_le_length)
  have "u16_of a b = ucast b + push_bit 8 (ucast a)"
    unfolding u16_of_def by (rule disjunctive_add_eq_or [symmetric, OF disj])
  also have "\<dots> = of_nat (unat b + unat a * 256)"
    by (simp add: push_bit_eq_mult)
  finally have eq: "u16_of a b = of_nat (unat b + unat a * 256)" .
  have "unat b + unat a * 256 < 2 ^ LENGTH(16)"
    using unat_u8_less [of a] unat_u8_less [of b] by simp
  then show ?thesis
    unfolding eq unat_of_nat by simp
qed

lemma unat_u8_of_nat: "n < 256 \<Longrightarrow> unat (of_nat n :: u8) = n"
  by (simp add: unat_of_nat)

lemma unat_u16_of_nat: "n < 65536 \<Longrightarrow> unat (of_nat n :: u16) = n"
  by (simp add: unat_of_nat)

lemma list_split_at2: "2 \<le> length b \<Longrightarrow> b = b ! 0 # b ! 1 # drop 2 b"
  by (cases b; cases "tl b") auto

lemma bytes4E:
  assumes "4 \<le> length (b :: bytes)"
  obtains b0 b1 b2 b3 r where "b = b0 # b1 # b2 # b3 # r"
  using assms by (auto simp: Suc_le_length_iff eval_nat_numeral)

section \<open>Decoder interfaces\<close>

text \<open>
  An item codec reads one item off the front of a byte string. Its laws: reading back what
  the encoder wrote gives the item and the rest, and whatever it reads is the encoding of
  the item it returns.
\<close>

locale item_codec =
  fixes item :: "bytes \<Rightarrow> ('e + 'a \<times> bytes) go"
    and enc :: "'a \<Rightarrow> bytes"
    and valid :: "'a \<Rightarrow> bool"
  assumes item_enc: "valid x \<Longrightarrow> item (enc x @ r) = ok (x, r)"
    and item_sound: "item b = ok (x, r) \<Longrightarrow> valid x \<and> b = enc x @ r"
    and enc_nonempty: "valid x \<Longrightarrow> enc x \<noteq> []"
begin

lemma item_shrinks:
  assumes "item b = ok (x, r)"
  shows "length r < length b"
  using item_sound [OF assms] enc_nonempty by auto

lemma item_unique:
  assumes "valid x" "valid y" "enc x @ r = enc y @ s"
  shows "x = y \<and> r = s"
proof -
  from assms(3) item_enc [OF assms(1), of r] have "item (enc y @ s) = ok (x, r)" by metis
  with item_enc [OF assms(2), of s] show ?thesis by simp
qed

end

text \<open>The loop \<open>for len(b) > 0 { x, b = item(b); acc = append(acc, x) }\<close>.\<close>

locale item_loop = item_codec +
  fixes loop :: "bytes \<Rightarrow> 'b list \<Rightarrow> ('a + 'b list) go"
  assumes loop_Nil: "loop [] acc = ok acc"
    and loop_step:
      "b \<noteq> [] \<Longrightarrow> loop b acc = try_bind (item b) (\<lambda>(x, r). loop r (acc @ [x]))"
begin

lemma loop_enc:
  "list_all valid xs \<Longrightarrow> loop (concat (map enc xs)) acc = ok (acc @ xs)"
proof (induction xs arbitrary: acc)
  case Nil
  then show ?case by (simp add: loop_Nil)
next
  case (Cons x xs)
  then have "loop (enc x @ concat (map enc xs)) acc = loop (concat (map enc xs)) (acc @ [x])"
    by (subst loop_step) (auto simp: item_enc enc_nonempty)
  with Cons show ?case by simp
qed

lemma loop_sound:
  "loop b acc = ok ys \<Longrightarrow> \<exists>xs. ys = acc @ xs \<and> list_all valid xs \<and> b = concat (map enc xs)"
proof (induction b arbitrary: acc rule: length_induct)
  case (1 b)
  show ?case
  proof (cases "b = []")
    case True
    with "1.prems" show ?thesis by (intro exI [of _ "[]"]) (simp add: loop_Nil)
  next
    case False
    with "1.prems" obtain x r where x: "item b = ok (x, r)" and r: "loop r (acc @ [x]) = ok ys"
      by (auto simp: loop_step [OF False] try_bind_ok_iff)
    from "1.IH" [rule_format, OF item_shrinks [OF x] r] obtain xs
      where "ys = (acc @ [x]) @ xs" "list_all valid xs" "r = concat (map enc xs)"
      by blast
    with item_sound [OF x] show ?thesis by (intro exI [of _ "x # xs"]) simp
  qed
qed

lemma loop_iff:
  "loop b [] = ok xs \<longleftrightarrow> list_all valid xs \<and> b = concat (map enc xs)"
  using loop_sound [of b "[]" xs] loop_enc [of xs "[]"] by (metis append_Nil)

lemma loop_no_fault:
  assumes total: "\<And>b f. b \<noteq> [] \<Longrightarrow> item b \<noteq> Fault f"
  shows "loop b acc \<noteq> Fault f"
proof (induction b arbitrary: acc rule: length_induct)
  case (1 b)
  show ?case
  proof (cases "b = []")
    case True
    then show ?thesis by (simp add: loop_Nil)
  next
    case False
    have "loop r (acc @ [x]) \<noteq> Fault f" if "item b = ok (x, r)" for x r
      using "1.IH" item_shrinks [OF that] by simp
    with total [OF False] show ?thesis
      by (auto simp: loop_step [OF False] try_bind_Fault_iff)
  qed
qed

lemma loop_error:
  assumes err: "\<And>b e. item b = fail e \<Longrightarrow> P e"
  shows "loop b acc = fail e \<Longrightarrow> P e"
proof (induction b arbitrary: acc rule: length_induct)
  case (1 b)
  show ?case
  proof (cases "b = []")
    case True
    with "1.prems" show ?thesis by (simp add: loop_Nil)
  next
    case False
    have "P e" if "item b = ok (x, r)" "loop r (acc @ [x]) = fail e" for x r
      using "1.IH" [rule_format, OF item_shrinks [OF that(1)] that(2)] .
    with "1.prems" err [of b e] show ?thesis
      by (auto simp: loop_step [OF False] try_bind_fail_iff)
  qed
qed

end

text \<open>
  The loop \<open>for { x, b = item(b); acc = append(acc, x); if len(b) == 0 { break } }\<close>, which
  reads at least one item.
\<close>

locale item_loop1 = item_codec +
  fixes loop :: "bytes \<Rightarrow> 'b list \<Rightarrow> ('a + 'b list) go"
  assumes loop_step:
    "loop b acc = try_bind (item b) (\<lambda>(x, r). if r = [] then ok (acc @ [x]) else loop r (acc @ [x]))"
begin

lemma loop_enc:
  "list_all valid xs \<Longrightarrow> xs \<noteq> [] \<Longrightarrow> loop (concat (map enc xs)) acc = ok (acc @ xs)"
proof (induction xs arbitrary: acc)
  case (Cons x xs)
  have eq: "loop (concat (map enc (x # xs))) acc =
      (if concat (map enc xs) = [] then ok (acc @ [x]) else loop (concat (map enc xs)) (acc @ [x]))"
    using Cons.prems by (subst loop_step) (simp add: item_enc)
  show ?case
  proof (cases "xs = []")
    case True
    with eq show ?thesis by simp
  next
    case False
    with Cons.prems have ne: "concat (map enc xs) \<noteq> []"
      by (cases xs) (auto simp: enc_nonempty)
    have "loop (concat (map enc xs)) (acc @ [x]) = ok ((acc @ [x]) @ xs)"
      using Cons.prems(1) False by (intro Cons.IH) simp_all
    with eq ne show ?thesis by (simp only: if_False append_assoc append_Cons append_Nil)
  qed
qed simp

lemma loop_sound:
  "loop b acc = ok ys \<Longrightarrow>
     \<exists>xs. xs \<noteq> [] \<and> ys = acc @ xs \<and> list_all valid xs \<and> b = concat (map enc xs)"
proof (induction b arbitrary: acc rule: length_induct)
  case (1 b)
  from "1.prems" obtain x r where x: "item b = ok (x, r)"
    and r: "(if r = [] then ok (acc @ [x]) else loop r (acc @ [x])) = ok ys"
    by (auto simp: loop_step [of b] try_bind_ok_iff)
  show ?case
  proof (cases "r = []")
    case True
    with r item_sound [OF x] show ?thesis by (intro exI [of _ "[x]"]) simp
  next
    case False
    with r have "loop r (acc @ [x]) = ok ys" by simp
    from "1.IH" [rule_format, OF item_shrinks [OF x] this] obtain xs
      where "ys = (acc @ [x]) @ xs" "list_all valid xs" "r = concat (map enc xs)"
      by blast
    with item_sound [OF x] show ?thesis by (intro exI [of _ "x # xs"]) simp
  qed
qed

lemma loop_iff:
  "loop b [] = ok xs \<longleftrightarrow> xs \<noteq> [] \<and> list_all valid xs \<and> b = concat (map enc xs)"
  using loop_sound [of b "[]" xs] loop_enc [of xs "[]"] by (metis append_Nil)

lemma loop_no_fault:
  assumes total: "\<And>b f. length b \<le> n \<Longrightarrow> item b \<noteq> Fault f"
  shows "length b \<le> n \<Longrightarrow> loop b acc \<noteq> Fault f"
proof (induction b arbitrary: acc rule: length_induct)
  case (1 b)
  have rec: "loop r (acc @ [x]) \<noteq> Fault f" if "item b = ok (x, r)" for x r
    using "1.IH" "1.prems" item_shrinks [OF that] by simp
  show ?case
    using total [OF "1.prems"] rec by (subst loop_step) (auto simp: try_bind_Fault_iff)
qed

lemma loop_error:
  assumes err: "\<And>b e. item b = fail e \<Longrightarrow> P e"
  shows "loop b acc = fail e \<Longrightarrow> P e"
proof (induction b arbitrary: acc rule: length_induct)
  case (1 b)
  have "P e" if "item b = ok (x, r)" "loop r (acc @ [x]) = fail e" for x r
    using "1.IH" [rule_format, OF item_shrinks [OF that(1)] that(2)] .
  with "1.prems" err [of b e] show ?case
    by (auto simp: loop_step [of b] try_bind_fail_iff split: if_splits)
qed

end

section \<open>Event-driven components\<close>

text \<open>
  A component that reacts to events: a step is not enabled (\<open>None\<close>), faults, or leads to a new
  state. Reachability is by events that satisfy a predicate.
\<close>

inductive reach :: "('s \<Rightarrow> bool) \<Rightarrow> ('e \<Rightarrow> bool) \<Rightarrow> ('s \<Rightarrow> 'e \<Rightarrow> 's go option) \<Rightarrow> 's \<Rightarrow> bool"
  for init :: "'s \<Rightarrow> bool" and allowed :: "'e \<Rightarrow> bool" and step :: "'s \<Rightarrow> 'e \<Rightarrow> 's go option" where
  reach_init: "init s \<Longrightarrow> reach init allowed step s"
| reach_step: "reach init allowed step s \<Longrightarrow> allowed e \<Longrightarrow> step s e = Some (Val s') \<Longrightarrow>
    reach init allowed step s'"

locale go_invariant =
  fixes init :: "'s \<Rightarrow> bool" and allowed :: "'e \<Rightarrow> bool" and step :: "'s \<Rightarrow> 'e \<Rightarrow> 's go option"
    and inv :: "'s \<Rightarrow> bool"
  assumes inv_init: "init s \<Longrightarrow> inv s"
    and inv_step: "inv s \<Longrightarrow> allowed e \<Longrightarrow> step s e = Some (Val s') \<Longrightarrow> inv s'"
begin

lemma reach_inv: "reach init allowed step s \<Longrightarrow> inv s"
  by (induction rule: reach.induct) (auto intro: inv_init inv_step)

end

text \<open>An invariant under which no enabled step faults.\<close>

locale go_safe = go_invariant +
  assumes inv_safe: "inv s \<Longrightarrow> allowed e \<Longrightarrow> step s e \<noteq> Some (Fault f)"
begin

lemma reach_safe: "reach init allowed step s \<Longrightarrow> allowed e \<Longrightarrow> step s e \<noteq> Some (Fault f)"
  using reach_inv inv_safe by blast

end

text \<open>A run over a list of events, for concrete executions.\<close>

fun run_events :: "('s \<Rightarrow> 'e \<Rightarrow> 's go option) \<Rightarrow> 's \<Rightarrow> 'e list \<Rightarrow> 's go option" where
  "run_events step s [] = Some (Val s)"
| "run_events step s (e # es) =
     (case step s e of
        Some (Val s') \<Rightarrow> run_events step s' es
      | Some (Fault f) \<Rightarrow> Some (Fault f)
      | None \<Rightarrow> None)"

lemma run_events_reach:
  "reach init allowed step s \<Longrightarrow> list_all allowed es \<Longrightarrow> run_events step s es = Some (Val s') \<Longrightarrow>
     reach init allowed step s'"
  by (induction step s es rule: run_events.induct)
     (auto intro: reach_step split: option.splits go.splits)

end
