(* ===== verification/Iana.thy ===== *)
theory Iana
  imports Prelude
begin

text \<open>
  The IANA registries of \<open>src/iana_const.go\<close>: the capability codes, address families, path
  attribute codes and NOTIFICATION codes, at their Go width, and \<open>notifCodesMap\<close>, the table that
  names each NOTIFICATION code and subcode. The theory \<open>IanaGen\<close> models the program that
  generates them.
\<close>

section \<open>Registry constants\<close>

subsection \<open>Capability Codes\<close>

definition CAP_MP_EXTENSIONS :: u8 where [simp, const_defs]: "CAP_MP_EXTENSIONS = 1"
definition CAP_ROUTE_REFRESH :: u8 where [simp, const_defs]: "CAP_ROUTE_REFRESH = 2"
definition CAP_OUTBOUND_ROUTE_FILTERING :: u8 where [simp, const_defs]: "CAP_OUTBOUND_ROUTE_FILTERING = 3"
definition CAP_EXTENDED_NEXT_HOP_ENCODING :: u8 where [simp, const_defs]: "CAP_EXTENDED_NEXT_HOP_ENCODING = 5"
definition CAP_EXTENDED_MESSSAGE :: u8 where [simp, const_defs]: "CAP_EXTENDED_MESSSAGE = 6"
definition CAP_BGPSEC :: u8 where [simp, const_defs]: "CAP_BGPSEC = 7"
definition CAP_MULTIPLE_LABELS :: u8 where [simp, const_defs]: "CAP_MULTIPLE_LABELS = 8"
definition CAP_ROLE :: u8 where [simp, const_defs]: "CAP_ROLE = 9"
definition CAP_GRACEFUL_RESTART :: u8 where [simp, const_defs]: "CAP_GRACEFUL_RESTART = 64"
definition CAP_FOUR_OCTET_AS :: u8 where [simp, const_defs]: "CAP_FOUR_OCTET_AS = 65"
definition CAP_DYNAMIC :: u8 where [simp, const_defs]: "CAP_DYNAMIC = 67"
definition CAP_MULTISESSION :: u8 where [simp, const_defs]: "CAP_MULTISESSION = 68"
definition CAP_ADD_PATH :: u8 where [simp, const_defs]: "CAP_ADD_PATH = 69"
definition CAP_ENHANCED_ROUTE_REFRESH :: u8 where [simp, const_defs]: "CAP_ENHANCED_ROUTE_REFRESH = 70"
definition CAP_LLGR :: u8 where [simp, const_defs]: "CAP_LLGR = 71"
definition CAP_ROUTING_POLICY_DIST :: u8 where [simp, const_defs]: "CAP_ROUTING_POLICY_DIST = 72"
definition CAP_FQDN :: u8 where [simp, const_defs]: "CAP_FQDN = 73"
definition CAP_BFD :: u8 where [simp, const_defs]: "CAP_BFD = 74"
definition CAP_SOFTWARE_VERSION :: u8 where [simp, const_defs]: "CAP_SOFTWARE_VERSION = 75"

subsection \<open>Address Family Numbers\<close>

definition AFI_IPV4 :: u16 where [simp, const_defs]: "AFI_IPV4 = 1"
definition AFI_IPV6 :: u16 where [simp, const_defs]: "AFI_IPV6 = 2"
definition AFI_NSAP :: u16 where [simp, const_defs]: "AFI_NSAP = 3"
definition AFI_HDLC :: u16 where [simp, const_defs]: "AFI_HDLC = 4"
definition AFI_BBN_1822 :: u16 where [simp, const_defs]: "AFI_BBN_1822 = 5"
definition AFI_802 :: u16 where [simp, const_defs]: "AFI_802 = 6"
definition AFI_E163 :: u16 where [simp, const_defs]: "AFI_E163 = 7"
definition AFI_E164 :: u16 where [simp, const_defs]: "AFI_E164 = 8"
definition AFI_F69 :: u16 where [simp, const_defs]: "AFI_F69 = 9"
definition AFI_X121 :: u16 where [simp, const_defs]: "AFI_X121 = 10"
definition AFI_IPX :: u16 where [simp, const_defs]: "AFI_IPX = 11"
definition AFI_APPLETALK :: u16 where [simp, const_defs]: "AFI_APPLETALK = 12"
definition AFI_DECNET_IV :: u16 where [simp, const_defs]: "AFI_DECNET_IV = 13"
definition AFI_BANYAN_VINES :: u16 where [simp, const_defs]: "AFI_BANYAN_VINES = 14"
definition AFI_E164_WITH_NSAP_SUBADDR :: u16 where [simp, const_defs]: "AFI_E164_WITH_NSAP_SUBADDR = 15"
definition AFI_DNS :: u16 where [simp, const_defs]: "AFI_DNS = 16"
definition AFI_DISTINGUISHED_NAME :: u16 where [simp, const_defs]: "AFI_DISTINGUISHED_NAME = 17"
definition AFI_AS_NUMBER :: u16 where [simp, const_defs]: "AFI_AS_NUMBER = 18"
definition AFI_XTP_OVER_IPV4 :: u16 where [simp, const_defs]: "AFI_XTP_OVER_IPV4 = 19"
definition AFI_XTP_OVER_IPV6 :: u16 where [simp, const_defs]: "AFI_XTP_OVER_IPV6 = 20"
definition AFI_XTP_NATIVE :: u16 where [simp, const_defs]: "AFI_XTP_NATIVE = 21"
definition AFI_FIBRE_CHANNEL_WWPN :: u16 where [simp, const_defs]: "AFI_FIBRE_CHANNEL_WWPN = 22"
definition AFI_FIBRE_CHANNEL_WWNN :: u16 where [simp, const_defs]: "AFI_FIBRE_CHANNEL_WWNN = 23"
definition AFI_GWID :: u16 where [simp, const_defs]: "AFI_GWID = 24"
definition AFI_L2VPN_INFO :: u16 where [simp, const_defs]: "AFI_L2VPN_INFO = 25"
definition AFI_MPLS_TP_SECTION_ENDPOINT_ID :: u16 where [simp, const_defs]: "AFI_MPLS_TP_SECTION_ENDPOINT_ID = 26"
definition AFI_MPLS_TP_LSP_ENDPOINT_ID :: u16 where [simp, const_defs]: "AFI_MPLS_TP_LSP_ENDPOINT_ID = 27"
definition AFI_MPLS_TP_PSEUDOWIRE_ENDPOINT_ID :: u16 where [simp, const_defs]: "AFI_MPLS_TP_PSEUDOWIRE_ENDPOINT_ID = 28"
definition AFI_MT_IPV4 :: u16 where [simp, const_defs]: "AFI_MT_IPV4 = 29"
definition AFI_MT_IPV6 :: u16 where [simp, const_defs]: "AFI_MT_IPV6 = 30"
definition AFI_BGP_SFC :: u16 where [simp, const_defs]: "AFI_BGP_SFC = 31"
definition AFI_EIGRP_COMMON_SERVICE_FAMILY :: u16 where [simp, const_defs]: "AFI_EIGRP_COMMON_SERVICE_FAMILY = 16384"
definition AFI_EIGRP_IPV4_SERVICE_FAMILY :: u16 where [simp, const_defs]: "AFI_EIGRP_IPV4_SERVICE_FAMILY = 16385"
definition AFI_EIGRP_IPV6_SERVICE_FAMILY :: u16 where [simp, const_defs]: "AFI_EIGRP_IPV6_SERVICE_FAMILY = 16386"
definition AFI_LCAF :: u16 where [simp, const_defs]: "AFI_LCAF = 16387"
definition AFI_BGP_LS :: u16 where [simp, const_defs]: "AFI_BGP_LS = 16388"
definition AFI_48_BIT_MAC :: u16 where [simp, const_defs]: "AFI_48_BIT_MAC = 16389"
definition AFI_64_BIT_MAC :: u16 where [simp, const_defs]: "AFI_64_BIT_MAC = 16390"
definition AFI_OUI :: u16 where [simp, const_defs]: "AFI_OUI = 16391"
definition AFI_MAC_FINAL_24_BITS :: u16 where [simp, const_defs]: "AFI_MAC_FINAL_24_BITS = 16392"
definition AFI_MAC_FINAL_40_BITS :: u16 where [simp, const_defs]: "AFI_MAC_FINAL_40_BITS = 16393"
definition AFI_IPV6_INITIAL_64_BITS :: u16 where [simp, const_defs]: "AFI_IPV6_INITIAL_64_BITS = 16394"
definition AFI_RBRIDGE_PORT_ID :: u16 where [simp, const_defs]: "AFI_RBRIDGE_PORT_ID = 16395"
definition AFI_TRILL_NICKNAME :: u16 where [simp, const_defs]: "AFI_TRILL_NICKNAME = 16396"
definition AFI_UUID :: u16 where [simp, const_defs]: "AFI_UUID = 16397"
definition AFI_ROUTING_POLICY :: u16 where [simp, const_defs]: "AFI_ROUTING_POLICY = 16398"
definition AFI_MPLS_NAMESPACES :: u16 where [simp, const_defs]: "AFI_MPLS_NAMESPACES = 16399"

subsection \<open>Subsequent Address Family Identifiers (SAFI) Parameters\<close>

definition SAFI_UNICAST :: u8 where [simp, const_defs]: "SAFI_UNICAST = 1"
definition SAFI_MULTICAST :: u8 where [simp, const_defs]: "SAFI_MULTICAST = 2"
definition SAFI_MPLS :: u8 where [simp, const_defs]: "SAFI_MPLS = 4"
definition SAFI_MCAST_VPN :: u8 where [simp, const_defs]: "SAFI_MCAST_VPN = 5"
definition SAFI_DYN_PLACEMENT_MULTI_SEGMENT_PW :: u8 where [simp, const_defs]: "SAFI_DYN_PLACEMENT_MULTI_SEGMENT_PW = 6"
definition SAFI_MCAST_VPLS :: u8 where [simp, const_defs]: "SAFI_MCAST_VPLS = 8"
definition SAFI_BGP_SFC :: u8 where [simp, const_defs]: "SAFI_BGP_SFC = 9"
definition SAFI_TUNNEL :: u8 where [simp, const_defs]: "SAFI_TUNNEL = 64"
definition SAFI_VPLS :: u8 where [simp, const_defs]: "SAFI_VPLS = 65"
definition SAFI_BGP_MDT :: u8 where [simp, const_defs]: "SAFI_BGP_MDT = 66"
definition SAFI_BGP_4OVER6 :: u8 where [simp, const_defs]: "SAFI_BGP_4OVER6 = 67"
definition SAFI_BGP_6OVER4 :: u8 where [simp, const_defs]: "SAFI_BGP_6OVER4 = 68"
definition SAFI_LAYER_1_VPN_AUTO_DISCOVERY_INFO :: u8 where [simp, const_defs]: "SAFI_LAYER_1_VPN_AUTO_DISCOVERY_INFO = 69"
definition SAFI_BGP_EVPNS :: u8 where [simp, const_defs]: "SAFI_BGP_EVPNS = 70"
definition SAFI_BGP_LS :: u8 where [simp, const_defs]: "SAFI_BGP_LS = 71"
definition SAFI_BGP_LS_VPN :: u8 where [simp, const_defs]: "SAFI_BGP_LS_VPN = 72"
definition SAFI_SR_TE_POLICY :: u8 where [simp, const_defs]: "SAFI_SR_TE_POLICY = 73"
definition SAFI_SD_WAN_CAPABILITIES :: u8 where [simp, const_defs]: "SAFI_SD_WAN_CAPABILITIES = 74"
definition SAFI_ROUTING_POLICY :: u8 where [simp, const_defs]: "SAFI_ROUTING_POLICY = 75"
definition SAFI_CLASSFUL_TRANSPORT :: u8 where [simp, const_defs]: "SAFI_CLASSFUL_TRANSPORT = 76"
definition SAFI_TUNNELED_TRAFFIC_FLOWSPEC :: u8 where [simp, const_defs]: "SAFI_TUNNELED_TRAFFIC_FLOWSPEC = 77"
definition SAFI_MCAST_TREE :: u8 where [simp, const_defs]: "SAFI_MCAST_TREE = 78"
definition SAFI_BGP_DPS :: u8 where [simp, const_defs]: "SAFI_BGP_DPS = 79"
definition SAFI_BGP_LS_SPF :: u8 where [simp, const_defs]: "SAFI_BGP_LS_SPF = 80"
definition SAFI_BGP_CAR :: u8 where [simp, const_defs]: "SAFI_BGP_CAR = 83"
definition SAFI_BGP_VPN_CAR :: u8 where [simp, const_defs]: "SAFI_BGP_VPN_CAR = 84"
definition SAFI_BGP_MUP :: u8 where [simp, const_defs]: "SAFI_BGP_MUP = 85"
definition SAFI_MPLS_LABELED_VPN_ADDR :: u8 where [simp, const_defs]: "SAFI_MPLS_LABELED_VPN_ADDR = 128"
definition SAFI_MULTICAST_BGP_MPLS_IP_VPNS :: u8 where [simp, const_defs]: "SAFI_MULTICAST_BGP_MPLS_IP_VPNS = 129"
definition SAFI_ROUTE_TARGET_CONSTRAINS :: u8 where [simp, const_defs]: "SAFI_ROUTE_TARGET_CONSTRAINS = 132"
definition SAFI_DISSEMINATION_OF_FLOWSPEC_RULES :: u8 where [simp, const_defs]: "SAFI_DISSEMINATION_OF_FLOWSPEC_RULES = 133"
definition SAFI_L3VPN_DISSEMINATION_OF_FLOWSPEC_RULES :: u8 where [simp, const_defs]: "SAFI_L3VPN_DISSEMINATION_OF_FLOWSPEC_RULES = 134"
definition SAFI_VPN_AUTO_DISCOVERY :: u8 where [simp, const_defs]: "SAFI_VPN_AUTO_DISCOVERY = 140"

subsection \<open>BGP Path Attributes\<close>

definition PATH_ATTR_ORIGIN :: u8 where [simp, const_defs]: "PATH_ATTR_ORIGIN = 1"
definition PATH_ATTR_AS_PATH :: u8 where [simp, const_defs]: "PATH_ATTR_AS_PATH = 2"
definition PATH_ATTR_NEXT_HOP :: u8 where [simp, const_defs]: "PATH_ATTR_NEXT_HOP = 3"
definition PATH_ATTR_MED :: u8 where [simp, const_defs]: "PATH_ATTR_MED = 4"
definition PATH_ATTR_LOCAL_PREF :: u8 where [simp, const_defs]: "PATH_ATTR_LOCAL_PREF = 5"
definition PATH_ATTR_ATOMIC_AGGREGATE :: u8 where [simp, const_defs]: "PATH_ATTR_ATOMIC_AGGREGATE = 6"
definition PATH_ATTR_AGGREGATOR :: u8 where [simp, const_defs]: "PATH_ATTR_AGGREGATOR = 7"
definition PATH_ATTR_COMMUNITY :: u8 where [simp, const_defs]: "PATH_ATTR_COMMUNITY = 8"
definition PATH_ATTR_ORIGINATOR_ID :: u8 where [simp, const_defs]: "PATH_ATTR_ORIGINATOR_ID = 9"
definition PATH_ATTR_CLUSTER_LIST :: u8 where [simp, const_defs]: "PATH_ATTR_CLUSTER_LIST = 10"
definition PATH_ATTR_MP_REACH_NLRI :: u8 where [simp, const_defs]: "PATH_ATTR_MP_REACH_NLRI = 14"
definition PATH_ATTR_MP_UNREACH_NLRI :: u8 where [simp, const_defs]: "PATH_ATTR_MP_UNREACH_NLRI = 15"
definition PATH_ATTR_EXTENDED_COMMUNITIES :: u8 where [simp, const_defs]: "PATH_ATTR_EXTENDED_COMMUNITIES = 16"
definition PATH_ATTR_AS4_PATH :: u8 where [simp, const_defs]: "PATH_ATTR_AS4_PATH = 17"
definition PATH_ATTR_AS4_AGGREGATOR :: u8 where [simp, const_defs]: "PATH_ATTR_AS4_AGGREGATOR = 18"
definition PATH_ATTR_PMSI_TUNNEL :: u8 where [simp, const_defs]: "PATH_ATTR_PMSI_TUNNEL = 22"
definition PATH_ATTR_TUNNEL_ENCAPSULATION :: u8 where [simp, const_defs]: "PATH_ATTR_TUNNEL_ENCAPSULATION = 23"
definition PATH_ATTR_TRAFFIC_ENGINEERING :: u8 where [simp, const_defs]: "PATH_ATTR_TRAFFIC_ENGINEERING = 24"
definition PATH_ATTR_IPV6_ADDR_SPECIFIC_EXTENDED_COMMUNITY :: u8 where [simp, const_defs]: "PATH_ATTR_IPV6_ADDR_SPECIFIC_EXTENDED_COMMUNITY = 25"
definition PATH_ATTR_AIGP :: u8 where [simp, const_defs]: "PATH_ATTR_AIGP = 26"
definition PATH_ATTR_PE_DISTINGUISHER_LABELS :: u8 where [simp, const_defs]: "PATH_ATTR_PE_DISTINGUISHER_LABELS = 27"
definition PATH_ATTR_BGP_LS :: u8 where [simp, const_defs]: "PATH_ATTR_BGP_LS = 29"
definition PATH_ATTR_LARGE_COMMUNITY :: u8 where [simp, const_defs]: "PATH_ATTR_LARGE_COMMUNITY = 32"
definition PATH_ATTR_BGPSEC_PATH :: u8 where [simp, const_defs]: "PATH_ATTR_BGPSEC_PATH = 33"
definition PATH_ATTR_OTC :: u8 where [simp, const_defs]: "PATH_ATTR_OTC = 35"
definition PATH_ATTR_SFP_ATTR :: u8 where [simp, const_defs]: "PATH_ATTR_SFP_ATTR = 37"
definition PATH_ATTR_BFD_DISCRIMINATOR :: u8 where [simp, const_defs]: "PATH_ATTR_BFD_DISCRIMINATOR = 38"
definition PATH_ATTR_BGP_PREFIX_SID :: u8 where [simp, const_defs]: "PATH_ATTR_BGP_PREFIX_SID = 40"
definition PATH_ATTR_ATTR_SET :: u8 where [simp, const_defs]: "PATH_ATTR_ATTR_SET = 128"

subsection \<open>BGP Error (Notification) Codes\<close>

definition NOTIF_CODE_MESSAGE_HEADER_ERR :: u8 where [simp, const_defs]: "NOTIF_CODE_MESSAGE_HEADER_ERR = 1"
definition NOTIF_CODE_OPEN_MESSAGE_ERR :: u8 where [simp, const_defs]: "NOTIF_CODE_OPEN_MESSAGE_ERR = 2"
definition NOTIF_CODE_UPDATE_MESSAGE_ERR :: u8 where [simp, const_defs]: "NOTIF_CODE_UPDATE_MESSAGE_ERR = 3"
definition NOTIF_CODE_HOLD_TIMER_EXPIRED :: u8 where [simp, const_defs]: "NOTIF_CODE_HOLD_TIMER_EXPIRED = 4"
definition NOTIF_CODE_FSM_ERR :: u8 where [simp, const_defs]: "NOTIF_CODE_FSM_ERR = 5"
definition NOTIF_CODE_CEASE :: u8 where [simp, const_defs]: "NOTIF_CODE_CEASE = 6"
definition NOTIF_CODE_ROUTE_REFRESH_MESSAGE_ERR :: u8 where [simp, const_defs]: "NOTIF_CODE_ROUTE_REFRESH_MESSAGE_ERR = 7"

subsection \<open>Message Header Error subcodes\<close>

definition NOTIF_SUBCODE_CONN_NOT_SYNCHRONIZED :: u8 where [simp, const_defs]: "NOTIF_SUBCODE_CONN_NOT_SYNCHRONIZED = 1"
definition NOTIF_SUBCODE_BAD_MESSAGE_LEN :: u8 where [simp, const_defs]: "NOTIF_SUBCODE_BAD_MESSAGE_LEN = 2"
definition NOTIF_SUBCODE_BAD_MESSAGE_TYPE :: u8 where [simp, const_defs]: "NOTIF_SUBCODE_BAD_MESSAGE_TYPE = 3"

subsection \<open>OPEN Message Error subcodes\<close>

definition NOTIF_SUBCODE_UNSUPPORTED_VERSION_NUM :: u8 where [simp, const_defs]: "NOTIF_SUBCODE_UNSUPPORTED_VERSION_NUM = 1"
definition NOTIF_SUBCODE_BAD_PEER_AS :: u8 where [simp, const_defs]: "NOTIF_SUBCODE_BAD_PEER_AS = 2"
definition NOTIF_SUBCODE_BAD_BGP_ID :: u8 where [simp, const_defs]: "NOTIF_SUBCODE_BAD_BGP_ID = 3"
definition NOTIF_SUBCODE_UNSUPPORTED_OPTIONAL_PARAM :: u8 where [simp, const_defs]: "NOTIF_SUBCODE_UNSUPPORTED_OPTIONAL_PARAM = 4"
definition NOTIF_SUBCODE_UNACCEPTABLE_HOLD_TIME :: u8 where [simp, const_defs]: "NOTIF_SUBCODE_UNACCEPTABLE_HOLD_TIME = 6"
definition NOTIF_SUBCODE_UNSUPPORTED_CAPABILITY :: u8 where [simp, const_defs]: "NOTIF_SUBCODE_UNSUPPORTED_CAPABILITY = 7"
definition NOTIF_SUBCODE_ROLE_MISMATCH :: u8 where [simp, const_defs]: "NOTIF_SUBCODE_ROLE_MISMATCH = 11"

subsection \<open>UPDATE Message Error subcodes\<close>

definition NOTIF_SUBCODE_MALFORMED_ATTR_LIST :: u8 where [simp, const_defs]: "NOTIF_SUBCODE_MALFORMED_ATTR_LIST = 1"
definition NOTIF_SUBCODE_UNRECOGNIZED_WELL_KNOWN_ATTR :: u8 where [simp, const_defs]: "NOTIF_SUBCODE_UNRECOGNIZED_WELL_KNOWN_ATTR = 2"
definition NOTIF_SUBCODE_MISSING_WELL_KNOWN_ATTR :: u8 where [simp, const_defs]: "NOTIF_SUBCODE_MISSING_WELL_KNOWN_ATTR = 3"
definition NOTIF_SUBCODE_ATTR_FLAGS_ERR :: u8 where [simp, const_defs]: "NOTIF_SUBCODE_ATTR_FLAGS_ERR = 4"
definition NOTIF_SUBCODE_ATTR_LEN_ERR :: u8 where [simp, const_defs]: "NOTIF_SUBCODE_ATTR_LEN_ERR = 5"
definition NOTIF_SUBCODE_INVALID_ORIGIN_ATTR :: u8 where [simp, const_defs]: "NOTIF_SUBCODE_INVALID_ORIGIN_ATTR = 6"
definition NOTIF_SUBCODE_INVALID_NEXT_HOP_ATTR :: u8 where [simp, const_defs]: "NOTIF_SUBCODE_INVALID_NEXT_HOP_ATTR = 8"
definition NOTIF_SUBCODE_OPTIONAL_ATTR_ERR :: u8 where [simp, const_defs]: "NOTIF_SUBCODE_OPTIONAL_ATTR_ERR = 9"
definition NOTIF_SUBCODE_INVALID_NETWORK_FIELD :: u8 where [simp, const_defs]: "NOTIF_SUBCODE_INVALID_NETWORK_FIELD = 10"
definition NOTIF_SUBCODE_MALFORMED_AS_PATH :: u8 where [simp, const_defs]: "NOTIF_SUBCODE_MALFORMED_AS_PATH = 11"

subsection \<open>BGP Finite State Machine Error Subcodes\<close>

definition NOTIF_SUBCODE_RX_UNEXPECTED_MESSAGE_OPENSENT :: u8 where [simp, const_defs]: "NOTIF_SUBCODE_RX_UNEXPECTED_MESSAGE_OPENSENT = 1"
definition NOTIF_SUBCODE_RX_UNEXPECTED_MESSAGE_OPENCONFIRM :: u8 where [simp, const_defs]: "NOTIF_SUBCODE_RX_UNEXPECTED_MESSAGE_OPENCONFIRM = 2"
definition NOTIF_SUBCODE_RX_UNEXPECTED_MESSAGE_ESTABLISHED :: u8 where [simp, const_defs]: "NOTIF_SUBCODE_RX_UNEXPECTED_MESSAGE_ESTABLISHED = 3"

subsection \<open>BGP Cease NOTIFICATION message subcodes\<close>

definition NOTIF_SUBCODE_MAX_NUM_OF_PREFIXES_REACHED :: u8 where [simp, const_defs]: "NOTIF_SUBCODE_MAX_NUM_OF_PREFIXES_REACHED = 1"
definition NOTIF_SUBCODE_ADMIN_SHUTDOWN :: u8 where [simp, const_defs]: "NOTIF_SUBCODE_ADMIN_SHUTDOWN = 2"
definition NOTIF_SUBCODE_PEER_DECONFIGURED :: u8 where [simp, const_defs]: "NOTIF_SUBCODE_PEER_DECONFIGURED = 3"
definition NOTIF_SUBCODE_ADMIN_RESET :: u8 where [simp, const_defs]: "NOTIF_SUBCODE_ADMIN_RESET = 4"
definition NOTIF_SUBCODE_CONN_REJECTED :: u8 where [simp, const_defs]: "NOTIF_SUBCODE_CONN_REJECTED = 5"
definition NOTIF_SUBCODE_OTHER_CONFIG_CHANGE :: u8 where [simp, const_defs]: "NOTIF_SUBCODE_OTHER_CONFIG_CHANGE = 6"
definition NOTIF_SUBCODE_CONN_COLLISION_RESOLUTION :: u8 where [simp, const_defs]: "NOTIF_SUBCODE_CONN_COLLISION_RESOLUTION = 7"
definition NOTIF_SUBCODE_OUT_OF_RESOURCES :: u8 where [simp, const_defs]: "NOTIF_SUBCODE_OUT_OF_RESOURCES = 8"
definition NOTIF_SUBCODE_HARD_RESET :: u8 where [simp, const_defs]: "NOTIF_SUBCODE_HARD_RESET = 9"
definition NOTIF_SUBCODE_BFD_DOWN :: u8 where [simp, const_defs]: "NOTIF_SUBCODE_BFD_DOWN = 10"

subsection \<open>BGP ROUTE-REFRESH Message Error subcodes\<close>

definition NOTIF_SUBCODE_INVALID_MESSAGE_LEN :: u8 where [simp, const_defs]: "NOTIF_SUBCODE_INVALID_MESSAGE_LEN = 1"

section \<open>Descriptions of NOTIFICATION codes and subcodes\<close>

record notifCodeDescAndSubcodes =
  desc :: string
  subcodes :: "u8 \<rightharpoonup> string"

definition notifCodesMap :: "u8 \<rightharpoonup> notifCodeDescAndSubcodes" where
  "notifCodesMap = map_of [
      (NOTIF_CODE_MESSAGE_HEADER_ERR, \<lparr>desc = ''Message Header Error'', subcodes = map_of [(NOTIF_SUBCODE_CONN_NOT_SYNCHRONIZED, ''Connection Not Synchronized''),
         (NOTIF_SUBCODE_BAD_MESSAGE_LEN, ''Bad Message Length''),
         (NOTIF_SUBCODE_BAD_MESSAGE_TYPE, ''Bad Message Type'')]\<rparr>),
      (NOTIF_CODE_OPEN_MESSAGE_ERR, \<lparr>desc = ''OPEN Message Error'', subcodes = map_of [(NOTIF_SUBCODE_UNSUPPORTED_VERSION_NUM, ''Unsupported Version Number''),
         (NOTIF_SUBCODE_BAD_PEER_AS, ''Bad Peer AS''),
         (NOTIF_SUBCODE_BAD_BGP_ID, ''Bad BGP Identifier''),
         (NOTIF_SUBCODE_UNSUPPORTED_OPTIONAL_PARAM, ''Unsupported Optional Parameter''),
         (NOTIF_SUBCODE_UNACCEPTABLE_HOLD_TIME, ''Unacceptable Hold Time''),
         (NOTIF_SUBCODE_UNSUPPORTED_CAPABILITY, ''Unsupported Capability''),
         (NOTIF_SUBCODE_ROLE_MISMATCH, ''Role Mismatch'')]\<rparr>),
      (NOTIF_CODE_UPDATE_MESSAGE_ERR, \<lparr>desc = ''UPDATE Message Error'', subcodes = map_of [(NOTIF_SUBCODE_MALFORMED_ATTR_LIST, ''Malformed Attribute List''),
         (NOTIF_SUBCODE_UNRECOGNIZED_WELL_KNOWN_ATTR, ''Unrecognized Well-known Attribute''),
         (NOTIF_SUBCODE_MISSING_WELL_KNOWN_ATTR, ''Missing Well-known Attribute''),
         (NOTIF_SUBCODE_ATTR_FLAGS_ERR, ''Attribute Flags Error''),
         (NOTIF_SUBCODE_ATTR_LEN_ERR, ''Attribute Length Error''),
         (NOTIF_SUBCODE_INVALID_ORIGIN_ATTR, ''Invalid ORIGIN Attribute''),
         (NOTIF_SUBCODE_INVALID_NEXT_HOP_ATTR, ''Invalid NEXT_HOP Attribute''),
         (NOTIF_SUBCODE_OPTIONAL_ATTR_ERR, ''Optional Attribute Error''),
         (NOTIF_SUBCODE_INVALID_NETWORK_FIELD, ''Invalid Network Field''),
         (NOTIF_SUBCODE_MALFORMED_AS_PATH, ''Malformed AS_PATH'')]\<rparr>),
      (NOTIF_CODE_HOLD_TIMER_EXPIRED, \<lparr>desc = ''Hold Timer Expired'', subcodes = map_of []\<rparr>),
      (NOTIF_CODE_FSM_ERR, \<lparr>desc = ''Finite State Machine Error'', subcodes = map_of [(NOTIF_SUBCODE_RX_UNEXPECTED_MESSAGE_OPENSENT, ''Receive Unexpected Message in OpenSent State''),
         (NOTIF_SUBCODE_RX_UNEXPECTED_MESSAGE_OPENCONFIRM, ''Receive Unexpected Message in OpenConfirm State''),
         (NOTIF_SUBCODE_RX_UNEXPECTED_MESSAGE_ESTABLISHED, ''Receive Unexpected Message in Established State'')]\<rparr>),
      (NOTIF_CODE_CEASE, \<lparr>desc = ''Cease'', subcodes = map_of [(NOTIF_SUBCODE_MAX_NUM_OF_PREFIXES_REACHED, ''Maximum Number of Prefixes Reached''),
         (NOTIF_SUBCODE_ADMIN_SHUTDOWN, ''Administrative Shutdown''),
         (NOTIF_SUBCODE_PEER_DECONFIGURED, ''Peer De-configured''),
         (NOTIF_SUBCODE_ADMIN_RESET, ''Administrative Reset''),
         (NOTIF_SUBCODE_CONN_REJECTED, ''Connection Rejected''),
         (NOTIF_SUBCODE_OTHER_CONFIG_CHANGE, ''Other Configuration Change''),
         (NOTIF_SUBCODE_CONN_COLLISION_RESOLUTION, ''Connection Collision Resolution''),
         (NOTIF_SUBCODE_OUT_OF_RESOURCES, ''Out of Resources''),
         (NOTIF_SUBCODE_HARD_RESET, ''Hard Reset''),
         (NOTIF_SUBCODE_BFD_DOWN, ''BFD Down'')]\<rparr>),
      (NOTIF_CODE_ROUTE_REFRESH_MESSAGE_ERR, \<lparr>desc = ''ROUTE-REFRESH Message Error'', subcodes = map_of [(NOTIF_SUBCODE_INVALID_MESSAGE_LEN, ''Invalid Message Length'')]\<rparr>)]"

end
