(* ===== verification/Errors.thy ===== *)
theory Errors
  imports Iana
begin

text \<open>
  The error values of the package. A \<open>Notification\<close> is both a wire message and an error
  (\<open>src/packet.go\<close>); \<open>notificationError\<close> (\<open>src/notification_error.go\<close>) carries one through
  the FSM with its direction; the two RFC 7606 errors come from \<open>src/update.go\<close>. The other
  constructors are the error values Go's standard library builds: \<open>errors.New\<close> and
  \<open>fmt.Errorf\<close> without a wrapping verb (\<open>PlainErr\<close>), \<open>fmt.Errorf\<close> with \<open>%w\<close>
  (\<open>WrapErr\<close>), \<open>errors.Join\<close> (\<open>JoinErr\<close>), and an implementation of the exported
  \<open>UpdateError\<close> interface by a user of the package (\<open>UserUpdateErr\<close>, with what its
  \<open>Unwrap\<close> method gives, if it has one).

  The theory then models \<open>errors.As\<close> for the two pointer types the code looks for,
  \<open>errors.Join\<close>, the \<open>Error\<close> methods, and \<open>UpdateNotificationFromErr\<close>, and proves the
  latter's traversal equivalent to a search by severity over the flattened tree.
\<close>

section \<open>Error values\<close>

record Notification =
  Code :: u8
  Subcode :: u8
  Data :: bytes

definition newNotification :: "u8 \<Rightarrow> u8 \<Rightarrow> bytes \<Rightarrow> Notification" where
  [simp]: "newNotification code subcode data = \<lparr>Code = code, Subcode = subcode, Data = data\<rparr>"

datatype error =
    NotifErr Notification bool
  | NotificationErr Notification
  | TreatAsWithdrawUpdateErr u8 "Notification option"
  | AttrDiscardUpdateErr u8 "Notification option"
  | UserUpdateErr Notification "error list"
  | PlainErr string
  | WrapErr string error
  | JoinErr "error list"

type_synonym 'a ret = "(error + 'a) go"

definition newNotificationError :: "Notification \<Rightarrow> bool \<Rightarrow> error" where
  [simp]: "newNotificationError n out = NotifErr n out"

text \<open>\<open>func (n *notificationError) dampPeer() bool\<close>\<close>

definition dampPeer :: "Notification \<Rightarrow> bool" where
  "dampPeer n \<longleftrightarrow> Code n \<noteq> NOTIF_CODE_CEASE"

text \<open>All nodes of an error's tree, in the pre-order \<open>errors.As\<close> visits them.\<close>

fun flatten :: "error \<Rightarrow> error list" where
  "flatten (UserUpdateErr n es) = UserUpdateErr n es # concat (map flatten es)"
| "flatten (WrapErr s e) = WrapErr s e # flatten e"
| "flatten (JoinErr es) = JoinErr es # concat (map flatten es)"
| "flatten e = [e]"

fun is_notification :: "error \<Rightarrow> Notification option" where
  "is_notification (NotificationErr n) = Some n"
| "is_notification _ = None"

fun is_notifErr :: "error \<Rightarrow> (Notification \<times> bool) option" where
  "is_notifErr (NotifErr n out) = Some (n, out)"
| "is_notifErr _ = None"

fun first_some :: "('a \<Rightarrow> 'b option) \<Rightarrow> 'a list \<Rightarrow> 'b option" where
  "first_some f [] = None"
| "first_some f (x # xs) = (case f x of None \<Rightarrow> first_some f xs | Some y \<Rightarrow> Some y)"

text \<open>\<open>errors.As(err, &notif)\<close> and \<open>errors.As(err, &nerr)\<close>\<close>

definition as_Notification :: "error \<Rightarrow> Notification option" where
  "as_Notification e = first_some is_notification (flatten e)"

definition as_notificationError :: "error \<Rightarrow> (Notification \<times> bool) option" where
  "as_notificationError e = first_some is_notifErr (flatten e)"

text \<open>\<open>errors.Join(a, b)\<close>: nil arguments are dropped, and all nil gives nil.\<close>

definition errors_Join :: "error option \<Rightarrow> error option \<Rightarrow> error option" where
  "errors_Join a b =
     (case (a, b) of
        (None, None) \<Rightarrow> None
      | (Some x, None) \<Rightarrow> Some (JoinErr [x])
      | (None, Some y) \<Rightarrow> Some (JoinErr [y])
      | (Some x, Some y) \<Rightarrow> Some (JoinErr [x, y]))"

section \<open>Error texts\<close>

definition digit :: "nat \<Rightarrow> char" where
  "digit d = char_of (48 + d)"

fun fmt_d :: "nat \<Rightarrow> string" where
  "fmt_d n = (if n < 10 then [digit n] else fmt_d (n div 10) @ [digit (n mod 10)])"

declare fmt_d.simps [simp del]

definition notif_descs :: "Notification \<Rightarrow> string \<times> string" where
  "notif_descs n =
     (case notifCodesMap (Code n) of
        None \<Rightarrow> ('''', '''')
      | Some d \<Rightarrow> (desc d, (case subcodes d (Subcode n) of None \<Rightarrow> '''' | Some s \<Rightarrow> s)))"

definition Notification_Error :: "Notification \<Rightarrow> string" where
  "Notification_Error n =
     (let (codeDesc, subcodeDesc) = notif_descs n in
      ''notification code:'' @ fmt_d (unat (Code n)) @ '' ('' @ codeDesc @ '') subcode:'' @
      fmt_d (unat (Subcode n)) @ '' ('' @ subcodeDesc @ '')'')"

definition notificationError_Error :: "Notification \<Rightarrow> bool \<Rightarrow> string" where
  "notificationError_Error n out =
     (let direction = (if out then ''sent'' else ''received'');
          (codeDesc, subcodeDesc) = notif_descs n in
      ''notification '' @ direction @ '' code: '' @ fmt_d (unat (Code n)) @ '' ('' @ codeDesc @
      '') subcode: '' @ fmt_d (unat (Subcode n)) @ '' ('' @ subcodeDesc @ '')'')"

section \<open>Session reset and severity\<close>

text \<open>\<open>AsSessionReset\<close> of the two RFC 7606 errors, which agree.\<close>

definition updateMessageErr :: Notification where
  "updateMessageErr = \<lparr>Code = NOTIF_CODE_UPDATE_MESSAGE_ERR, Subcode = 0, Data = []\<rparr>"

fun AsSessionReset :: "error \<Rightarrow> Notification option" where
  "AsSessionReset (NotificationErr n) = Some n"
| "AsSessionReset (TreatAsWithdrawUpdateErr c n) =
     Some (case n of Some m \<Rightarrow> m | None \<Rightarrow> updateMessageErr)"
| "AsSessionReset (AttrDiscardUpdateErr c n) =
     Some (case n of Some m \<Rightarrow> m | None \<Rightarrow> updateMessageErr)"
| "AsSessionReset (UserUpdateErr n es) = Some n"
| "AsSessionReset _ = None"

text \<open>
  The four variables the closure \<open>unwrap\<close> of \<open>UpdateNotificationFromErr\<close> captures; each
  holds the session-reset notification of the error it points to.
\<close>

record found =
  f_n :: "Notification option"
  f_taw :: "Notification option"
  f_ad :: "Notification option"
  f_ue :: "Notification option"

definition set_if_nil :: "'a option \<Rightarrow> 'a option \<Rightarrow> 'a option" where
  "set_if_nil old new = (case old of None \<Rightarrow> new | Some x \<Rightarrow> Some x)"

text \<open>The first type switch: what one node records.\<close>

fun record_node :: "error \<Rightarrow> found \<Rightarrow> found" where
  "record_node (NotificationErr n) s = s\<lparr>f_n := set_if_nil (f_n s) (Some n)\<rparr>"
| "record_node (TreatAsWithdrawUpdateErr c n) s =
     s\<lparr>f_taw := set_if_nil (f_taw s) (AsSessionReset (TreatAsWithdrawUpdateErr c n))\<rparr>"
| "record_node (AttrDiscardUpdateErr c n) s =
     s\<lparr>f_ad := set_if_nil (f_ad s) (AsSessionReset (AttrDiscardUpdateErr c n))\<rparr>"
| "record_node (UserUpdateErr n es) s = s\<lparr>f_ue := set_if_nil (f_ue s) (Some n)\<rparr>"
| "record_node _ s = s"

text \<open>
  The second type switch: one child for \<open>Unwrap() error\<close>; for \<open>Unwrap() []error\<close> a loop
  that returns as soon as a \<open>*Notification\<close> has been found.
\<close>

fun unwrap :: "error \<Rightarrow> found \<Rightarrow> found"
  and unwrap_list :: "error list \<Rightarrow> found \<Rightarrow> found" where
  "unwrap (WrapErr msg e) s = unwrap e (record_node (WrapErr msg e) s)"
| "unwrap (JoinErr es) s = unwrap_list es (record_node (JoinErr es) s)"
| "unwrap (UserUpdateErr n es) s = unwrap_list es (record_node (UserUpdateErr n es) s)"
| "unwrap e s = record_node e s"
| "unwrap_list [] s = s"
| "unwrap_list (e # es) s =
     (let s' = unwrap e s in if f_n s' \<noteq> None then s' else unwrap_list es s')"

definition UpdateNotificationFromErr :: "error option \<Rightarrow> Notification option" where
  "UpdateNotificationFromErr err =
     (case err of
        None \<Rightarrow> None
      | Some e \<Rightarrow>
          (let s = unwrap e \<lparr>f_n = None, f_taw = None, f_ad = None, f_ue = None\<rparr> in
           if f_n s \<noteq> None then f_n s
           else if f_taw s \<noteq> None then f_taw s
           else if f_ad s \<noteq> None then f_ad s
           else if f_ue s \<noteq> None then f_ue s
           else Some updateMessageErr))"

section \<open>Severity, as a specification\<close>

fun is_taw :: "error \<Rightarrow> bool" where
  "is_taw (TreatAsWithdrawUpdateErr _ _) = True"
| "is_taw _ = False"

fun is_ad :: "error \<Rightarrow> bool" where
  "is_ad (AttrDiscardUpdateErr _ _) = True"
| "is_ad _ = False"

fun is_userUpdateErr :: "error \<Rightarrow> bool" where
  "is_userUpdateErr (UserUpdateErr _ _) = True"
| "is_userUpdateErr _ = False"

text \<open>The session-reset notification of the earliest node of one kind.\<close>

definition earliest :: "(error \<Rightarrow> bool) \<Rightarrow> error list \<Rightarrow> Notification option" where
  "earliest P es = first_some (\<lambda>e. if P e then AsSessionReset e else None) es"

definition severest :: "error list \<Rightarrow> Notification" where
  "severest es =
     (case first_some is_notification es of
        Some n \<Rightarrow> n
      | None \<Rightarrow>
         (case earliest is_taw es of
            Some n \<Rightarrow> n
          | None \<Rightarrow>
             (case earliest is_ad es of
                Some n \<Rightarrow> n
              | None \<Rightarrow>
                 (case earliest is_userUpdateErr es of
                    Some n \<Rightarrow> n
                  | None \<Rightarrow> updateMessageErr))))"

section \<open>Lemmas\<close>

lemma set_if_nil_simps [simp]:
  "set_if_nil None y = y" "set_if_nil (Some x) y = Some x" "set_if_nil z None = z"
  by (auto simp: set_if_nil_def split: option.splits)

lemma first_some_append:
  "first_some f (xs @ ys) =
     (case first_some f xs of None \<Rightarrow> first_some f ys | Some y \<Rightarrow> Some y)"
  by (induction xs) (auto split: option.splits)

lemma first_some_None_iff: "first_some f xs = None \<longleftrightarrow> (\<forall>x\<in>set xs. f x = None)"
  by (induction xs) (auto split: option.splits)

lemma first_some_append_nil:
  "first_some f (xs @ ys) = set_if_nil (first_some f xs) (first_some f ys)"
  by (simp add: first_some_append set_if_nil_def split: option.splits)

lemma set_if_nil_assoc: "set_if_nil (set_if_nil a b) c = set_if_nil a (set_if_nil b c)"
  by (simp add: set_if_nil_def split: option.splits)

text \<open>What a traversal without the early exits would record.\<close>

definition note_all :: "error list \<Rightarrow> found \<Rightarrow> found" where
  "note_all es s =
     \<lparr>f_n = set_if_nil (f_n s) (first_some is_notification es),
      f_taw = set_if_nil (f_taw s) (earliest is_taw es),
      f_ad = set_if_nil (f_ad s) (earliest is_ad es),
      f_ue = set_if_nil (f_ue s) (earliest is_userUpdateErr es)\<rparr>"

lemma note_all_Nil [simp]: "note_all [] s = s"
  by (simp add: note_all_def earliest_def)

lemma note_all_append: "note_all (xs @ ys) s = note_all ys (note_all xs s)"
  by (simp add: note_all_def earliest_def first_some_append_nil set_if_nil_assoc)

lemma note_all_single: "note_all [e] s = record_node e s"
  by (cases e) (auto simp: note_all_def earliest_def)

lemma note_all_Cons: "note_all (e # es) s = note_all es (record_node e s)"
  using note_all_append [of "[e]" es s] by (simp add: note_all_single)

lemma note_all_f_n: "f_n s \<noteq> None \<Longrightarrow> f_n (note_all es s) = f_n s"
  by (auto simp: note_all_def)

text \<open>
  With the early exits the traversal agrees with the full one on whether a
  \<open>*Notification\<close> was found and on which one, and on everything if none was.
\<close>

definition agree :: "found \<Rightarrow> found \<Rightarrow> bool" where
  "agree s t \<longleftrightarrow> f_n s = f_n t \<and> (f_n s = None \<longrightarrow> s = t)"

lemma agree_refl [simp]: "agree s s"
  by (simp add: agree_def)

lemma unwrap_agrees:
  shows "f_n s = None \<Longrightarrow> agree (unwrap e s) (note_all (flatten e) s)"
    and "f_n s = None \<Longrightarrow> agree (unwrap_list es s) (note_all (concat (map flatten es)) s)"
proof (induction e s and es s rule: unwrap_unwrap_list.induct)
  case (6 e es s)
  let ?s' = "unwrap e s"
  from 6 have e: "agree ?s' (note_all (flatten e) s)" by simp
  show ?case
  proof (cases "f_n ?s' = None")
    case True
    with e have "note_all (flatten e) s = ?s'" by (simp add: agree_def)
    with True 6 show ?thesis by (simp add: note_all_append Let_def)
  next
    case False
    with e show ?thesis
      by (auto simp: note_all_append agree_def note_all_f_n Let_def)
  qed
qed (auto simp: note_all_Cons note_all_single)

lemma as_Notification_simps [simp]:
  "as_Notification (NotificationErr n) = Some n"
  "as_Notification (TreatAsWithdrawUpdateErr c m) = None"
  "as_Notification (AttrDiscardUpdateErr c m) = None"
  "as_Notification (NotifErr n out) = None"
  "as_Notification (PlainErr msg) = None"
  "as_Notification (WrapErr msg e) = as_Notification e"
  "as_Notification (JoinErr es) = first_some as_Notification es"
proof -
  have "first_some is_notification (concat (map flatten es)) = first_some as_Notification es"
    by (induction es) (auto simp: as_Notification_def first_some_append split: option.splits)
  then show "as_Notification (JoinErr es) = first_some as_Notification es"
    by (simp add: as_Notification_def)
qed (simp_all add: as_Notification_def)

lemma as_notificationError_simps [simp]:
  "as_notificationError (NotifErr n out) = Some (n, out)"
  "as_notificationError (PlainErr msg) = None"
  "as_notificationError (WrapErr msg e) = as_notificationError e"
  by (simp_all add: as_notificationError_def)

lemma UpdateNotificationFromErr_severest:
  "UpdateNotificationFromErr (Some e) = Some (severest (flatten e))"
proof -
  let ?z = "\<lparr>f_n = None, f_taw = None, f_ad = None, f_ue = None\<rparr>"
  have "agree (unwrap e ?z) (note_all (flatten e) ?z)"
    by (rule unwrap_agrees) simp
  then have "f_n (unwrap e ?z) = first_some is_notification (flatten e)"
    and "f_n (unwrap e ?z) = None \<Longrightarrow> unwrap e ?z = note_all (flatten e) ?z"
    by (auto simp: agree_def note_all_def)
  then show ?thesis
    by (cases "first_some is_notification (flatten e)")
       (auto simp: UpdateNotificationFromErr_def severest_def Let_def note_all_def
         split: option.splits)
qed

section \<open>Properties\<close>

text \<open>
  C25. \<open>UpdateNotificationFromErr\<close> returns the notification of the severest error of the
  tree: the first \<open>*Notification\<close> in pre-order if there is one, else the session reset of
  the first treat-as-withdraw error, else of the first attribute-discard error, else of the
  first other \<open>UpdateError\<close>, else a bare UPDATE Message Error. The early exits of the
  traversal do not change the result, for trees of any shape and depth.
\<close>

theorem update_notification_severest:
  "UpdateNotificationFromErr (Some e) = Some (severest (flatten e))"
  by (rule UpdateNotificationFromErr_severest)

end
