(* ===== verification/Netip.thy ===== *)
theory Netip
  imports Prelude
begin

text \<open>
  What the code uses of Go's \<open>net/netip\<close>: an address is the zero \<open>Addr\<close>, an IPv4 address of
  four bytes, or an IPv6 address of sixteen bytes with a zone; a prefix is an address with a
  length, or with none when \<open>PrefixFrom\<close> was given a length its address cannot have.
\<close>

datatype Addr =
    NoAddr
  | V4 bytes
  | V6 bytes string

fun IsValid :: "Addr \<Rightarrow> bool" where
  "IsValid NoAddr = False"
| "IsValid _ = True"

fun Is4 :: "Addr \<Rightarrow> bool" where
  "Is4 (V4 _) = True"
| "Is4 _ = False"

fun Is6 :: "Addr \<Rightarrow> bool" where
  "Is6 (V6 _ _) = True"
| "Is6 _ = False"

fun AsSlice :: "Addr \<Rightarrow> bytes" where
  "AsSlice NoAddr = []"
| "AsSlice (V4 b) = b"
| "AsSlice (V6 b _) = b"

fun BitLen :: "Addr \<Rightarrow> nat" where
  "BitLen NoAddr = 0"
| "BitLen (V4 _) = 32"
| "BitLen (V6 _ _) = 128"

text \<open>\<open>IsMulticast\<close>: 224.0.0.0/4 and ff00::/8.\<close>

fun IsMulticast :: "Addr \<Rightarrow> bool" where
  "IsMulticast NoAddr = False"
| "IsMulticast (V4 b) \<longleftrightarrow> (b ! 0) AND 0xF0 = 0xE0"
| "IsMulticast (V6 b _) \<longleftrightarrow> b ! 0 = 0xFF"

definition AddrFrom4 :: "bytes \<Rightarrow> Addr" where
  "AddrFrom4 b = V4 b"

definition AddrFrom16 :: "bytes \<Rightarrow> Addr" where
  "AddrFrom16 b = V6 b ''''"

text \<open>\<open>AddrFromSlice\<close>; the code ignores its second result, which tells a bad length.\<close>

definition AddrFromSlice :: "bytes \<Rightarrow> Addr" where
  "AddrFromSlice b =
     (if length b = 4 then AddrFrom4 b else if length b = 16 then AddrFrom16 b else NoAddr)"

text \<open>\<open>As16\<close>: an IPv4 address becomes the IPv4-mapped IPv6 address.\<close>

fun As16 :: "Addr \<Rightarrow> bytes" where
  "As16 NoAddr = replicate 16 0"
| "As16 (V4 b) = replicate 10 0 @ [0xFF, 0xFF] @ b"
| "As16 (V6 b _) = b"

fun withoutZone :: "Addr \<Rightarrow> Addr" where
  "withoutZone (V6 b _) = V6 b ''''"
| "withoutZone a = a"

record Prefix =
  p_addr :: Addr
  p_bits :: "nat option"

definition PrefixFrom :: "Addr \<Rightarrow> nat \<Rightarrow> Prefix" where
  "PrefixFrom a n =
     \<lparr>p_addr = withoutZone a, p_bits = (if IsValid a \<and> n \<le> BitLen a then Some n else None)\<rparr>"

fun wf_addr :: "Addr \<Rightarrow> bool" where
  "wf_addr NoAddr = True"
| "wf_addr (V4 b) \<longleftrightarrow> length b = 4"
| "wf_addr (V6 b _) \<longleftrightarrow> length b = 16"

lemma AddrFromSlice4 [simp]: "length b = 4 \<Longrightarrow> AddrFromSlice b = V4 b"
  by (simp add: AddrFromSlice_def AddrFrom4_def)

lemma AddrFromSlice16 [simp]: "length b = 16 \<Longrightarrow> AddrFromSlice b = V6 b ''''"
  by (simp add: AddrFromSlice_def AddrFrom16_def)

lemma wf_AddrFromSlice: "wf_addr (AddrFromSlice b)"
  by (simp add: AddrFromSlice_def AddrFrom4_def AddrFrom16_def)

lemma length_As16: "wf_addr a \<Longrightarrow> length (As16 a) = 16"
  by (cases a) simp_all

end
