(* ===== verification/Prefixes.thy ===== *)
theory Prefixes
  imports Errors Netip
begin

text \<open>
  The prefix decoders of \<open>src/update.go\<close>: one prefix, lists of prefixes with and without
  ADD-PATH identifiers, and the IPv6 next hops of MP_REACH_NLRI. The theory shows that the
  list decoders accept exactly the concatenations of prefix encodings, return the prefixes
  encoded, and never fault.
\<close>

definition fmt_bool :: "bool \<Rightarrow> string" where
  "fmt_bool b = (if b then ''true'' else ''false'')"

definition decodePrefix :: "bytes \<Rightarrow> bool \<Rightarrow> (Prefix \<times> bytes) ret" where
  "decodePrefix b ipv6 =
     (if length b < 1 then fail (PlainErr ''prefix must be at least 1 byte'')
      else
        go_bind (go_index b 0) (\<lambda>bl.
        if (\<not> ipv6 \<and> bl > 32) \<or> (ipv6 \<and> bl > 128)
        then fail (PlainErr (''invalid bit len: '' @ fmt_d (unat bl) @ '' ipv6: '' @ fmt_bool ipv6))
        else
          go_bind (go_slice_from b 1) (\<lambda>b.
          let octets = (bl + 7) div 8 in
          if length b < unat octets
          then fail (PlainErr (''invalid octets: '' @ fmt_d (unat octets) @ '' for bit len: '' @
                 fmt_d (unat bl) @ '' ipv6: '' @ fmt_bool ipv6))
          else if ipv6
          then if octets > 16 then fail (PlainErr ''octets > 16 for IPv6 prefix'')
               else go_bind (go_slice b 0 (unat octets)) (\<lambda>p.
                    go_bind (go_slice_from b (unat octets)) (\<lambda>r.
                    ok (PrefixFrom (AddrFrom16 (go_copy_at (replicate 16 0) 0 p)) (unat bl), r)))
          else if octets > 4 then fail (PlainErr ''octets > 4 for IPv4 prefix'')
               else go_bind (go_slice b 0 (unat octets)) (\<lambda>p.
                    go_bind (go_slice_from b (unat octets)) (\<lambda>r.
                    ok (PrefixFrom (AddrFrom4 (go_copy_at (replicate 4 0) 0 p)) (unat bl), r))))))"

lemma decodePrefix_shrinks: "decodePrefix b ipv6 = ok (p, r) \<Longrightarrow> length r < length b"
  by (auto simp: decodePrefix_def go_iffs go_slice_from_Val_iff Let_def split: if_splits)

function decodePrefixes_loop :: "bool \<Rightarrow> bytes \<Rightarrow> Prefix list \<Rightarrow> (Prefix list) ret" where
  "decodePrefixes_loop ipv6 b prefixes =
     (if b = [] then ok prefixes
      else try_bind (decodePrefix b ipv6) (\<lambda>(p, b'). decodePrefixes_loop ipv6 b' (prefixes @ [p])))"
  by pat_completeness auto
termination
  by (relation "measure (\<lambda>(v6, b, ps). length b)") (auto dest: decodePrefix_shrinks)

declare decodePrefixes_loop.simps [simp del]

definition decodePrefixes :: "bytes \<Rightarrow> bool \<Rightarrow> (Prefix list) ret" where
  "decodePrefixes b ipv6 = (if length b < 1 then ok [] else decodePrefixes_loop ipv6 b [])"

record AddPathPrefix =
  ap_Prefix :: Prefix
  ap_ID :: u32

text \<open>The body of the loop of \<open>decodeAddPathPrefixes\<close>.\<close>

definition addPathPrefix_item :: "bool \<Rightarrow> bytes \<Rightarrow> (AddPathPrefix \<times> bytes) ret" where
  "addPathPrefix_item ipv6 b =
     (if length b < 5
      then fail (PlainErr (''invalid octets: '' @ fmt_d (length b) @ '' for add path prefix ipv6: '' @
             fmt_bool ipv6))
      else
        go_bind (Uint32 b) (\<lambda>ident.
        go_bind (go_slice_from b 4) (\<lambda>b.
        try_bind (decodePrefix b ipv6) (\<lambda>(p, b').
        ok (\<lparr>ap_Prefix = p, ap_ID = ident\<rparr>, b')))))"

lemma addPathPrefix_item_shrinks: "addPathPrefix_item ipv6 b = ok (a, r) \<Longrightarrow> length r < length b"
  by (auto simp: addPathPrefix_item_def go_iffs go_slice_from_Val_iff split: if_splits
      dest!: decodePrefix_shrinks)

function decodeAddPathPrefixes_loop ::
    "bool \<Rightarrow> bytes \<Rightarrow> AddPathPrefix list \<Rightarrow> (AddPathPrefix list) ret" where
  "decodeAddPathPrefixes_loop ipv6 b prefixes =
     (if b = [] then ok prefixes
      else try_bind (addPathPrefix_item ipv6 b) (\<lambda>(a, b').
             decodeAddPathPrefixes_loop ipv6 b' (prefixes @ [a])))"
  by pat_completeness auto
termination
  by (relation "measure (\<lambda>(v6, b, ps). length b)") (auto dest: addPathPrefix_item_shrinks)

declare decodeAddPathPrefixes_loop.simps [simp del]

definition decodeAddPathPrefixes :: "bytes \<Rightarrow> bool \<Rightarrow> (AddPathPrefix list) ret" where
  "decodeAddPathPrefixes b ipv6 =
     (if length b < 1 then ok [] else decodeAddPathPrefixes_loop ipv6 b [])"

text \<open>Both multiprotocol wrappers replace any error by a bare UPDATE Message Error.\<close>

definition DecodeMPIPv6Prefixes :: "bytes \<Rightarrow> (Prefix list) ret" where
  "DecodeMPIPv6Prefixes b =
     go_bind (decodePrefixes b True) (\<lambda>r.
       case r of Inl _ \<Rightarrow> fail (NotificationErr updateMessageErr) | Inr prefixes \<Rightarrow> ok prefixes)"

definition DecodeMPIPv6AddPathPrefixes :: "bytes \<Rightarrow> (AddPathPrefix list) ret" where
  "DecodeMPIPv6AddPathPrefixes b =
     go_bind (decodeAddPathPrefixes b True) (\<lambda>r.
       case r of Inl _ \<Rightarrow> fail (NotificationErr updateMessageErr) | Inr prefixes \<Rightarrow> ok prefixes)"

text \<open>\<open>for len(b) > 0 { addr := b[:n]; b = b[n:] }\<close>, for IPv6 next hops and cluster lists.\<close>

definition addr_item :: "nat \<Rightarrow> bytes \<Rightarrow> (Addr \<times> bytes) ret" where
  "addr_item n b =
     go_bind (go_slice b 0 n) (\<lambda>s.
     go_bind (go_slice_from b n) (\<lambda>b'.
     ok (AddrFromSlice s, b')))"

lemma addr_item_shrinks: "0 < n \<Longrightarrow> addr_item n b = ok (a, r) \<Longrightarrow> length r < length b"
  by (auto simp: addr_item_def go_iffs go_slice_Val_iff go_slice_from_Val_iff)

function nextHops_loop :: "bytes \<Rightarrow> Addr list \<Rightarrow> (Addr list) ret" where
  "nextHops_loop nh nhs =
     (if nh = [] then ok nhs
      else try_bind (addr_item 16 nh) (\<lambda>(a, nh'). nextHops_loop nh' (nhs @ [a])))"
  by pat_completeness auto
termination
  by (relation "measure (\<lambda>(b, as). length b)") (auto dest: addr_item_shrinks [rotated])

declare nextHops_loop.simps [simp del]

definition DecodeMPReachIPv6NextHops :: "bytes \<Rightarrow> (Addr list) ret" where
  "DecodeMPReachIPv6NextHops nh =
     (if length nh \<noteq> 16 \<and> length nh \<noteq> 32 then fail (NotificationErr updateMessageErr)
      else nextHops_loop nh [])"

section \<open>What a prefix encoding is\<close>

definition octets_of :: "nat \<Rightarrow> nat" where
  "octets_of n = (n + 7) div 8"

definition addr_size :: "bool \<Rightarrow> nat" where
  "addr_size ipv6 = (if ipv6 then 16 else 4)"

definition mk_addr :: "bool \<Rightarrow> bytes \<Rightarrow> Addr" where
  "mk_addr ipv6 b = (if ipv6 then AddrFrom16 b else AddrFrom4 b)"

text \<open>
  A prefix the decoder can return: an address of the family whose octets after the prefix
  length are zero (the bits that pad the last octet are kept as they came).
\<close>

definition wf_prefix :: "bool \<Rightarrow> Prefix \<Rightarrow> bool" where
  "wf_prefix ipv6 p \<longleftrightarrow>
     (\<exists>n b. p = PrefixFrom (mk_addr ipv6 b) n \<and> n \<le> 8 * addr_size ipv6 \<and>
        length b = addr_size ipv6 \<and>
        drop (octets_of n) b = replicate (addr_size ipv6 - octets_of n) 0)"

definition prefix_bytes :: "Prefix \<Rightarrow> bytes" where
  "prefix_bytes p =
     (case p_bits p of
        None \<Rightarrow> []
      | Some n \<Rightarrow> of_nat n # take (octets_of n) (AsSlice (p_addr p)))"

definition wf_addPathPrefix :: "bool \<Rightarrow> AddPathPrefix \<Rightarrow> bool" where
  "wf_addPathPrefix ipv6 a \<longleftrightarrow> wf_prefix ipv6 (ap_Prefix a)"

definition addPathPrefix_bytes :: "AddPathPrefix \<Rightarrow> bytes" where
  "addPathPrefix_bytes a = PutUint32 (ap_ID a) @ prefix_bytes (ap_Prefix a)"

section \<open>The prefix codec\<close>

lemma octets_u8: "unat bl \<le> 128 \<Longrightarrow> unat ((bl + 7) div 8 :: u8) = octets_of (unat bl)"
  by (simp add: octets_of_def unat_div unat_word_ariths)

lemma octets_le: "n \<le> 8 * k \<Longrightarrow> octets_of n \<le> k"
  by (simp add: octets_of_def)

lemma u8_le_num: "(bl :: u8) > 32 \<longleftrightarrow> unat bl > 32" "(bl :: u8) > 128 \<longleftrightarrow> unat bl > 128"
  "(bl :: u8) > 16 \<longleftrightarrow> unat bl > 16" "(bl :: u8) > 4 \<longleftrightarrow> unat bl > 4"
  by (simp_all add: word_less_nat_alt)

text \<open>The bit length is too large, or there are too few octets, or the prefix is returned.\<close>

lemma decodePrefix_Cons:
  "decodePrefix (bl # b) ipv6 =
     (if unat bl > 8 * addr_size ipv6
      then fail (PlainErr (''invalid bit len: '' @ fmt_d (unat bl) @ '' ipv6: '' @ fmt_bool ipv6))
      else if length b < octets_of (unat bl)
      then fail (PlainErr (''invalid octets: '' @ fmt_d (octets_of (unat bl)) @ '' for bit len: '' @
             fmt_d (unat bl) @ '' ipv6: '' @ fmt_bool ipv6))
      else ok (PrefixFrom (mk_addr ipv6 (go_copy_at (replicate (addr_size ipv6) 0) 0
                 (take (octets_of (unat bl)) b))) (unat bl), drop (octets_of (unat bl)) b))"
proof (cases "unat bl > 8 * addr_size ipv6")
  case True
  then show ?thesis by (cases ipv6) (simp_all add: decodePrefix_def addr_size_def u8_le_num)
next
  case False
  then have oct: "unat ((bl + 7) div 8) = octets_of (unat bl)"
    by (intro octets_u8) (simp add: addr_size_def split: if_splits)
  have "octets_of (unat bl) \<le> addr_size ipv6"
    using False by (intro octets_le) simp
  with False oct show ?thesis
    by (cases ipv6)
       (simp_all add: decodePrefix_def addr_size_def mk_addr_def u8_le_num Let_def)
qed

lemma AsSlice_mk_addr: "AsSlice (p_addr (PrefixFrom (mk_addr ipv6 b) n)) = b"
  by (simp add: PrefixFrom_def mk_addr_def AddrFrom16_def AddrFrom4_def)

lemma p_bits_mk: "n \<le> 8 * addr_size ipv6 \<Longrightarrow> p_bits (PrefixFrom (mk_addr ipv6 b) n) = Some n"
  by (simp add: PrefixFrom_def mk_addr_def AddrFrom16_def AddrFrom4_def addr_size_def split: if_splits)

lemma pad_take:
  assumes "length b = k" "drop j b = replicate (k - j) 0" "j \<le> k"
  shows "go_copy_at (replicate k 0) 0 (take j b) = b"
  using assms append_take_drop_id [of j b] by (simp add: go_copy_at_def)

interpretation prefixCodec: item_loop "\<lambda>b. decodePrefix b ipv6" prefix_bytes "wf_prefix ipv6"
  "decodePrefixes_loop ipv6" for ipv6
proof unfold_locales
  fix p r assume "wf_prefix ipv6 p"
  then obtain n b where p: "p = PrefixFrom (mk_addr ipv6 b) n" and n: "n \<le> 8 * addr_size ipv6"
    and b: "length b = addr_size ipv6"
    "drop (octets_of n) b = replicate (addr_size ipv6 - octets_of n) 0"
    by (auto simp: wf_prefix_def)
  have oct: "octets_of n \<le> addr_size ipv6" using n by (rule octets_le)
  have un: "unat (of_nat n :: u8) = n"
    using n by (intro unat_u8_of_nat) (simp add: addr_size_def split: if_splits)
  have "prefix_bytes p = of_nat n # take (octets_of n) b"
    by (simp add: p prefix_bytes_def p_bits_mk [OF n] AsSlice_mk_addr)
  then show "decodePrefix (prefix_bytes p @ r) ipv6 = ok (p, r)"
    using n oct b pad_take [OF b oct] by (simp add: decodePrefix_Cons un p)
next
  fix b p r assume *: "decodePrefix b ipv6 = ok (p, r)"
  then obtain bl b' where b: "b = bl # b'" by (cases b) (auto simp: decodePrefix_def)
  let ?n = "unat bl" and ?k = "addr_size ipv6"
  let ?a = "go_copy_at (replicate ?k 0) 0 (take (octets_of ?n) b')"
  from * have n: "?n \<le> 8 * ?k" and len: "octets_of ?n \<le> length b'"
    and p: "p = PrefixFrom (mk_addr ipv6 ?a) ?n" and r: "r = drop (octets_of ?n) b'"
    by (auto simp: b decodePrefix_Cons split: if_splits)
  have oct: "octets_of ?n \<le> ?k" using n by (rule octets_le)
  have a: "?a = take (octets_of ?n) b' @ replicate (?k - octets_of ?n) 0"
    using len oct by (simp add: go_copy_at_def min_def)
  have "wf_prefix ipv6 p"
    unfolding wf_prefix_def using p n len oct a by (intro exI [of _ ?n] exI [of _ ?a]) simp
  moreover have "prefix_bytes p = bl # take (octets_of ?n) b'"
    using len by (simp add: p prefix_bytes_def p_bits_mk [OF n] AsSlice_mk_addr a)
  ultimately show "wf_prefix ipv6 p \<and> b = prefix_bytes p @ r"
    by (simp add: b r)
next
  fix p assume "wf_prefix ipv6 p"
  then show "prefix_bytes p \<noteq> []"
    by (auto simp: wf_prefix_def prefix_bytes_def p_bits_mk)
qed (simp_all add: decodePrefixes_loop.simps)

lemma decodePrefix_total: "decodePrefix b ipv6 \<noteq> Fault f"
  by (cases b) (simp_all add: decodePrefix_Cons, simp add: decodePrefix_def)

lemma decodePrefixes_iff:
  "decodePrefixes b ipv6 = ok ps \<longleftrightarrow>
     list_all (wf_prefix ipv6) ps \<and> b = concat (map prefix_bytes ps)"
  using prefixCodec.loop_iff [of ipv6 b ps]
  by (cases b) (simp_all add: decodePrefixes_def decodePrefixes_loop.simps [of ipv6 "[]"])

lemma decodePrefixes_total: "decodePrefixes b ipv6 \<noteq> Fault f"
  using prefixCodec.loop_no_fault [OF decodePrefix_total] by (simp add: decodePrefixes_def)

section \<open>The ADD-PATH prefix codec\<close>

interpretation addPathPrefixCodec: item_loop "addPathPrefix_item ipv6" addPathPrefix_bytes
  "wf_addPathPrefix ipv6" "decodeAddPathPrefixes_loop ipv6" for ipv6
proof unfold_locales
  fix a r assume wf: "wf_addPathPrefix ipv6 a"
  then have "prefix_bytes (ap_Prefix a) \<noteq> []"
    by (intro prefixCodec.enc_nonempty [of ipv6]) (simp add: wf_addPathPrefix_def)
  then have "\<not> length (addPathPrefix_bytes a @ r) < 5"
    by (cases "prefix_bytes (ap_Prefix a)") (simp_all add: addPathPrefix_bytes_def)
  moreover have "drop 4 (PutUint32 i @ xs) = xs" for i xs by simp
  ultimately show "addPathPrefix_item ipv6 (addPathPrefix_bytes a @ r) = ok (a, r)"
    using wf by (simp add: addPathPrefix_item_def addPathPrefix_bytes_def wf_addPathPrefix_def
        prefixCodec.item_enc)
next
  fix b a r assume *: "addPathPrefix_item ipv6 b = ok (a, r)"
  then have "5 \<le> length b" by (simp add: addPathPrefix_item_def split: if_splits)
  then obtain b0 b1 b2 b3 b' where b: "b = b0 # b1 # b2 # b3 # b'"
    by (auto simp: Suc_le_length_iff eval_nat_numeral)
  from * obtain p where p: "decodePrefix b' ipv6 = ok (p, r)"
    and a: "a = \<lparr>ap_Prefix = p, ap_ID = u32_of b0 b1 b2 b3\<rparr>"
    by (auto simp: b addPathPrefix_item_def try_bind_ok_iff split: if_splits)
  show "wf_addPathPrefix ipv6 a \<and> b = addPathPrefix_bytes a @ r"
    using prefixCodec.item_sound [OF p]
    by (simp add: a b wf_addPathPrefix_def addPathPrefix_bytes_def)
qed (simp_all add: addPathPrefix_bytes_def PutUint32_def decodeAddPathPrefixes_loop.simps)

lemma addPathPrefix_item_total: "addPathPrefix_item ipv6 b \<noteq> Fault f"
  using decodePrefix_total [of "drop 4 b" ipv6 f]
  by (auto simp: addPathPrefix_item_def Uint32_in try_bind_Fault_iff)

lemma decodeAddPathPrefixes_iff:
  "decodeAddPathPrefixes b ipv6 = ok as \<longleftrightarrow>
     list_all (wf_addPathPrefix ipv6) as \<and> b = concat (map addPathPrefix_bytes as)"
  using addPathPrefixCodec.loop_iff [of ipv6 b as]
  by (cases b)
     (simp_all add: decodeAddPathPrefixes_def decodeAddPathPrefixes_loop.simps [of ipv6 "[]"])

lemma decodeAddPathPrefixes_total: "decodeAddPathPrefixes b ipv6 \<noteq> Fault f"
  using addPathPrefixCodec.loop_no_fault [OF addPathPrefix_item_total]
  by (simp add: decodeAddPathPrefixes_def)

section \<open>Lists of addresses\<close>

definition wf_addr_of :: "nat \<Rightarrow> Addr \<Rightarrow> bool" where
  "wf_addr_of n a \<longleftrightarrow> length (AsSlice a) = n \<and> a = AddrFromSlice (AsSlice a)"

lemma addr_item_enc: "wf_addr_of n a \<Longrightarrow> addr_item n (AsSlice a @ r) = ok (a, r)"
  by (simp add: addr_item_def wf_addr_of_def)

lemma addr_item_sound:
  assumes "n = 4 \<or> n = 16" "addr_item n b = ok (a, r)"
  shows "wf_addr_of n a \<and> b = AsSlice a @ r"
proof -
  from assms(2) have len: "n \<le> length b" and a: "a = AddrFromSlice (take n b)" and r: "r = drop n b"
    by (auto simp: addr_item_def go_iffs go_slice_Val_iff go_slice_from_Val_iff)
  from len assms(1) have "AsSlice a = take n b" by (auto simp: a)
  with len show ?thesis by (simp add: wf_addr_of_def a r)
qed

interpretation nextHopCodec: item_loop "addr_item 16" AsSlice "wf_addr_of 16" nextHops_loop
  by unfold_locales
     (auto simp: addr_item_enc nextHops_loop.simps wf_addr_of_def dest: addr_item_sound [rotated])

lemma DecodeMPReachIPv6NextHops_iff:
  "DecodeMPReachIPv6NextHops nh = ok as \<longleftrightarrow>
     length as \<in> {1, 2} \<and> list_all (wf_addr_of 16) as \<and> nh = concat (map AsSlice as)"
proof -
  have "length (concat (map AsSlice as)) = 16 * length as" if "list_all (wf_addr_of 16) as"
    using that by (induction as) (simp_all add: wf_addr_of_def)
  then show ?thesis
    by (auto simp: DecodeMPReachIPv6NextHops_def nextHopCodec.loop_iff split: if_splits)
qed

lemma DecodeMPReachIPv6NextHops_Ex:
  assumes "length nh = 16 \<or> length nh = 32"
  shows "\<exists>as. DecodeMPReachIPv6NextHops nh = ok as"
  using assms
proof
  assume len: "length nh = 16"
  then show ?thesis
    by (intro exI [of _ "[AddrFromSlice nh]"])
       (simp add: DecodeMPReachIPv6NextHops_iff wf_addr_of_def)
next
  assume len: "length nh = 32"
  then show ?thesis
    by (intro exI [of _ "[AddrFromSlice (take 16 nh), AddrFromSlice (drop 16 nh)]"])
       (simp add: DecodeMPReachIPv6NextHops_iff wf_addr_of_def)
qed

lemma DecodeMPReachIPv6NextHops_total: "DecodeMPReachIPv6NextHops nh \<noteq> Fault f"
  using DecodeMPReachIPv6NextHops_Ex [of nh]
  by (cases "length nh = 16 \<or> length nh = 32") (auto simp: DecodeMPReachIPv6NextHops_def)

lemma DecodeMPReachIPv6NextHops_fail:
  "DecodeMPReachIPv6NextHops nh = fail e \<longleftrightarrow>
     length nh \<notin> {16, 32} \<and> e = NotificationErr updateMessageErr"
  using DecodeMPReachIPv6NextHops_Ex [of nh]
  by (cases "length nh = 16 \<or> length nh = 32") (auto simp: DecodeMPReachIPv6NextHops_def)

lemma DecodeMPIPv6Prefixes_iff:
  "DecodeMPIPv6Prefixes b = ok ps \<longleftrightarrow> decodePrefixes b True = ok ps"
  by (cases "decodePrefixes b True" rule: go_sum_cases) (simp_all add: DecodeMPIPv6Prefixes_def)

lemma DecodeMPIPv6AddPathPrefixes_iff:
  "DecodeMPIPv6AddPathPrefixes b = ok ps \<longleftrightarrow> decodeAddPathPrefixes b True = ok ps"
  by (cases "decodeAddPathPrefixes b True" rule: go_sum_cases)
     (simp_all add: DecodeMPIPv6AddPathPrefixes_def)

section \<open>Properties\<close>

text \<open>
  C19. For either address family \<open>decodePrefixes\<close> never faults, and it succeeds exactly on a
  concatenation of prefix encodings, returning the prefixes in order: the bit length fits the
  family, the address is the given octets followed by zeroes, and the octet count computed in
  \<open>uint8\<close> is the rounded-up quotient.
\<close>

theorem decode_prefixes_iff:
  "decodePrefixes b ipv6 \<noteq> Fault f \<and>
   (decodePrefixes b ipv6 = ok ps \<longleftrightarrow>
      list_all (wf_prefix ipv6) ps \<and> b = concat (map prefix_bytes ps))"
  using decodePrefixes_total decodePrefixes_iff by blast

text \<open>
  C29. The same for ADD-PATH prefixes, each preceded by its four-octet path identifier.
\<close>

theorem decode_add_path_prefixes_iff:
  "decodeAddPathPrefixes b ipv6 \<noteq> Fault f \<and>
   (decodeAddPathPrefixes b ipv6 = ok ps \<longleftrightarrow>
      list_all (wf_addPathPrefix ipv6) ps \<and> b = concat (map addPathPrefix_bytes ps))"
  using decodeAddPathPrefixes_total decodeAddPathPrefixes_iff by blast

text \<open>
  The IPv6 next hops of an MP_REACH_NLRI attribute decode without fault to one or two
  sixteen-octet addresses whose concatenation is the field, and a field of any other length than
  16 or 32 is answered by a session reset.
\<close>

theorem ipv6_next_hops_iff:
  "DecodeMPReachIPv6NextHops nh \<noteq> Fault f \<and>
   (DecodeMPReachIPv6NextHops nh = ok as \<longleftrightarrow>
      length as \<in> {1, 2} \<and> list_all (wf_addr_of 16) as \<and> nh = concat (map AsSlice as)) \<and>
   (DecodeMPReachIPv6NextHops nh = fail e \<longleftrightarrow>
      length nh \<notin> {16, 32} \<and> e = NotificationErr updateMessageErr)"
  using DecodeMPReachIPv6NextHops_total DecodeMPReachIPv6NextHops_iff DecodeMPReachIPv6NextHops_fail
  by blast

end
