(* ===== verification/PathAttrs.thy ===== *)
theory PathAttrs
  imports Prefixes
begin

text \<open>
  Path attribute flags and the decoders of the individual path attributes, from
  \<open>src/update.go\<close>. A decoder that only writes its receiver on success is a function to a
  result; \<open>ASPathAttr.Decode\<close> writes its receiver segment by segment and is a function from
  the receiver to the receiver and an error.
\<close>

section \<open>Flags\<close>

type_synonym PathAttrFlags = u8

definition Optional :: "PathAttrFlags \<Rightarrow> bool" where
  "Optional p \<longleftrightarrow> push_bit 7 1 AND p \<noteq> 0"

definition Transitive :: "PathAttrFlags \<Rightarrow> bool" where
  "Transitive p \<longleftrightarrow> push_bit 6 1 AND p \<noteq> 0"

definition Partial :: "PathAttrFlags \<Rightarrow> bool" where
  "Partial p \<longleftrightarrow> push_bit 5 1 AND p \<noteq> 0"

definition ExtendedLen :: "PathAttrFlags \<Rightarrow> bool" where
  "ExtendedLen p \<longleftrightarrow> push_bit 4 1 AND p \<noteq> 0"

definition notifDataForAttrBasedErr :: "u8 \<Rightarrow> bytes \<Rightarrow> bytes" where
  "notifDataForAttrBasedErr code attrData =
     code # (if length attrData > 255 then PutUint16 (of_nat (length attrData))
             else [of_nat (length attrData)]) @ attrData"

definition attrLenBadForCodeErr :: "u8 \<Rightarrow> bytes \<Rightarrow> Notification" where
  "attrLenBadForCodeErr code attrData =
     \<lparr>Code = NOTIF_CODE_UPDATE_MESSAGE_ERR, Subcode = NOTIF_SUBCODE_ATTR_LEN_ERR,
      Data = notifDataForAttrBasedErr code attrData\<rparr>"

definition flags_Validate :: "PathAttrFlags \<Rightarrow> u8 \<Rightarrow> bytes \<Rightarrow> bool \<Rightarrow> bool \<Rightarrow> error option" where
  "flags_Validate p forCode attrData wantOptional wantTransitive =
     (if Optional p \<noteq> wantOptional \<or> Transitive p \<noteq> wantTransitive
      then Some (TreatAsWithdrawUpdateErr forCode (Some
             \<lparr>Code = NOTIF_CODE_UPDATE_MESSAGE_ERR, Subcode = NOTIF_SUBCODE_ATTR_FLAGS_ERR,
              Data = notifDataForAttrBasedErr forCode attrData\<rparr>))
      else None)"

text \<open>\<open>err := flags.Validate(...); if err != nil { return err }\<close>\<close>

definition with_flags ::
    "PathAttrFlags \<Rightarrow> u8 \<Rightarrow> bytes \<Rightarrow> bool \<Rightarrow> bool \<Rightarrow> 'a ret \<Rightarrow> 'a ret" where
  "with_flags p forCode attrData wantOptional wantTransitive k =
     (case flags_Validate p forCode attrData wantOptional wantTransitive of
        Some err \<Rightarrow> fail err
      | None \<Rightarrow> k)"

definition lenErr_taw :: "u8 \<Rightarrow> bytes \<Rightarrow> error" where
  "lenErr_taw code b = TreatAsWithdrawUpdateErr code (Some (attrLenBadForCodeErr code b))"

definition lenErr_ad :: "u8 \<Rightarrow> bytes \<Rightarrow> error" where
  "lenErr_ad code b = AttrDiscardUpdateErr code (Some (attrLenBadForCodeErr code b))"

section \<open>Attributes of fixed length\<close>

definition OriginPathAttr_Decode :: "PathAttrFlags \<Rightarrow> bytes \<Rightarrow> u8 ret" where
  "OriginPathAttr_Decode flags b =
     with_flags flags PATH_ATTR_ORIGIN b False True
       (go_bind (if length b \<noteq> 1 then Val True else go_bind (go_index b 0) (\<lambda>o'. Val (o' > 2)))
          (\<lambda>malformed.
        if malformed
        then fail (TreatAsWithdrawUpdateErr PATH_ATTR_ORIGIN (Some
               \<lparr>Code = NOTIF_CODE_UPDATE_MESSAGE_ERR,
                Subcode = (if length b \<noteq> 1 then NOTIF_SUBCODE_ATTR_LEN_ERR
                           else NOTIF_SUBCODE_INVALID_ORIGIN_ATTR),
                Data = notifDataForAttrBasedErr PATH_ATTR_ORIGIN b\<rparr>))
        else go_bind (go_index b 0) (\<lambda>o'. ok o')))"

definition NextHopPathAttr_Decode :: "PathAttrFlags \<Rightarrow> bytes \<Rightarrow> Addr ret" where
  "NextHopPathAttr_Decode flags b =
     with_flags flags PATH_ATTR_NEXT_HOP b False True
       (if length b \<noteq> 4 then fail (lenErr_taw PATH_ATTR_NEXT_HOP b) else ok (AddrFromSlice b))"

definition MEDPathAttr_Decode :: "PathAttrFlags \<Rightarrow> bytes \<Rightarrow> u32 ret" where
  "MEDPathAttr_Decode flags b =
     with_flags flags PATH_ATTR_MED b True False
       (if length b \<noteq> 4 then fail (lenErr_taw PATH_ATTR_MED b)
        else go_bind (Uint32 b) (\<lambda>v. ok v))"

definition LocalPrefPathAttr_Decode :: "PathAttrFlags \<Rightarrow> bytes \<Rightarrow> u32 ret" where
  "LocalPrefPathAttr_Decode flags b =
     with_flags flags PATH_ATTR_LOCAL_PREF b False True
       (if length b \<noteq> 4 then fail (lenErr_taw PATH_ATTR_LOCAL_PREF b)
        else go_bind (Uint32 b) (\<lambda>v. ok v))"

definition AtomicAggregatePathAttr_Decode :: "PathAttrFlags \<Rightarrow> bytes \<Rightarrow> bool ret" where
  "AtomicAggregatePathAttr_Decode flags b =
     with_flags flags PATH_ATTR_ATOMIC_AGGREGATE b True True
       (if length b \<noteq> 0 then fail (lenErr_ad PATH_ATTR_ATOMIC_AGGREGATE b) else ok True)"

record AggregatorPathAttr =
  agg_AS :: u32
  agg_IP :: Addr

definition AggregatorPathAttr_Decode :: "PathAttrFlags \<Rightarrow> bytes \<Rightarrow> AggregatorPathAttr ret" where
  "AggregatorPathAttr_Decode flags b =
     with_flags flags PATH_ATTR_AGGREGATOR b True True
       (if length b \<noteq> 8 then fail (lenErr_ad PATH_ATTR_AGGREGATOR b)
        else go_bind (Uint32 b) (\<lambda>v. go_bind (go_slice_from b 4) (\<lambda>ip.
             ok \<lparr>agg_AS = v, agg_IP = AddrFromSlice ip\<rparr>)))"

definition OriginatorIDPathAttr_Decode :: "PathAttrFlags \<Rightarrow> bytes \<Rightarrow> Addr ret" where
  "OriginatorIDPathAttr_Decode flags b =
     with_flags flags PATH_ATTR_ORIGINATOR_ID b True False
       (if length b \<noteq> 4 then fail (lenErr_taw PATH_ATTR_ORIGINATOR_ID b) else ok (AddrFromSlice b))"

section \<open>Attributes that are sets\<close>

definition u32_item :: "bytes \<Rightarrow> (u32 \<times> bytes) ret" where
  "u32_item b = go_bind (Uint32 b) (\<lambda>v. go_bind (go_slice_from b 4) (\<lambda>b'. ok (v, b')))"

lemma u32_item_shrinks: "b \<noteq> [] \<Longrightarrow> u32_item b = ok (v, r) \<Longrightarrow> length r < length b"
  by (auto simp: u32_item_def go_iffs go_slice_from_Val_iff)

function uint32Set_loop :: "bytes \<Rightarrow> u32 list \<Rightarrow> (u32 list) ret" where
  "uint32Set_loop b ret =
     (if b = [] then ok ret
      else try_bind (u32_item b) (\<lambda>(v, b'). uint32Set_loop b' (ret @ [v])))"
  by pat_completeness auto
termination
  by (relation "measure (\<lambda>(b, vs). length b)") (auto dest: u32_item_shrinks)

declare uint32Set_loop.simps [simp del]

definition decodeUint32Set :: "bytes \<Rightarrow> (u32 list) ret" where
  "decodeUint32Set b =
     (if length b = 0 \<or> length b mod 4 \<noteq> 0
      then fail (PlainErr (''invalid uint32 set len: '' @ fmt_d (length b)))
      else uint32Set_loop b [])"

definition CommunitiesPathAttr_Decode :: "PathAttrFlags \<Rightarrow> bytes \<Rightarrow> (u32 list) ret" where
  "CommunitiesPathAttr_Decode flags b =
     with_flags flags PATH_ATTR_COMMUNITY b True True
       (if length b < 4 \<or> length b mod 4 \<noteq> 0 then fail (lenErr_taw PATH_ATTR_COMMUNITY b)
        else go_bind (decodeUint32Set b) (\<lambda>s. case s of Inl _ \<Rightarrow> ok [] | Inr vs \<Rightarrow> ok vs))"

function clusterList_loop :: "bytes \<Rightarrow> Addr list \<Rightarrow> (Addr list) ret" where
  "clusterList_loop b addrs =
     (if b = [] then ok addrs
      else try_bind (addr_item 4 b) (\<lambda>(a, b'). clusterList_loop b' (addrs @ [a])))"
  by pat_completeness auto
termination
  by (relation "measure (\<lambda>(b, as). length b)") (auto dest: addr_item_shrinks [rotated])

declare clusterList_loop.simps [simp del]

definition ClusterListPathAttr_Decode :: "PathAttrFlags \<Rightarrow> bytes \<Rightarrow> (Addr list) ret" where
  "ClusterListPathAttr_Decode flags b =
     with_flags flags PATH_ATTR_CLUSTER_LIST b True False
       (if length b < 4 \<or> length b mod 4 \<noteq> 0 then fail (lenErr_taw PATH_ATTR_CLUSTER_LIST b)
        else clusterList_loop b [])"

record LargeCommunity =
  GlobalAdmin :: u32
  LocalData1 :: u32
  LocalData2 :: u32

definition largeCommunity_item :: "bytes \<Rightarrow> (LargeCommunity \<times> bytes) ret" where
  "largeCommunity_item b =
     go_bind (go_bind (go_slice b 0 4) Uint32) (\<lambda>ga.
     go_bind (go_bind (go_slice b 4 8) Uint32) (\<lambda>d1.
     go_bind (go_bind (go_slice b 8 12) Uint32) (\<lambda>d2.
     go_bind (go_slice_from b 12) (\<lambda>b'.
     ok (\<lparr>GlobalAdmin = ga, LocalData1 = d1, LocalData2 = d2\<rparr>, b')))))"

lemma largeCommunity_item_shrinks:
  "12 \<le> length b \<Longrightarrow> largeCommunity_item b = ok (v, r) \<Longrightarrow> length r < length b"
  by (auto simp: largeCommunity_item_def go_iffs go_slice_from_Val_iff)

function largeCommunitySet_loop :: "bytes \<Rightarrow> LargeCommunity list \<Rightarrow> (LargeCommunity list) ret" where
  "largeCommunitySet_loop b ret =
     (if length b \<ge> 12
      then try_bind (largeCommunity_item b) (\<lambda>(lc, b'). largeCommunitySet_loop b' (ret @ [lc]))
      else ok ret)"
  by pat_completeness auto
termination
  by (relation "measure (\<lambda>(b, lcs). length b)") (auto dest: largeCommunity_item_shrinks)

declare largeCommunitySet_loop.simps [simp del]

definition decodeLargeCommunitySet :: "bytes \<Rightarrow> (LargeCommunity list) ret" where
  "decodeLargeCommunitySet b =
     (if length b mod 12 \<noteq> 0
      then fail (PlainErr (''invalid large community set len: '' @ fmt_d (length b)))
      else largeCommunitySet_loop b [])"

definition LargeCommunitiesPathAttr_Decode ::
    "PathAttrFlags \<Rightarrow> bytes \<Rightarrow> (LargeCommunity list) ret" where
  "LargeCommunitiesPathAttr_Decode flags b =
     with_flags flags PATH_ATTR_LARGE_COMMUNITY b True True
       (if length b < 12 \<or> length b mod 12 \<noteq> 0
        then fail (lenErr_taw PATH_ATTR_LARGE_COMMUNITY b)
        else go_bind (decodeLargeCommunitySet b) (\<lambda>s.
          case s of
            Inl _ \<Rightarrow> fail (lenErr_taw PATH_ATTR_LARGE_COMMUNITY b)
          | Inr l \<Rightarrow> ok l))"

section \<open>AS_PATH\<close>

record ASPathAttr =
  ASSet :: "u32 list"
  ASSequence :: "u32 list"

definition asPathMalformedErr :: error where
  "asPathMalformedErr =
     TreatAsWithdrawUpdateErr PATH_ATTR_AS_PATH (Some
       \<lparr>Code = NOTIF_CODE_UPDATE_MESSAGE_ERR, Subcode = NOTIF_SUBCODE_MALFORMED_AS_PATH,
        Data = []\<rparr>)"

text \<open>
  The loop over the segments. The length of a segment in octets is \<open>int(b[1] * 4)\<close>: the
  product is taken in \<open>uint8\<close>. A segment overwrites the set or sequence read before it.
\<close>

function asPath_loop :: "ASPathAttr \<Rightarrow> bytes \<Rightarrow> (ASPathAttr \<times> error option) go" where
  "asPath_loop a b =
     (if b = [] then Val (a, None)
      else if length b < 6 \<or> length b mod 2 \<noteq> 0
      then Val (a, Some (lenErr_taw PATH_ATTR_AS_PATH b))
      else
        go_bind (go_index b 0) (\<lambda>segType.
        go_bind (go_index b 1) (\<lambda>b1.
        let segLen = unat (b1 * 4) in
        if segLen = 0 then Val (a, Some asPathMalformedErr)
        else
          go_bind (go_slice_from b 2) (\<lambda>b2.
          if length b2 < segLen then Val (a, Some asPathMalformedErr)
          else
            go_bind (go_slice b2 0 segLen) (\<lambda>set'.
            go_bind (go_slice_from b2 segLen) (\<lambda>rest.
            if segType = 1
            then go_bind (decodeUint32Set set') (\<lambda>r.
                   case r of
                     Inl _ \<Rightarrow> Val (a\<lparr>ASSet := []\<rparr>, Some asPathMalformedErr)
                   | Inr s \<Rightarrow> asPath_loop (a\<lparr>ASSet := s\<rparr>) rest)
            else if segType = 2
            then go_bind (decodeUint32Set set') (\<lambda>r.
                   case r of
                     Inl _ \<Rightarrow> Val (a\<lparr>ASSequence := []\<rparr>, Some asPathMalformedErr)
                   | Inr s \<Rightarrow> asPath_loop (a\<lparr>ASSequence := s\<rparr>) rest)
            else Val (a, Some asPathMalformedErr)))))))"
  by pat_completeness auto
termination
  by (relation "measure (\<lambda>(a, b). length b)") (auto simp: go_slice_from_Val_iff)

declare asPath_loop.simps [simp del]

definition ASPathAttr_Decode ::
    "ASPathAttr \<Rightarrow> PathAttrFlags \<Rightarrow> bytes \<Rightarrow> (ASPathAttr \<times> error option) go" where
  "ASPathAttr_Decode a flags b =
     (case flags_Validate flags PATH_ATTR_AS_PATH b False True of
        Some err \<Rightarrow> Val (a, Some err)
      | None \<Rightarrow>
          if length b < 6 \<or> length b mod 2 \<noteq> 0
          then Val (a, Some (lenErr_taw PATH_ATTR_AS_PATH b))
          else asPath_loop a b)"

section \<open>Flag lemmas\<close>

lemma flag_bits: "Optional p \<longleftrightarrow> bit p 7" "Transitive p \<longleftrightarrow> bit p 6" "Partial p \<longleftrightarrow> bit p 5"
  "ExtendedLen p \<longleftrightarrow> bit p 4"
  by (simp_all add: Optional_def Transitive_def Partial_def ExtendedLen_def bit_iff_and_push_bit_not_eq_0
      and.commute)

lemma with_flags_ok_iff:
  "with_flags p c d wo wt k = ok x \<longleftrightarrow> Optional p = wo \<and> Transitive p = wt \<and> k = ok x"
  by (auto simp: with_flags_def flags_Validate_def)

lemma with_flags_Fault_iff:
  "with_flags p c d wo wt k = Fault f \<longleftrightarrow> Optional p = wo \<and> Transitive p = wt \<and> k = Fault f"
  by (auto simp: with_flags_def flags_Validate_def)

section \<open>Set codecs\<close>

interpretation u32Codec: item_loop u32_item PutUint32 "\<lambda>_. True" uint32Set_loop
proof unfold_locales
  fix b v r assume *: "u32_item b = ok (v, r)"
  then have "4 \<le> length b" by (auto simp: u32_item_def go_iffs go_slice_from_Val_iff)
  then obtain b0 b1 b2 b3 r' where "b = b0 # b1 # b2 # b3 # r'" by (rule bytes4E)
  with * show "True \<and> b = PutUint32 v @ r" by (auto simp: u32_item_def)
next
  fix v r show "u32_item (PutUint32 v @ r) = ok (v, r)" by (simp add: u32_item_def)
qed (simp_all add: PutUint32_def uint32Set_loop.simps)

lemma length_u32s: "length (concat (map PutUint32 vs)) = 4 * length vs"
  by (induction vs) simp_all

lemma u32s_of_bytes:
  "length b mod 4 = 0 \<Longrightarrow> \<exists>vs. b = concat (map PutUint32 vs)"
proof (induction b rule: length_induct)
  case (1 b)
  show ?case
  proof (cases "b = []")
    case True
    then show ?thesis by (intro exI [of _ "[]"]) simp
  next
    case False
    with "1.prems" have "4 \<le> length b" by (cases "length b < 4") (auto simp: mod_less)
    then obtain b0 b1 b2 b3 r where b: "b = b0 # b1 # b2 # b3 # r" by (rule bytes4E)
    then have "length b = length r + 4" "length r < length b" by simp_all
    with "1.prems" have "\<exists>vs. r = concat (map PutUint32 vs)"
      using "1.IH" by (metis mod_add_self2)
    then obtain vs where "r = concat (map PutUint32 vs)" ..
    with b show ?thesis by (intro exI [of _ "u32_of b0 b1 b2 b3 # vs"]) simp
  qed
qed

lemma decodeUint32Set_ok_iff:
  "decodeUint32Set b = ok vs \<longleftrightarrow> vs \<noteq> [] \<and> b = concat (map PutUint32 vs)"
proof -
  have "list_all (\<lambda>_. True) vs" by (simp add: list_all_iff)
  then show ?thesis
    by (auto simp: decodeUint32Set_def u32Codec.loop_iff length_u32s
        simp flip: length_greater_0_conv)
qed

lemma decodeUint32Set_total:
  assumes "length b mod 4 = 0" "b \<noteq> []"
  shows "\<exists>vs. decodeUint32Set b = ok vs \<and> vs \<noteq> [] \<and> b = concat (map PutUint32 vs)"
proof -
  obtain vs where vs: "b = concat (map PutUint32 vs)" using u32s_of_bytes [OF assms(1)] ..
  with assms(2) have "vs \<noteq> []" by auto
  with vs show ?thesis by (intro exI [of _ vs]) (simp add: decodeUint32Set_ok_iff)
qed

lemma decodeUint32Set_no_fault: "decodeUint32Set b \<noteq> Fault f"
proof (cases "length b = 0 \<or> length b mod 4 \<noteq> 0")
  case False
  then obtain vs where "decodeUint32Set b = ok vs"
    using decodeUint32Set_total [of b] by auto
  then show ?thesis by simp
qed (simp add: decodeUint32Set_def)

interpretation clusterCodec: item_loop "addr_item 4" AsSlice "wf_addr_of 4" clusterList_loop
  by unfold_locales
     (auto simp: addr_item_enc clusterList_loop.simps wf_addr_of_def dest: addr_item_sound [rotated])

lemma length_addrs: "list_all (wf_addr_of n) as \<Longrightarrow> length (concat (map AsSlice as)) = n * length as"
  by (induction as) (simp_all add: wf_addr_of_def)

lemma clusterList_total:
  "length b mod 4 = 0 \<Longrightarrow> \<exists>as. clusterList_loop b [] = ok as"
proof -
  assume "length b mod 4 = 0"
  from u32s_of_bytes [OF this] obtain vs where b: "b = concat (map PutUint32 vs)" ..
  have "list_all (wf_addr_of 4) (map (\<lambda>v. V4 (PutUint32 v)) vs)"
    by (induction vs) (simp_all add: wf_addr_of_def)
  moreover have "b = concat (map AsSlice (map (\<lambda>v. V4 (PutUint32 v)) vs))"
    by (simp add: b comp_def)
  ultimately show ?thesis using clusterCodec.loop_iff by blast
qed

definition largeCommunity_bytes :: "LargeCommunity \<Rightarrow> bytes" where
  "largeCommunity_bytes l =
     PutUint32 (GlobalAdmin l) @ PutUint32 (LocalData1 l) @ PutUint32 (LocalData2 l)"

lemma length_largeCommunity_bytes [simp]: "length (largeCommunity_bytes l) = 12"
  by (simp add: largeCommunity_bytes_def)

lemma length_larges: "length (concat (map largeCommunity_bytes ls)) = 12 * length ls"
  by (induction ls) simp_all

lemma largeCommunity_item_bytes:
  "largeCommunity_item (largeCommunity_bytes l @ r) = ok (l, r)"
  by (simp add: largeCommunity_item_def largeCommunity_bytes_def)

lemma largeCommunitySet_loop_bytes:
  "largeCommunitySet_loop (concat (map largeCommunity_bytes ls)) acc = ok (acc @ ls)"
proof (induction ls arbitrary: acc)
  case Nil
  then show ?case by (simp add: largeCommunitySet_loop.simps)
next
  case (Cons l ls)
  then show ?case
    by (subst largeCommunitySet_loop.simps) (simp add: largeCommunity_item_bytes)
qed

lemma larges_of_bytes:
  "length b mod 12 = 0 \<Longrightarrow> \<exists>ls. b = concat (map largeCommunity_bytes ls)"
proof (induction b rule: length_induct)
  case (1 b)
  show ?case
  proof (cases "b = []")
    case True
    then show ?thesis by (intro exI [of _ "[]"]) simp
  next
    case False
    with "1.prems" have ge: "12 \<le> length b" by (cases "length b < 12") (auto simp: mod_less)
    have "length (take 12 b) mod 4 = 0" using ge by simp
    from u32s_of_bytes [OF this] obtain vs where vs: "take 12 b = concat (map PutUint32 vs)" ..
    have "length (take 12 b) = 4 * length vs" by (simp only: vs length_u32s)
    with ge have "length vs = 3" by simp
    then obtain x y z where "vs = [x, y, z]" by (auto simp: length_Suc_conv eval_nat_numeral)
    with vs have t: "take 12 b = largeCommunity_bytes \<lparr>GlobalAdmin = x, LocalData1 = y, LocalData2 = z\<rparr>"
      by (simp add: largeCommunity_bytes_def)
    have "length (drop 12 b) mod 12 = 0" using "1.prems" ge by (simp add: mod_diff_eq le_mod_geq)
    moreover have "length (drop 12 b) < length b" using ge by simp
    ultimately have "\<exists>ls. drop 12 b = concat (map largeCommunity_bytes ls)"
      using "1.IH" by simp
    then obtain ls where ls: "drop 12 b = concat (map largeCommunity_bytes ls)" ..
    have "b = take 12 b @ drop 12 b" by simp
    also have "\<dots> = concat (map largeCommunity_bytes
        (\<lparr>GlobalAdmin = x, LocalData1 = y, LocalData2 = z\<rparr> # ls))"
      by (simp only: t ls list.map concat.simps)
    finally show ?thesis by (rule exI)
  qed
qed

lemma decodeLargeCommunitySet_total:
  assumes "length b mod 12 = 0"
  shows "\<exists>ls. decodeLargeCommunitySet b = ok ls \<and> b = concat (map largeCommunity_bytes ls)"
  using larges_of_bytes [OF assms] assms
  by (auto simp: decodeLargeCommunitySet_def largeCommunitySet_loop_bytes)

section \<open>AS_PATH segments as the code reads them\<close>

text \<open>
  A segment is a type octet, a count octet and AS numbers. The code takes the count modulo 64,
  because it multiplies it by four in \<open>uint8\<close>.
\<close>

type_synonym segment = "u8 \<times> u8 \<times> u32 list"

fun segment_bytes :: "segment \<Rightarrow> bytes" where
  "segment_bytes (ty, count, as) = ty # count # concat (map PutUint32 as)"

fun read_as_segment :: "segment \<Rightarrow> bool" where
  "read_as_segment (ty, count, as) \<longleftrightarrow> ty \<in> {1, 2} \<and> as \<noteq> [] \<and> length as = unat count mod 64"

fun apply_segment :: "segment \<Rightarrow> ASPathAttr \<Rightarrow> ASPathAttr" where
  "apply_segment (ty, count, as) a = (if ty = 1 then a\<lparr>ASSet := as\<rparr> else a\<lparr>ASSequence := as\<rparr>)"

lemma unat_mult4_u8: "unat (c * 4 :: u8) = 4 * (unat c mod 64)"
  using mod_mult_mult1 [of 4 "unat c" 64] by (simp add: unat_word_ariths mult.commute)

lemma length_segment_bytes: "length (segment_bytes (ty, c, as)) = 2 + 4 * length as"
  by (simp add: length_u32s)

lemma asPath_loop_Cons2:
  assumes "4 \<le> length r" "even (length r)"
  shows "asPath_loop a (ty # c # r) =
    (let n = 4 * (unat c mod 64) in
     if n = 0 \<or> length r < n then Val (a, Some asPathMalformedErr)
     else if ty = 1
     then go_bind (decodeUint32Set (take n r)) (\<lambda>x.
            case x of
              Inl _ \<Rightarrow> Val (a\<lparr>ASSet := []\<rparr>, Some asPathMalformedErr)
            | Inr s \<Rightarrow> asPath_loop (a\<lparr>ASSet := s\<rparr>) (drop n r))
     else if ty = 2
     then go_bind (decodeUint32Set (take n r)) (\<lambda>x.
            case x of
              Inl _ \<Rightarrow> Val (a\<lparr>ASSequence := []\<rparr>, Some asPathMalformedErr)
            | Inr s \<Rightarrow> asPath_loop (a\<lparr>ASSequence := s\<rparr>) (drop n r))
     else Val (a, Some asPathMalformedErr))"
  using assms
  by (subst asPath_loop.simps) (simp add: unat_mult4_u8 Let_def even_iff_mod_2_eq_zero not_less)

lemma asPath_loop_segment:
  assumes "read_as_segment s" "even (length r)"
  shows "asPath_loop a (segment_bytes s @ r) = asPath_loop (apply_segment s a) r"
proof -
  obtain ty c as where s: "s = (ty, c, as)" by (cases s)
  with assms(1) have ty: "ty = 1 \<or> ty = 2" and as: "as \<noteq> []" "length as = unat c mod 64" by auto
  have set': "decodeUint32Set (concat (map PutUint32 as)) = ok as"
    using as by (simp add: decodeUint32Set_ok_iff)
  have cat: "take (4 * length as) (concat (map PutUint32 as) @ r) = concat (map PutUint32 as)"
    "drop (4 * length as) (concat (map PutUint32 as) @ r) = r"
    by (simp_all flip: length_u32s)
  have len: "4 \<le> length (concat (map PutUint32 as) @ r)" "even (length (concat (map PutUint32 as) @ r))"
    using assms(2) as(1) by (cases as, simp_all add: length_u32s)
  show ?thesis
    using ty as(1) unfolding s segment_bytes.simps append_Cons asPath_loop_Cons2 [OF len] Let_def
    by (auto simp: cat set' length_u32s simp flip: as(2))
qed

lemma even_segments: "even (length (concat (map segment_bytes ss)))"
  by (induction ss) (auto simp: length_u32s)

lemma asPath_loop_segments:
  "list_all read_as_segment ss \<Longrightarrow>
     asPath_loop a (concat (map segment_bytes ss)) = Val (fold apply_segment ss a, None)"
proof (induction ss arbitrary: a)
  case Nil
  then show ?case by (simp add: asPath_loop.simps)
next
  case (Cons s ss)
  then show ?case using asPath_loop_segment [of s "concat (map segment_bytes ss)" a] even_segments
    by simp
qed

lemma asPath_loop_cases:
  assumes "b \<noteq> []"
  obtains (err) a' e where "asPath_loop a b = Val (a', Some e)"
      and "\<exists>n. e = TreatAsWithdrawUpdateErr PATH_ATTR_AS_PATH (Some n) \<and>
             Code n = NOTIF_CODE_UPDATE_MESSAGE_ERR"
    | (seg) s r where "b = segment_bytes s @ r" "read_as_segment s"
      "asPath_loop a b = asPath_loop (apply_segment s a) r"
proof -
  consider (short) "length b < 6 \<or> length b mod 2 \<noteq> 0"
    | (long) "6 \<le> length b" "even (length b)"
    unfolding even_iff_mod_2_eq_zero by fastforce
  then show thesis
  proof cases
    case short
    with assms show thesis
      by (intro err [of a "lenErr_taw PATH_ATTR_AS_PATH b"])
         (auto simp: asPath_loop.simps [of a b] lenErr_taw_def attrLenBadForCodeErr_def)
  next
    case long
    then obtain ty c r where b: "b = ty # c # r"
      by (auto simp: Suc_le_length_iff eval_nat_numeral)
    with long have r: "4 \<le> length r" "even (length r)" by simp_all
    let ?n = "unat c mod 64"
    have malformed: "\<exists>n. asPathMalformedErr = TreatAsWithdrawUpdateErr PATH_ATTR_AS_PATH (Some n) \<and>
        Code n = NOTIF_CODE_UPDATE_MESSAGE_ERR"
      by (simp add: asPathMalformedErr_def)
    show thesis
    proof (cases "?n = 0 \<or> length r < 4 * ?n \<or> ty \<notin> {1, 2}")
      case True
      then have "asPath_loop a b = Val (a, Some asPathMalformedErr)"
        unfolding b asPath_loop_Cons2 [OF r] Let_def by auto
      then show thesis using malformed by (rule err)
    next
      case False
      then have tl: "length (take (4 * ?n) r) = 4 * ?n" and n0: "0 < ?n" by simp_all
      from tl n0 have "take (4 * ?n) r \<noteq> []" by (metis length_0_conv mult_is_0 neq0_conv zero_neq_numeral)
      moreover have "length (take (4 * ?n) r) mod 4 = 0" unfolding tl by (rule mod_mult_self1_is_0)
      ultimately obtain as where as: "as \<noteq> []" "take (4 * ?n) r = concat (map PutUint32 as)"
        using decodeUint32Set_total [of "take (4 * ?n) r"] by metis
      from tl have n: "length as = ?n" unfolding as(2) length_u32s by simp
      have bs: "b = segment_bytes (ty, c, as) @ drop (4 * ?n) r"
        using append_take_drop_id [of "4 * ?n" r] as(2) by (simp add: b)
      have rd: "read_as_segment (ty, c, as)" using False as(1) n by simp
      have "even (length (drop (4 * ?n) r))" using r(2) False by simp
      then have "asPath_loop a b = asPath_loop (apply_segment (ty, c, as) a) (drop (4 * ?n) r)"
        unfolding bs using rd by (intro asPath_loop_segment)
      with bs rd show thesis by (rule seg)
    qed
  qed
qed

lemma asPath_loop_sound:
  "asPath_loop a b = Val (a', None) \<Longrightarrow>
     \<exists>ss. list_all read_as_segment ss \<and> b = concat (map segment_bytes ss) \<and>
          a' = fold apply_segment ss a"
proof (induction b arbitrary: a rule: length_induct)
  case (1 b)
  show ?case
  proof (cases "b = []")
    case True
    with "1.prems" show ?thesis by (intro exI [of _ "[]"]) (simp add: asPath_loop.simps)
  next
    case False
    then show ?thesis
    proof (cases rule: asPath_loop_cases [of b a])
      case (err a' e)
      with "1.prems" show ?thesis by simp
    next
      case (seg s r)
      then have "length r < length b" by (cases s) simp
      with "1.IH" "1.prems" seg(3) obtain ss where "list_all read_as_segment ss"
        "r = concat (map segment_bytes ss)" "a' = fold apply_segment ss (apply_segment s a)"
        by metis
      with seg(1,2) show ?thesis by (intro exI [of _ "s # ss"]) simp
    qed
  qed
qed

lemma asPath_loop_outcome:
  "\<exists>a'. asPath_loop a b = Val (a', None) \<or>
     (\<exists>n. asPath_loop a b = Val (a', Some (TreatAsWithdrawUpdateErr PATH_ATTR_AS_PATH (Some n))) \<and>
        Code n = NOTIF_CODE_UPDATE_MESSAGE_ERR)"
proof (induction b arbitrary: a rule: length_induct)
  case (1 b)
  show ?case
  proof (cases "b = []")
    case True
    then show ?thesis by (simp add: asPath_loop.simps)
  next
    case False
    then show ?thesis
    proof (cases rule: asPath_loop_cases [of b a])
      case (err a' e)
      then show ?thesis by auto
    next
      case (seg s r)
      then have "length r < length b" by (cases s) simp
      with "1.IH" seg(3) show ?thesis by metis
    qed
  qed
qed

lemma ASPathAttr_Decode_ok_iff:
  "ASPathAttr_Decode a flags b = Val (a', None) \<longleftrightarrow>
     \<not> Optional flags \<and> Transitive flags \<and>
     (\<exists>ss. ss \<noteq> [] \<and> list_all read_as_segment ss \<and> b = concat (map segment_bytes ss) \<and>
           a' = fold apply_segment ss a)"
proof
  assume *: "ASPathAttr_Decode a flags b = Val (a', None)"
  then have fl: "\<not> Optional flags" "Transitive flags" and b: "\<not> length b < 6"
    and loop: "asPath_loop a b = Val (a', None)"
    by (auto simp: ASPathAttr_Decode_def flags_Validate_def split: if_splits)
  obtain ss where "list_all read_as_segment ss" "b = concat (map segment_bytes ss)"
    "a' = fold apply_segment ss a"
    using asPath_loop_sound [OF loop] by blast
  moreover from b this(2) have "ss \<noteq> []" by auto
  ultimately show "\<not> Optional flags \<and> Transitive flags \<and>
     (\<exists>ss. ss \<noteq> [] \<and> list_all read_as_segment ss \<and> b = concat (map segment_bytes ss) \<and>
           a' = fold apply_segment ss a)" using fl by blast
next
  assume "\<not> Optional flags \<and> Transitive flags \<and>
     (\<exists>ss. ss \<noteq> [] \<and> list_all read_as_segment ss \<and> b = concat (map segment_bytes ss) \<and>
           a' = fold apply_segment ss a)"
  then obtain ss where fl: "\<not> Optional flags" "Transitive flags" and ss: "ss \<noteq> []"
    "list_all read_as_segment ss" and b: "b = concat (map segment_bytes ss)"
    and a': "a' = fold apply_segment ss a" by blast
  obtain ty c as ss' where s: "ss = (ty, c, as) # ss'" using ss(1) by (metis list.exhaust prod_cases3)
  with ss(2) have "as \<noteq> []" by simp
  then have "6 \<le> length b" by (cases as) (simp_all add: b s)
  moreover have "length b mod 2 = 0" using even_segments [of ss] by (simp add: b even_iff_mod_2_eq_zero)
  ultimately show "ASPathAttr_Decode a flags b = Val (a', None)"
    using fl asPath_loop_segments [OF ss(2), of a]
    by (simp add: ASPathAttr_Decode_def flags_Validate_def a' flip: b)
qed

lemma fold_segments_short:
  assumes "list_all read_as_segment ss" "length (ASSequence a) < 64"
  shows "length (ASSequence (fold apply_segment ss a)) < 64"
  using assms
proof (induction ss arbitrary: a)
  case (Cons s ss)
  then have "length (ASSequence (apply_segment s a)) < 64" by (cases s) auto
  with Cons show ?case by simp
qed simp

section \<open>Outcome classes\<close>

text \<open>
  Which error an attribute decoder may return: treat-as-withdraw, or attribute discard where
  RFC 7606 allows it, for its own attribute code, with an UPDATE Message Error as the RFC 4271
  fallback. A \<open>*Notification\<close>, which resets the session, is never among them.
\<close>

fun attr_error :: "bool \<Rightarrow> u8 \<Rightarrow> error \<Rightarrow> bool" where
  "attr_error discard code (TreatAsWithdrawUpdateErr c (Some n)) \<longleftrightarrow>
     c = code \<and> Code n = NOTIF_CODE_UPDATE_MESSAGE_ERR"
| "attr_error discard code (AttrDiscardUpdateErr c (Some n)) \<longleftrightarrow>
     discard \<and> c = code \<and> Code n = NOTIF_CODE_UPDATE_MESSAGE_ERR"
| "attr_error discard code _ = False"

fun outcome_ok :: "(error \<Rightarrow> bool) \<Rightarrow> 'a ret \<Rightarrow> bool" where
  "outcome_ok P (Fault f) = False"
| "outcome_ok P (Val (Inl e)) = P e"
| "outcome_ok P (Val (Inr x)) = True"

lemma outcome_with_flags:
  "outcome_ok (attr_error d code) k \<Longrightarrow>
     outcome_ok (attr_error d code) (with_flags p code b wo wt k)"
  by (auto simp: with_flags_def flags_Validate_def)

lemma lenErr_attr_error [simp]:
  "attr_error d code (lenErr_taw code b)" "attr_error True code (lenErr_ad code b)"
  by (simp_all add: lenErr_taw_def lenErr_ad_def attrLenBadForCodeErr_def)

lemma outcome_lens:
  "outcome_ok (attr_error d PATH_ATTR_ORIGIN) (OriginPathAttr_Decode flags b)"
  "outcome_ok (attr_error d PATH_ATTR_NEXT_HOP) (NextHopPathAttr_Decode flags b)"
  "outcome_ok (attr_error d PATH_ATTR_MED) (MEDPathAttr_Decode flags b)"
  "outcome_ok (attr_error d PATH_ATTR_LOCAL_PREF) (LocalPrefPathAttr_Decode flags b)"
  "outcome_ok (attr_error True PATH_ATTR_ATOMIC_AGGREGATE) (AtomicAggregatePathAttr_Decode flags b)"
  "outcome_ok (attr_error True PATH_ATTR_AGGREGATOR) (AggregatorPathAttr_Decode flags b)"
  "outcome_ok (attr_error d PATH_ATTR_ORIGINATOR_ID) (OriginatorIDPathAttr_Decode flags b)"
  unfolding OriginPathAttr_Decode_def NextHopPathAttr_Decode_def MEDPathAttr_Decode_def
    LocalPrefPathAttr_Decode_def AtomicAggregatePathAttr_Decode_def AggregatorPathAttr_Decode_def
    OriginatorIDPathAttr_Decode_def
  by (rule outcome_with_flags; auto simp: Uint32_in go_index_def)+

lemma outcome_sets:
  "outcome_ok (attr_error d PATH_ATTR_COMMUNITY) (CommunitiesPathAttr_Decode flags b)"
  "outcome_ok (attr_error d PATH_ATTR_CLUSTER_LIST) (ClusterListPathAttr_Decode flags b)"
  "outcome_ok (attr_error d PATH_ATTR_LARGE_COMMUNITY) (LargeCommunitiesPathAttr_Decode flags b)"
proof -
  show "outcome_ok (attr_error d PATH_ATTR_COMMUNITY) (CommunitiesPathAttr_Decode flags b)"
    unfolding CommunitiesPathAttr_Decode_def
  proof (rule outcome_with_flags, cases "length b < 4 \<or> length b mod 4 \<noteq> 0")
    case False
    then have "length b mod 4 = 0" "b \<noteq> []" by auto
    from decodeUint32Set_total [OF this] obtain vs where "decodeUint32Set b = ok vs" by blast
    with False show "outcome_ok (attr_error d PATH_ATTR_COMMUNITY)
      (if length b < 4 \<or> length b mod 4 \<noteq> 0 then fail (lenErr_taw PATH_ATTR_COMMUNITY b)
       else go_bind (decodeUint32Set b) (\<lambda>s. case s of Inl _ \<Rightarrow> ok [] | Inr vs \<Rightarrow> ok vs))" by simp
  qed simp
  show "outcome_ok (attr_error d PATH_ATTR_CLUSTER_LIST) (ClusterListPathAttr_Decode flags b)"
    unfolding ClusterListPathAttr_Decode_def
    using clusterList_total [of b] by (intro outcome_with_flags) auto
  show "outcome_ok (attr_error d PATH_ATTR_LARGE_COMMUNITY) (LargeCommunitiesPathAttr_Decode flags b)"
    unfolding LargeCommunitiesPathAttr_Decode_def
    using decodeLargeCommunitySet_total [of b] by (intro outcome_with_flags) auto
qed

section \<open>Acceptance\<close>

lemma PutUint32_inject: "PutUint32 v = PutUint32 w \<longleftrightarrow> v = w"
  by (metis Uint32_Put_exact go.inject(2))

lemma u32_cons_iff: "b0 # b1 # b2 # b3 # r = PutUint32 v @ ip \<longleftrightarrow> v = u32_of b0 b1 b2 b3 \<and> ip = r"
proof -
  have "b0 # b1 # b2 # b3 # r = PutUint32 (u32_of b0 b1 b2 b3) @ r" by simp
  also have "\<dots> = PutUint32 v @ ip \<longleftrightarrow> PutUint32 (u32_of b0 b1 b2 b3) = PutUint32 v \<and> r = ip"
    by (rule append_eq_append_conv) simp
  finally show ?thesis unfolding PutUint32_inject by auto
qed

lemma u32_attr_iff:
  "(if length b \<noteq> 4 then fail e else go_bind (Uint32 b) (\<lambda>v. ok v)) = ok v \<longleftrightarrow> b = PutUint32 v"
proof (cases "length b = 4")
  case True
  then obtain b0 b1 b2 b3 where "b = [b0, b1, b2, b3]" by (auto simp: length_Suc_conv eval_nat_numeral)
  then show ?thesis using u32_cons_iff [of b0 b1 b2 b3 "[]" v "[]"] by auto
qed auto

lemma set_attr_iff:
  "(if length b < 4 \<or> length b mod 4 \<noteq> 0 then fail e
    else go_bind (decodeUint32Set b) (\<lambda>s. case s of Inl _ \<Rightarrow> ok [] | Inr vs \<Rightarrow> ok vs)) = ok vs \<longleftrightarrow>
   vs \<noteq> [] \<and> b = concat (map PutUint32 vs)"
proof (cases "length b < 4 \<or> length b mod 4 \<noteq> 0")
  case True
  then show ?thesis by (auto simp: length_u32s simp flip: length_greater_0_conv)
next
  case False
  then have "length b mod 4 = 0" "b \<noteq> []" by auto
  from decodeUint32Set_total [OF this] obtain vs' where "decodeUint32Set b = ok vs'" by blast
  with False show ?thesis using decodeUint32Set_ok_iff [of b vs] by auto
qed

lemma decodeLargeCommunitySet_ok_iff:
  "decodeLargeCommunitySet b = ok ls \<longleftrightarrow> b = concat (map largeCommunity_bytes ls)"
proof
  assume *: "decodeLargeCommunitySet b = ok ls"
  then have "length b mod 12 = 0" by (auto simp: decodeLargeCommunitySet_def split: if_splits)
  from decodeLargeCommunitySet_total [OF this] * show "b = concat (map largeCommunity_bytes ls)" by auto
qed (simp add: decodeLargeCommunitySet_def length_larges largeCommunitySet_loop_bytes)

section \<open>Properties\<close>

text \<open>
  C30. Each attribute of fixed length is accepted exactly when its Optional and Transitive flags
  are the ones the decoder asks for and the value has the right length and range; the value
  returned is the one whose wire form the octets are.
\<close>

theorem fixed_attrs_accept_iff:
  "(OriginPathAttr_Decode flags b = ok o' \<longleftrightarrow>
      \<not> Optional flags \<and> Transitive flags \<and> b = [o'] \<and> o' \<le> 2) \<and>
   (NextHopPathAttr_Decode flags b = ok nh \<longleftrightarrow>
      \<not> Optional flags \<and> Transitive flags \<and> length b = 4 \<and> nh = V4 b) \<and>
   (MEDPathAttr_Decode flags b = ok med \<longleftrightarrow>
      Optional flags \<and> \<not> Transitive flags \<and> b = PutUint32 med) \<and>
   (LocalPrefPathAttr_Decode flags b = ok lp \<longleftrightarrow>
      \<not> Optional flags \<and> Transitive flags \<and> b = PutUint32 lp) \<and>
   (AtomicAggregatePathAttr_Decode flags b = ok aa \<longleftrightarrow>
      Optional flags \<and> Transitive flags \<and> b = [] \<and> aa) \<and>
   (AggregatorPathAttr_Decode flags b = ok ag \<longleftrightarrow>
      Optional flags \<and> Transitive flags \<and>
      (\<exists>ip. length ip = 4 \<and> b = PutUint32 (agg_AS ag) @ ip \<and> agg_IP ag = V4 ip)) \<and>
   (OriginatorIDPathAttr_Decode flags b = ok oid \<longleftrightarrow>
      Optional flags \<and> \<not> Transitive flags \<and> length b = 4 \<and> oid = V4 b)"
proof (intro conjI)
  show "OriginPathAttr_Decode flags b = ok o' \<longleftrightarrow>
      \<not> Optional flags \<and> Transitive flags \<and> b = [o'] \<and> o' \<le> 2"
    by (cases b) (auto simp: OriginPathAttr_Decode_def with_flags_ok_iff not_less)
  show "AggregatorPathAttr_Decode flags b = ok ag \<longleftrightarrow>
      Optional flags \<and> Transitive flags \<and>
      (\<exists>ip. length ip = 4 \<and> b = PutUint32 (agg_AS ag) @ ip \<and> agg_IP ag = V4 ip)"
  proof (cases "length b = 8")
    case True
    then have "4 \<le> length b" by simp
    then obtain b0 b1 b2 b3 r where b: "b = b0 # b1 # b2 # b3 # r" by (rule bytes4E)
    with True have r: "length r = 4" by simp
    show ?thesis
      using True r by (cases ag) (auto simp: AggregatorPathAttr_Decode_def with_flags_ok_iff u32_cons_iff b)
  qed (auto simp: AggregatorPathAttr_Decode_def with_flags_ok_iff)
qed (auto simp: NextHopPathAttr_Decode_def MEDPathAttr_Decode_def LocalPrefPathAttr_Decode_def
      AtomicAggregatePathAttr_Decode_def OriginatorIDPathAttr_Decode_def with_flags_ok_iff u32_attr_iff)

text \<open>
  C31. COMMUNITIES, CLUSTER_LIST and LARGE_COMMUNITY are accepted exactly when the flags are right
  and the octets are the concatenated wire forms of a non-empty list, which is the value
  returned: nothing is lost, reordered or added.
\<close>

theorem set_attrs_accept_iff:
  "(CommunitiesPathAttr_Decode flags b = ok cs \<longleftrightarrow>
      Optional flags \<and> Transitive flags \<and> cs \<noteq> [] \<and> b = concat (map PutUint32 cs)) \<and>
   (ClusterListPathAttr_Decode flags b = ok as \<longleftrightarrow>
      Optional flags \<and> \<not> Transitive flags \<and> as \<noteq> [] \<and>
      list_all (wf_addr_of 4) as \<and> b = concat (map AsSlice as)) \<and>
   (LargeCommunitiesPathAttr_Decode flags b = ok ls \<longleftrightarrow>
      Optional flags \<and> Transitive flags \<and> ls \<noteq> [] \<and> b = concat (map largeCommunity_bytes ls))"
proof (intro conjI)
  show "CommunitiesPathAttr_Decode flags b = ok cs \<longleftrightarrow>
      Optional flags \<and> Transitive flags \<and> cs \<noteq> [] \<and> b = concat (map PutUint32 cs)"
    by (simp only: CommunitiesPathAttr_Decode_def with_flags_ok_iff set_attr_iff simp_thms)
  show "ClusterListPathAttr_Decode flags b = ok as \<longleftrightarrow>
      Optional flags \<and> \<not> Transitive flags \<and> as \<noteq> [] \<and>
      list_all (wf_addr_of 4) as \<and> b = concat (map AsSlice as)"
    using clusterCodec.loop_iff [of b as] length_addrs [of 4 as]
    by (auto simp: ClusterListPathAttr_Decode_def with_flags_ok_iff simp flip: length_greater_0_conv)
  show "LargeCommunitiesPathAttr_Decode flags b = ok ls \<longleftrightarrow>
      Optional flags \<and> Transitive flags \<and> ls \<noteq> [] \<and> b = concat (map largeCommunity_bytes ls)"
  proof (cases "length b < 12 \<or> length b mod 12 \<noteq> 0")
    case True
    then show ?thesis
      by (auto simp: LargeCommunitiesPathAttr_Decode_def with_flags_ok_iff length_larges
          simp flip: length_greater_0_conv)
  next
    case False
    then have "length b mod 12 = 0" by simp
    from decodeLargeCommunitySet_total [OF this] obtain ls' where
      ls': "decodeLargeCommunitySet b = ok ls'" "b = concat (map largeCommunity_bytes ls')" by blast
    with False show ?thesis using decodeLargeCommunitySet_ok_iff [of b ls]
      by (auto simp: LargeCommunitiesPathAttr_Decode_def with_flags_ok_iff)
  qed
qed

text \<open>
  C32. On every input each attribute decoder returns, and what it returns on malformed octets or
  flags is a treat-as-withdraw error for its own attribute code with an UPDATE Message Error as
  the fallback. Only ATOMIC_AGGREGATE and AGGREGATOR may answer with attribute discard. No
  decoder faults and none resets the session by itself.
\<close>

theorem attr_errors_classified:
  "outcome_ok (attr_error False PATH_ATTR_ORIGIN) (OriginPathAttr_Decode flags b) \<and>
   outcome_ok (attr_error False PATH_ATTR_NEXT_HOP) (NextHopPathAttr_Decode flags b) \<and>
   outcome_ok (attr_error False PATH_ATTR_MED) (MEDPathAttr_Decode flags b) \<and>
   outcome_ok (attr_error False PATH_ATTR_LOCAL_PREF) (LocalPrefPathAttr_Decode flags b) \<and>
   outcome_ok (attr_error True PATH_ATTR_ATOMIC_AGGREGATE) (AtomicAggregatePathAttr_Decode flags b) \<and>
   outcome_ok (attr_error True PATH_ATTR_AGGREGATOR) (AggregatorPathAttr_Decode flags b) \<and>
   outcome_ok (attr_error False PATH_ATTR_ORIGINATOR_ID) (OriginatorIDPathAttr_Decode flags b) \<and>
   outcome_ok (attr_error False PATH_ATTR_COMMUNITY) (CommunitiesPathAttr_Decode flags b) \<and>
   outcome_ok (attr_error False PATH_ATTR_CLUSTER_LIST) (ClusterListPathAttr_Decode flags b) \<and>
   outcome_ok (attr_error False PATH_ATTR_LARGE_COMMUNITY) (LargeCommunitiesPathAttr_Decode flags b) \<and>
   (\<exists>a' err. ASPathAttr_Decode a flags b = Val (a', err) \<and>
      (case err of None \<Rightarrow> True | Some e \<Rightarrow> attr_error False PATH_ATTR_AS_PATH e))"
proof -
  have "\<exists>a' err. ASPathAttr_Decode a flags b = Val (a', err) \<and>
      (case err of None \<Rightarrow> True | Some e \<Rightarrow> attr_error False PATH_ATTR_AS_PATH e)"
    using asPath_loop_outcome [of a b]
    by (auto simp: ASPathAttr_Decode_def flags_Validate_def)
  then show ?thesis by (simp only: outcome_lens outcome_sets simp_thms)
qed

text \<open>
  C33. AS_PATH is accepted exactly when the flags are those of a well-known attribute and the
  octets are a non-empty concatenation of AS_SET and AS_SEQUENCE segments, each holding as many
  AS numbers as its count octet says modulo 64. The set and the sequence kept are those of the
  last segment of each type.
\<close>

theorem as_path_accept_iff:
  "ASPathAttr_Decode a flags b = Val (a', None) \<longleftrightarrow>
     \<not> Optional flags \<and> Transitive flags \<and>
     (\<exists>ss. ss \<noteq> [] \<and> list_all read_as_segment ss \<and> b = concat (map segment_bytes ss) \<and>
           a' = fold apply_segment ss a)"
  by (rule ASPathAttr_Decode_ok_iff)

text \<open>
  C34. No AS_PATH that the decoder accepts yields a sequence of 64 or more AS numbers, although
  the count octet of a segment allows 255: the octet length of a segment wraps around.
\<close>

theorem as_path_sequence_below_64:
  assumes "ASPathAttr_Decode a flags b = Val (a', None)" "length (ASSequence a) < 64"
  shows "length (ASSequence a') < 64"
proof -
  from assms(1) obtain ss where "list_all read_as_segment ss" "a' = fold apply_segment ss a"
    unfolding ASPathAttr_Decode_ok_iff by blast
  with assms(2) show ?thesis by (simp add: fold_segments_short)
qed

theorem as_path_sequence_below_64_witness:
  "let a = \<lparr>ASSet = [], ASSequence = []\<rparr>; b = [2, 1, 0, 0, 253, 232] in
   ASPathAttr_Decode a 0x40 b = Val (a\<lparr>ASSequence := [65000]\<rparr>, None) \<and> length [65000 :: u32] < 64"
proof -
  let ?a = "\<lparr>ASSet = [], ASSequence = []\<rparr>"
  have *: "ASPathAttr_Decode ?a 0x40 [2, 1, 0, 0, 253, 232] = Val (?a\<lparr>ASSequence := [65000]\<rparr>, None)"
    by code_simp
  show ?thesis using as_path_sequence_below_64 [OF *] * by simp
qed

end
