(* ===== verification/Update.thy ===== *)
theory Update
  imports PathAttrs "HOL-Library.Sublist"
begin

text \<open>
  The UPDATE message decoder of \<open>src/update.go\<close>: the constructors of field decoders, the
  bitmap of attributes seen, the loop over the path attributes and \<open>UpdateDecoder.Decode\<close>.

  The type parameter \<open>T\<close> of the code is instantiated with a pointer to the message being
  filled in; the model passes the value pointed to and returns it. A user callback is
  therefore a function to the new value and an error, and it may fault.
\<close>

type_synonym 't res = "('t \<times> error option) go"
type_synonym 't DecodeFn = "'t \<Rightarrow> bytes \<Rightarrow> 't res"
type_synonym 't MPPathAttrDecodeFn = "'t \<Rightarrow> PathAttrFlags \<Rightarrow> bytes \<Rightarrow> 't res"
type_synonym 't PathAttrsDecodeFn = "'t \<Rightarrow> u8 \<Rightarrow> PathAttrFlags \<Rightarrow> bytes \<Rightarrow> 't res"

section \<open>Constructors of field decoders\<close>

definition invalidNetworkField :: Notification where
  "invalidNetworkField =
     \<lparr>Code = NOTIF_CODE_UPDATE_MESSAGE_ERR, Subcode = NOTIF_SUBCODE_INVALID_NETWORK_FIELD, Data = []\<rparr>"

definition NewNLRIAddPathDecodeFn :: "('t \<Rightarrow> AddPathPrefix list \<Rightarrow> 't res) \<Rightarrow> 't DecodeFn" where
  "NewNLRIAddPathDecodeFn fn t b =
     go_bind (decodeAddPathPrefixes b False) (\<lambda>r.
       case r of
         Inl _ \<Rightarrow> Val (t, Some (NotificationErr invalidNetworkField))
       | Inr ps \<Rightarrow> fn t ps)"

definition NewNLRIDecodeFn :: "('t \<Rightarrow> Prefix list \<Rightarrow> 't res) \<Rightarrow> 't DecodeFn" where
  "NewNLRIDecodeFn fn t b =
     go_bind (decodePrefixes b False) (\<lambda>r.
       case r of
         Inl _ \<Rightarrow> Val (t, Some (NotificationErr invalidNetworkField))
       | Inr ps \<Rightarrow> fn t ps)"

definition NewWithdrawnAddPathRoutesDecodeFn ::
    "('t \<Rightarrow> AddPathPrefix list \<Rightarrow> 't res) \<Rightarrow> 't DecodeFn" where
  "NewWithdrawnAddPathRoutesDecodeFn fn t b =
     go_bind (decodeAddPathPrefixes b False) (\<lambda>r.
       case r of
         Inl _ \<Rightarrow> Val (t, Some (NotificationErr updateMessageErr))
       | Inr ps \<Rightarrow> fn t ps)"

definition NewWithdrawnRoutesDecodeFn :: "('t \<Rightarrow> Prefix list \<Rightarrow> 't res) \<Rightarrow> 't DecodeFn" where
  "NewWithdrawnRoutesDecodeFn fn t b =
     go_bind (decodePrefixes b False) (\<lambda>r.
       case r of
         Inl _ \<Rightarrow> Val (t, Some (NotificationErr updateMessageErr))
       | Inr ps \<Rightarrow> fn t ps)"

definition mpLenErr :: Notification where
  "mpLenErr =
     \<lparr>Code = NOTIF_CODE_UPDATE_MESSAGE_ERR, Subcode = NOTIF_SUBCODE_ATTR_LEN_ERR, Data = []\<rparr>"

text \<open>The octet after the next hop is found with \<open>nhLen+1\<close>, a sum in \<open>uint8\<close>.\<close>

definition NewMPReachNLRIDecodeFn ::
    "('t \<Rightarrow> u16 \<Rightarrow> u8 \<Rightarrow> bytes \<Rightarrow> bytes \<Rightarrow> 't res) \<Rightarrow> 't MPPathAttrDecodeFn" where
  "NewMPReachNLRIDecodeFn fn t flags b =
     (let me = flags_Validate flags PATH_ATTR_MP_REACH_NLRI b True False in
      if length b < 5 then Val (t, errors_Join me (Some (NotificationErr mpLenErr)))
      else
        go_bind (Uint16 b) (\<lambda>afi.
        go_bind (go_index b 2) (\<lambda>safi.
        go_bind (go_index b 3) (\<lambda>nhLen.
        go_bind (go_slice_from b 4) (\<lambda>b.
        if length b < unat nhLen + 1 then Val (t, errors_Join me (Some (NotificationErr mpLenErr)))
        else
          go_bind (go_slice b 0 (unat nhLen)) (\<lambda>nh.
          go_bind (go_slice_from b (unat (nhLen + 1))) (\<lambda>nlri.
          go_bind (fn t afi safi nh nlri) (\<lambda>(t', err).
          Val (t', errors_Join me err)))))))))"

definition NewMPUnreachNLRIDecodeFn ::
    "('t \<Rightarrow> u16 \<Rightarrow> u8 \<Rightarrow> bytes \<Rightarrow> 't res) \<Rightarrow> 't MPPathAttrDecodeFn" where
  "NewMPUnreachNLRIDecodeFn fn t flags b =
     (let me = flags_Validate flags PATH_ATTR_MP_UNREACH_NLRI b True False in
      if length b < 3 then Val (t, errors_Join me (Some (NotificationErr mpLenErr)))
      else
        go_bind (Uint16 b) (\<lambda>afi.
        go_bind (go_index b 2) (\<lambda>safi.
        go_bind (go_slice_from b 3) (\<lambda>withdrawn.
        go_bind (fn t afi safi withdrawn) (\<lambda>(t', err).
        Val (t', errors_Join me err))))))"

section \<open>The attributes seen\<close>

text \<open>\<open>type attrsBitmap [256 / 32]uint32\<close>\<close>

type_synonym attrsBitmap = "u32 list"

definition attrsBitmap_zero :: attrsBitmap where
  "attrsBitmap_zero = replicate 8 0"

definition attrsBitmap_set :: "attrsBitmap \<Rightarrow> u8 \<Rightarrow> attrsBitmap" where
  "attrsBitmap_set a b =
     a[unat (b div 32) := a ! unat (b div 32) OR push_bit (unat (b mod 32)) 1]"

definition attrsBitmap_isSet :: "attrsBitmap \<Rightarrow> u8 \<Rightarrow> bool" where
  "attrsBitmap_isSet a b \<longleftrightarrow> a ! unat (b div 32) AND push_bit (unat (b mod 32)) 1 \<noteq> 0"

section \<open>The loop over the path attributes\<close>

definition totalAttrLenErr :: "u8 \<Rightarrow> error" where
  "totalAttrLenErr code = TreatAsWithdrawUpdateErr code (Some updateMessageErr)"

text \<open>
  The header of the attribute at the front of \<open>b\<close>: flags, type, length and what follows. The
  left summand is the error with which the loop breaks.
\<close>

definition attr_header :: "bytes \<Rightarrow> (PathAttrFlags \<times> u8 \<times> nat \<times> bytes) ret" where
  "attr_header b =
     go_bind (go_index b 0) (\<lambda>flags.
     if length b < 2 then fail (totalAttrLenErr 0)
     else
       go_bind (go_index b 1) (\<lambda>attrType.
       try_bind
         (if ExtendedLen flags
          then if length b < 4 then fail (totalAttrLenErr attrType)
               else go_bind (go_bind (go_slice b 2 4) Uint16) (\<lambda>l.
                    go_bind (go_slice_from b 4) (\<lambda>b'. ok (unat l, b')))
          else if length b < 3 then fail (totalAttrLenErr attrType)
               else go_bind (go_index b 2) (\<lambda>l.
                    go_bind (go_slice_from b 3) (\<lambda>b'. ok (unat l, b'))))
         (\<lambda>(attrLen, b').
            if length b' < attrLen then fail (totalAttrLenErr attrType)
            else ok (flags, attrType, attrLen, b'))))"

lemma attr_header_shrinks:
  "attr_header b = ok (flags, ty, n, b') \<Longrightarrow> length b' < length b"
  by (auto simp: attr_header_def go_iffs go_slice_from_Val_iff split: if_splits)

definition malformedAttrList :: Notification where
  "malformedAttrList =
     \<lparr>Code = NOTIF_CODE_UPDATE_MESSAGE_ERR, Subcode = NOTIF_SUBCODE_MALFORMED_ATTR_LIST, Data = []\<rparr>"

text \<open>How the loop ends: with a \<open>return\<close>, or by \<open>break\<close> or exhaustion.\<close>

datatype 't pa_exit = PaReturn 't "error option" | PaBreak 't "error option" attrsBitmap

function pathAttrs_loop ::
    "'t PathAttrsDecodeFn \<Rightarrow> 't \<Rightarrow> error option \<Rightarrow> attrsBitmap \<Rightarrow> bytes \<Rightarrow> 't pa_exit go" where
  "pathAttrs_loop paFn t me attrsSeen b =
     (if b = [] then Val (PaBreak t me attrsSeen)
      else
        go_bind (attr_header b) (\<lambda>h.
        case h of
          Inl e \<Rightarrow> Val (PaBreak t (errors_Join me (Some e)) attrsSeen)
        | Inr (flags, attrType, attrLen, b') \<Rightarrow>
            if attrsBitmap_isSet attrsSeen attrType
            then if attrType = PATH_ATTR_MP_REACH_NLRI \<or> attrType = PATH_ATTR_MP_UNREACH_NLRI
                 then Val (PaReturn t (errors_Join me (Some (NotificationErr malformedAttrList))))
                 else go_bind (go_slice_from b' attrLen) (\<lambda>b''.
                      pathAttrs_loop paFn t me attrsSeen b'')
            else
              go_bind (go_slice b' 0 attrLen) (\<lambda>v.
              go_bind (paFn t attrType flags v) (\<lambda>(t', err).
              let attrsSeen' = attrsBitmap_set attrsSeen attrType in
              case err of
                Some e \<Rightarrow>
                  if as_Notification e \<noteq> None then Val (PaReturn t' (errors_Join me (Some e)))
                  else go_bind (go_slice_from b' attrLen) (\<lambda>b''.
                       pathAttrs_loop paFn t' (errors_Join me (Some e)) attrsSeen' b'')
              | None \<Rightarrow>
                  go_bind (go_slice_from b' attrLen) (\<lambda>b''.
                  pathAttrs_loop paFn t' me attrsSeen' b'')))))"
  by pat_completeness auto
termination
  by (relation "measure (\<lambda>(paFn, t, me, seen, b). length b)")
     (auto simp: go_slice_from_Val_iff dest: attr_header_shrinks)

declare pathAttrs_loop.simps [simp del]

definition missingAttrErr :: "u8 \<Rightarrow> error" where
  "missingAttrErr missingCode =
     TreatAsWithdrawUpdateErr missingCode (Some
       \<lparr>Code = NOTIF_CODE_UPDATE_MESSAGE_ERR, Subcode = NOTIF_SUBCODE_MISSING_WELL_KNOWN_ATTR,
        Data = [missingCode]\<rparr>)"

definition decodePathAttrs :: "'t PathAttrsDecodeFn \<Rightarrow> 't \<Rightarrow> bytes \<Rightarrow> bool \<Rightarrow> 't res" where
  "decodePathAttrs paFn t b hasNLRI =
     (if length b < 1 then Val (t, None)
      else
        go_bind (pathAttrs_loop paFn t None attrsBitmap_zero b) (\<lambda>x.
        case x of
          PaReturn t' me \<Rightarrow> Val (t', me)
        | PaBreak t' me attrsSeen \<Rightarrow>
            if (attrsBitmap_isSet attrsSeen PATH_ATTR_MP_REACH_NLRI \<or> hasNLRI) \<and>
               (\<not> attrsBitmap_isSet attrsSeen PATH_ATTR_AS_PATH \<or>
                \<not> attrsBitmap_isSet attrsSeen PATH_ATTR_ORIGIN)
            then Val (t', errors_Join me (Some (missingAttrErr
                   (if \<not> attrsBitmap_isSet attrsSeen PATH_ATTR_ORIGIN then PATH_ATTR_ORIGIN
                    else PATH_ATTR_AS_PATH))))
            else Val (t', me)))"

section \<open>\<open>UpdateDecoder.Decode\<close>\<close>

record 't UpdateDecoder =
  wrFn :: "'t DecodeFn"
  paFn :: "'t PathAttrsDecodeFn"
  nlriFn :: "'t DecodeFn"

definition NewUpdateDecoder ::
    "'t DecodeFn \<Rightarrow> 't PathAttrsDecodeFn \<Rightarrow> 't DecodeFn \<Rightarrow> 't UpdateDecoder" where
  "NewUpdateDecoder wr pa nlri = \<lparr>wrFn = wr, paFn = pa, nlriFn = nlri\<rparr>"

text \<open>
  The three stages after the lengths have been checked. \<open>wrl + 2\<close> is a sum in \<open>uint16\<close>.
\<close>

definition Decode :: "'t UpdateDecoder \<Rightarrow> 't \<Rightarrow> bytes \<Rightarrow> 't res" where
  "Decode s t b =
     (if length b < 4 then Val (t, Some (NotificationErr updateMessageErr))
      else
        go_bind (go_bind (go_slice b 0 2) Uint16) (\<lambda>wrl.
        go_bind (go_slice_from b 2) (\<lambda>b.
        if length b < unat wrl + 2 then Val (t, Some (NotificationErr malformedAttrList))
        else
          go_bind (go_bind (go_slice b (unat wrl) (unat (wrl + 2))) Uint16) (\<lambda>pal'.
          let pal = unat pal' in
          go_bind (go_slice_from b (unat (wrl + 2))) (\<lambda>rest.
          if length rest < pal then Val (t, Some (NotificationErr malformedAttrList))
          else
            go_bind (go_slice b 0 (unat wrl)) (\<lambda>w.
            go_bind (wrFn s t w) (\<lambda>(t, err).
            let me = (case err of None \<Rightarrow> None | Some e \<Rightarrow> errors_Join None (Some e)) in
            if (case err of None \<Rightarrow> False | Some e \<Rightarrow> as_Notification e \<noteq> None) then Val (t, me)
            else
              go_bind (go_slice_from b (unat (wrl + 2))) (\<lambda>b.
              go_bind (go_slice b 0 pal) (\<lambda>pa.
              go_bind (go_slice_from b pal) (\<lambda>nlri.
              go_bind (decodePathAttrs (paFn s) t pa (length nlri > 0)) (\<lambda>(t, err).
              let me = (case err of None \<Rightarrow> me | Some e \<Rightarrow> errors_Join me (Some e)) in
              if (case err of None \<Rightarrow> False | Some e \<Rightarrow> as_Notification e \<noteq> None) then Val (t, me)
              else
                go_bind (nlriFn s t nlri) (\<lambda>(t, err).
                Val (t, case err of None \<Rightarrow> me | Some e \<Rightarrow> errors_Join me (Some e))))))))))))))"

section \<open>The bitmap is a set of attribute codes\<close>

text \<open>What the attribute loop relies on: a set of codes that starts empty and grows by one.\<close>

locale code_set =
  fixes emp :: 's
    and ins :: "'s \<Rightarrow> u8 \<Rightarrow> 's"
    and mem :: "'s \<Rightarrow> u8 \<Rightarrow> bool"
    and inv :: "'s \<Rightarrow> bool"
  assumes inv_emp: "inv emp"
    and inv_ins: "inv a \<Longrightarrow> inv (ins a c)"
    and mem_emp: "\<not> mem emp c"
    and mem_ins: "inv a \<Longrightarrow> mem (ins a c) d \<longleftrightarrow> d = c \<or> mem a d"
begin

lemma Collect_emp: "{c. mem emp c} = {}"
  by (simp add: mem_emp)

lemma Collect_ins: "inv a \<Longrightarrow> {d. mem (ins a c) d} = insert c {d. mem a d}"
  by (auto simp: mem_ins)

lemma Collect_fold: "inv a \<Longrightarrow> {d. mem (fold (\<lambda>c s. ins s c) cs a) d} = set cs \<union> {d. mem a d}"
  by (induction cs arbitrary: a) (auto simp: mem_ins inv_ins)

end

lemma div32_mod32_eq_iff:
  "unat (b div 32 :: u8) = unat (c div 32) \<and> unat (b mod 32) = unat (c mod 32) \<longleftrightarrow> b = c"
  by (metis word_mod_div_equality unsigned_word_eqI)

lemma div32_less: "unat (b div 32 :: u8) < 8"
  using unat_u8_less [of b] by (simp add: unat_div)

lemma mod32_less: "unat (b mod 32 :: u8) < 32"
  by (simp add: unat_mod)

lemma isSet_bit: "attrsBitmap_isSet a b \<longleftrightarrow> bit (a ! unat (b div 32)) (unat (b mod 32))"
  by (simp add: attrsBitmap_isSet_def bit_iff_and_push_bit_not_eq_0)

interpretation seen: code_set attrsBitmap_zero attrsBitmap_set attrsBitmap_isSet "\<lambda>a. length a = 8"
proof unfold_locales
  fix c show "\<not> attrsBitmap_isSet attrsBitmap_zero c"
    using div32_less [of c] by (simp add: isSet_bit attrsBitmap_zero_def)
next
  fix a :: attrsBitmap and c d :: u8 assume len: "length a = 8"
  have eq: "d = c \<longleftrightarrow> unat (d div 32) = unat (c div 32) \<and> unat (d mod 32) = unat (c mod 32)"
    by (rule div32_mod32_eq_iff [symmetric])
  show "attrsBitmap_isSet (attrsBitmap_set a c) d \<longleftrightarrow> d = c \<or> attrsBitmap_isSet a d"
    unfolding eq using len div32_less [of c] mod32_less [of c] mod32_less [of d]
    by (cases "unat (d div 32) = unat (c div 32)")
       (auto simp: isSet_bit attrsBitmap_set_def bit_simps)
qed (simp_all add: attrsBitmap_zero_def attrsBitmap_set_def)

section \<open>Attribute framing\<close>

type_synonym attr = "PathAttrFlags \<times> u8 \<times> bytes"

fun attr_code :: "attr \<Rightarrow> u8" where
  "attr_code (flags, ty, v) = ty"

fun attr_bytes :: "attr \<Rightarrow> bytes" where
  "attr_bytes (flags, ty, v) =
     flags # ty # (if ExtendedLen flags then PutUint16 (of_nat (length v)) else [of_nat (length v)]) @ v"

fun wf_attr :: "attr \<Rightarrow> bool" where
  "wf_attr (flags, ty, v) \<longleftrightarrow> length v < (if ExtendedLen flags then 65536 else 256)"

definition attr_item :: "bytes \<Rightarrow> (attr \<times> bytes) ret" where
  "attr_item b =
     try_bind (attr_header b) (\<lambda>(flags, ty, n, r). ok ((flags, ty, take n r), drop n r))"

lemma attr_header_enc:
  "wf_attr (flags, ty, v) \<Longrightarrow> attr_header (attr_bytes (flags, ty, v) @ r) = ok (flags, ty, length v, v @ r)"
proof -
  assume wf: "wf_attr (flags, ty, v)"
  have d: "take 2 (PutUint16 x @ y) = PutUint16 x" "drop 2 (PutUint16 x @ y) = y" for x y by simp_all
  have u: "Uint16 (PutUint16 x) = Val x" for x using Uint16_Put [of x "[]"] by simp
  show ?thesis
  proof (cases "ExtendedLen flags")
    case True
    with wf show ?thesis by (simp add: attr_header_def unat_u16_of_nat u)
  next
    case False
    with wf show ?thesis by (simp add: attr_header_def unat_u8_of_nat)
  qed
qed

lemma attr_header_sound:
  assumes "attr_header b = ok (flags, ty, n, r)"
  shows "wf_attr (flags, ty, take n r) \<and> b = attr_bytes (flags, ty, take n r) @ drop n r"
proof -
  from assms obtain b' where b: "b = flags # ty # b'"
    by (cases b; cases "tl b")
       (auto simp: attr_header_def go_index_def try_bind_ok_iff go_bind_Val_iff split: if_splits)
  show ?thesis
  proof (cases "ExtendedLen flags")
    case True
    with assms obtain l0 l1 where "b' = l0 # l1 # r" "n = unat (u16_of l0 l1)" "n \<le> length r"
      by (cases b'; cases "tl b'") (auto simp: b attr_header_def try_bind_ok_iff split: if_splits)
    with True show ?thesis using unat_u16_less [of "u16_of l0 l1"] by (simp add: b)
  next
    case False
    with assms obtain l where "b' = l # r" "n = unat l" "n \<le> length r"
      by (cases b') (auto simp: b attr_header_def try_bind_ok_iff split: if_splits)
    with False show ?thesis using unat_u8_less [of l] by (simp add: b)
  qed
qed

lemma attr_header_no_fault: "b \<noteq> [] \<Longrightarrow> attr_header b \<noteq> Fault f"
  by (cases b; cases "tl b"; cases "tl (tl b)"; cases "tl (tl (tl b))")
     (auto simp: attr_header_def)

lemma attr_header_fits: "attr_header b = ok (flags, ty, n, r) \<Longrightarrow> n \<le> length r"
  by (auto simp: attr_header_def try_bind_ok_iff go_bind_Val_iff split: if_splits)

interpretation attrCodec: item_codec attr_item attr_bytes wf_attr
proof unfold_locales
  fix a :: attr and r assume wf: "wf_attr a"
  obtain flags ty v where a: "a = (flags, ty, v)" by (cases a)
  show "attr_item (attr_bytes a @ r) = ok (a, r)"
    using attr_header_enc wf unfolding a attr_item_def by simp
next
  fix b a r assume "attr_item b = ok (a, r)"
  then show "wf_attr a \<and> b = attr_bytes a @ r"
    using attr_header_sound by (fastforce simp: attr_item_def try_bind_ok_iff simp del: wf_attr.simps attr_bytes.simps)
next
  fix a show "attr_bytes a \<noteq> []" by (cases a) simp
qed

text \<open>The attributes a field holds, and the error that ends it when octets are left over.\<close>

function frames :: "bytes \<Rightarrow> attr list \<times> error option" where
  "frames b =
     (if b = [] then ([], None)
      else case attr_item b of
             Val (Inr (a, r)) \<Rightarrow> (let (as, e) = frames r in (a # as, e))
           | Val (Inl e) \<Rightarrow> ([], Some e)
           | Fault f \<Rightarrow> ([], None))"
  by pat_completeness auto
termination
  by (relation "measure length") (auto dest: attrCodec.item_shrinks)

declare frames.simps [simp del]

lemma frames_attrs:
  "list_all wf_attr as \<Longrightarrow>
     frames (concat (map attr_bytes as) @ r) = (as @ fst (frames r), snd (frames r))"
proof (induction as)
  case (Cons a as)
  then show ?case
    using attrCodec.enc_nonempty [of a]
    by (subst frames.simps) (auto simp: attrCodec.item_enc Let_def)
qed simp

lemma frames_split:
  "\<exists>r. list_all wf_attr (fst (frames b)) \<and> b = concat (map attr_bytes (fst (frames b))) @ r \<and>
     (snd (frames b) = None \<longleftrightarrow> r = [])"
proof (induction b rule: length_induct)
  case (1 b)
  show ?case
  proof (cases "b = []")
    case True
    then show ?thesis by (simp add: frames.simps)
  next
    case False
    then show ?thesis
    proof (cases "attr_item b" rule: go_sum_cases)
      case (Fault f)
      with False attr_header_no_fault show ?thesis by (simp add: attr_item_def try_bind_Fault_iff)
    next
      case (fail e)
      with False show ?thesis by (simp add: frames.simps [of b])
    next
      case (ok x)
      obtain a s where x: "x = (a, s)" by (cases x)
      with ok have "length s < length b" by (simp add: attrCodec.item_shrinks)
      with "1.IH" obtain r where "list_all wf_attr (fst (frames s))"
        "s = concat (map attr_bytes (fst (frames s))) @ r" "snd (frames s) = None \<longleftrightarrow> r = []" by blast
      moreover have "frames b = (a # fst (frames s), snd (frames s))"
        using False ok x by (simp add: frames.simps [of b] case_prod_beta)
      moreover have "wf_attr a" "b = attr_bytes a @ s" using ok x attrCodec.item_sound by blast+
      ultimately show ?thesis by (intro exI [of _ r]) simp
    qed
  qed
qed

section \<open>What the attribute loop promises\<close>

text \<open>
  The specification works on the framed attributes and a set of codes: the first attribute of
  each code goes to the callback, later ones are dropped (or end the message, for the two
  multiprotocol attributes), and a callback error that holds a \<open>*Notification\<close> ends it too.
\<close>

definition missing_code :: "bool \<Rightarrow> u8 set \<Rightarrow> u8 option" where
  "missing_code hasNLRI S =
     (if PATH_ATTR_MP_REACH_NLRI \<in> S \<or> hasNLRI
      then if PATH_ATTR_ORIGIN \<notin> S then Some PATH_ATTR_ORIGIN
           else if PATH_ATTR_AS_PATH \<notin> S then Some PATH_ATTR_AS_PATH
           else None
      else None)"

definition add_err :: "error option \<Rightarrow> error option \<Rightarrow> error option" where
  "add_err me e = (case e of None \<Rightarrow> me | Some x \<Rightarrow> errors_Join me (Some x))"

definition resets :: "error option \<Rightarrow> bool" where
  "resets e = (case e of None \<Rightarrow> False | Some x \<Rightarrow> as_Notification x \<noteq> None)"

fun attrs_spec ::
    "'t PathAttrsDecodeFn \<Rightarrow> bool \<Rightarrow> error option \<Rightarrow> attr list \<Rightarrow> 't \<Rightarrow> error option \<Rightarrow> u8 set \<Rightarrow> 't res"
  where
  "attrs_spec pa hasNLRI left [] t me S =
     Val (t, add_err (add_err me left) (map_option missingAttrErr (missing_code hasNLRI S)))"
| "attrs_spec pa hasNLRI left ((flags, ty, v) # as) t me S =
     (if ty \<in> S
      then if ty \<in> {PATH_ATTR_MP_REACH_NLRI, PATH_ATTR_MP_UNREACH_NLRI}
           then Val (t, add_err me (Some (NotificationErr malformedAttrList)))
           else attrs_spec pa hasNLRI left as t me S
      else go_bind (pa t ty flags v) (\<lambda>(t', e).
             if resets e then Val (t', add_err me e)
             else attrs_spec pa hasNLRI left as t' (add_err me e) (insert ty S)))"

lemma add_err_simps [simp]:
  "add_err me None = me" "add_err me (Some x) = errors_Join me (Some x)"
  by (simp_all add: add_err_def)

lemma resets_simps [simp]: "\<not> resets None" "resets (Some x) \<longleftrightarrow> as_Notification x \<noteq> None"
  by (simp_all add: resets_def)

definition seen_codes :: "attrsBitmap \<Rightarrow> u8 set" where
  "seen_codes a = {c. attrsBitmap_isSet a c}"

lemma seen_codes_iff: "attrsBitmap_isSet a c \<longleftrightarrow> c \<in> seen_codes a"
  by (simp add: seen_codes_def)

lemma seen_codes_zero: "seen_codes attrsBitmap_zero = {}"
  unfolding seen_codes_def by (rule seen.Collect_emp)

lemma seen_codes_set: "length a = 8 \<Longrightarrow> seen_codes (attrsBitmap_set a c) = insert c (seen_codes a)"
  unfolding seen_codes_def by (rule seen.Collect_ins)

text \<open>The end of \<open>decodePathAttrs\<close>, after the loop.\<close>

definition pa_finish :: "bool \<Rightarrow> 't pa_exit \<Rightarrow> 't res" where
  "pa_finish hasNLRI x =
     (case x of
        PaReturn t me \<Rightarrow> Val (t, me)
      | PaBreak t me seen \<Rightarrow>
          Val (t, add_err me (map_option missingAttrErr (missing_code hasNLRI (seen_codes seen)))))"

lemma pa_finish_simps [simp]:
  "pa_finish hasNLRI (PaReturn t me) = Val (t, me)"
  "pa_finish hasNLRI (PaBreak t me seen) =
     Val (t, add_err me (map_option missingAttrErr (missing_code hasNLRI (seen_codes seen))))"
  by (simp_all add: pa_finish_def)

lemma decodePathAttrs_finish:
  "decodePathAttrs pa t b hasNLRI =
     (if b = [] then Val (t, None)
      else go_bind (pathAttrs_loop pa t None attrsBitmap_zero b) (pa_finish hasNLRI))"
  unfolding decodePathAttrs_def pa_finish_def missing_code_def seen_codes_iff
  by (cases b) (auto intro!: go_bind_cong split: pa_exit.splits)

lemma pathAttrs_loop_spec:
  "length seen = 8 \<Longrightarrow>
   go_bind (pathAttrs_loop pa t me seen b) (pa_finish hasNLRI) =
     attrs_spec pa hasNLRI (snd (frames b)) (fst (frames b)) t me (seen_codes seen)"
proof (induction b arbitrary: t me seen rule: length_induct)
  case (1 b)
  show ?case
  proof (cases "b = []")
    case True
    then show ?thesis by (simp add: pathAttrs_loop.simps frames.simps pa_finish_def)
  next
    case False
    show ?thesis
    proof (cases "attr_header b" rule: go_sum_cases)
      case (Fault f)
      with False attr_header_no_fault show ?thesis by blast
    next
      case (fail e)
      with False show ?thesis
        by (simp add: pathAttrs_loop.simps [of pa t me seen b] frames.simps [of b] attr_item_def
            pa_finish_def)
    next
      case (ok h)
      obtain flags ty n r where h: "h = (flags, ty, n, r)" by (cases h)
      have n: "n \<le> length r" and shr: "length (drop n r) < length b"
        using ok h attr_header_fits attr_header_shrinks [of b flags ty n r] by auto
      have fr: "frames b = ((flags, ty, take n r) # fst (frames (drop n r)), snd (frames (drop n r)))"
        using False ok h by (simp add: frames.simps [of b] attr_item_def case_prod_beta)
      have IH: "go_bind (pathAttrs_loop pa t' me' seen' (drop n r)) (pa_finish hasNLRI) =
          attrs_spec pa hasNLRI (snd (frames (drop n r))) (fst (frames (drop n r))) t' me'
            (seen_codes seen')" if "length seen' = 8" for t' me' seen'
        using "1.IH" shr that by blast
      have set8: "length (attrsBitmap_set seen ty) = 8" using "1.prems" by (rule seen.inv_ins)
      have ins: "seen_codes (attrsBitmap_set seen ty) = insert ty (seen_codes seen)"
        using "1.prems" by (rule seen_codes_set)
      show ?thesis
      proof (cases "ty \<in> seen_codes seen")
        case True
        with False ok h n "1.prems" show ?thesis
          by (simp add: pathAttrs_loop.simps [of pa t me seen b] fr seen_codes_iff IH)
      next
        case new: False
        show ?thesis
        proof (cases "pa t ty flags (take n r)")
          case (Val x)
          with False ok h n new set8 show ?thesis
            by (cases x; cases "snd x")
               (simp_all add: pathAttrs_loop.simps [of pa t me seen b] fr seen_codes_iff IH ins Let_def)
        next
          case (Fault f)
          with False ok h n new show ?thesis
            by (simp add: pathAttrs_loop.simps [of pa t me seen b] fr seen_codes_iff)
        qed
      qed
    qed
  qed
qed

lemma decodePathAttrs_spec:
  "decodePathAttrs pa t b hasNLRI =
     (if b = [] then Val (t, None)
      else attrs_spec pa hasNLRI (snd (frames b)) (fst (frames b)) t None {})"
  using pathAttrs_loop_spec [of attrsBitmap_zero pa t None b hasNLRI] seen.inv_emp
  by (simp add: decodePathAttrs_finish seen_codes_zero)

section \<open>Which attributes reach the callback\<close>

text \<open>The first attribute of every code not in \<open>S\<close>, in order.\<close>

fun firsts :: "u8 set \<Rightarrow> attr list \<Rightarrow> attr list" where
  "firsts S [] = []"
| "firsts S (a # as) =
     (if attr_code a \<in> S then firsts S as else a # firsts (insert (attr_code a) S) as)"

lemma firsts_distinct:
  "distinct (map attr_code (firsts S as)) \<and> attr_code ` set (firsts S as) = attr_code ` set as - S"
  by (induction as arbitrary: S) auto

text \<open>A callback that also keeps the list of the calls it gets.\<close>

definition logged :: "'t PathAttrsDecodeFn \<Rightarrow> (attr list \<times> 't) PathAttrsDecodeFn" where
  "logged pa = (\<lambda>(l, t) ty flags v.
     go_bind (pa t ty flags v) (\<lambda>(t', e). Val ((l @ [(flags, ty, v)], t'), e)))"

lemma logged_Val_iff:
  "logged pa (l, t) ty flags v = Val (x, e) \<longleftrightarrow>
     (\<exists>t'. pa t ty flags v = Val (t', e) \<and> x = (l @ [(flags, ty, v)], t'))"
  by (auto simp: logged_def go_bind_Val_iff)

lemma errors_Join_Some [simp]: "errors_Join me (Some e) \<noteq> None"
  by (simp add: errors_Join_def split: option.splits)

lemma add_err_None_iff: "add_err me e = None \<longleftrightarrow> me = None \<and> e = None"
  by (cases e) simp_all

lemma attrs_spec_None:
  "attrs_spec pa hasNLRI left as t me S = Val (t', None) \<Longrightarrow>
     me = None \<and> left = None \<and> missing_code hasNLRI (S \<union> attr_code ` set as) = None"
  by (induction pa hasNLRI left as t me S rule: attrs_spec.induct)
     (auto simp: add_err_None_iff go_bind_Val_iff insert_absorb split: if_splits)

lemma attrs_spec_logged:
  "attrs_spec (logged pa) hasNLRI left as (l, t) me S = Val ((l', t'), e) \<Longrightarrow>
     attrs_spec pa hasNLRI left as t me S = Val (t', e) \<and>
     (\<exists>d. l' = l @ d \<and> prefix d (firsts S as) \<and> (\<not> resets e \<longrightarrow> d = firsts S as))"
proof (induction as arbitrary: l t me S)
  case (Cons a as)
  obtain flags ty v where a: "a = (flags, ty, v)" by (cases a)
  show ?case
  proof (cases "ty \<in> S")
    case True
    with Cons show ?thesis
      by (cases "ty \<in> {PATH_ATTR_MP_REACH_NLRI, PATH_ATTR_MP_UNREACH_NLRI}")
         (auto simp: a errors_Join_def split: option.splits)
  next
    case False
    with Cons.prems obtain t1 e1 where pa: "pa t ty flags v = Val (t1, e1)"
      and k: "(if resets e1 then Val ((l @ [(flags, ty, v)], t1), add_err me e1)
        else attrs_spec (logged pa) hasNLRI left as (l @ [(flags, ty, v)], t1) (add_err me e1) (insert ty S))
        = Val ((l', t'), e)"
      by (auto simp: a go_bind_Val_iff logged_Val_iff)
    show ?thesis
    proof (cases "resets e1")
      case True
      with k have "l' = l @ [(flags, ty, v)]" "e = add_err me e1" "t' = t1" by simp_all
      moreover from True have "resets (add_err me e1)"
        by (cases e1) (auto simp: errors_Join_def split: option.splits)
      ultimately show ?thesis using False True pa by (auto simp: a)
    next
      case keep: False
      with k have "attrs_spec (logged pa) hasNLRI left as (l @ [(flags, ty, v)], t1) (add_err me e1)
        (insert ty S) = Val ((l', t'), e)" by simp
      from Cons.IH [OF this] have "attrs_spec pa hasNLRI left as t1 (add_err me e1) (insert ty S) = Val (t', e) \<and>
        (\<exists>d. l' = (l @ [(flags, ty, v)]) @ d \<and> prefix d (firsts (insert ty S) as) \<and>
             (\<not> resets e \<longrightarrow> d = firsts (insert ty S) as))" .
      with False keep pa show ?thesis by (auto simp: a)
    qed
  qed
qed auto

section \<open>The three fields of a message body\<close>

definition update_body :: "bytes \<Rightarrow> bytes \<Rightarrow> bytes \<Rightarrow> bytes" where
  "update_body wr pa nlri =
     PutUint16 (of_nat (length wr)) @ wr @ PutUint16 (of_nat (length pa)) @ pa @ nlri"

text \<open>Run the next stage unless the errors so far reset the session; collect its error.\<close>

definition then_stage :: "'t res \<Rightarrow> ('t \<Rightarrow> 't res) \<Rightarrow> 't res" where
  "then_stage m k =
     go_bind m (\<lambda>(t, me).
       if resets me then Val (t, me) else go_bind (k t) (\<lambda>(t', e). Val (t', add_err me e)))"

definition decode_stages :: "'t UpdateDecoder \<Rightarrow> 't \<Rightarrow> bytes \<Rightarrow> bytes \<Rightarrow> bytes \<Rightarrow> 't res" where
  "decode_stages s t wr pa nlri =
     then_stage (then_stage (then_stage (Val (t, None))
       (\<lambda>t. wrFn s t wr))
       (\<lambda>t. decodePathAttrs (paFn s) t pa (nlri \<noteq> [])))
       (\<lambda>t. nlriFn s t nlri)"

lemma resets_add_err: "resets (add_err me e) \<longleftrightarrow> resets me \<or> resets e"
  by (cases e) (auto simp: errors_Join_def split: option.splits)

lemma add_err_None [simp]: "add_err None e = None \<longleftrightarrow> e = None"
  by (simp add: add_err_None_iff)

lemma unat_wrl_2: "n < 65534 \<Longrightarrow> unat (of_nat n + 2 :: u16) = n + 2"
  using unat_u16_of_nat [of "n + 2"] by (simp add: add.commute)

lemma Decode_update_body:
  assumes wr: "length wr < 65534" and pa: "length pa < 65536"
  shows "Decode s t (update_body wr pa nlri) = decode_stages s t wr pa nlri"
proof -
  let ?w = "of_nat (length wr) :: u16" and ?p = "of_nat (length pa) :: u16"
  have u: "unat ?w = length wr" "unat (?w + 2) = length wr + 2" "unat ?p = length pa"
    using assms by (simp_all add: unat_u16_of_nat unat_wrl_2)
  have U: "Uint16 (PutUint16 x) = Val x" for x using Uint16_Put [of x "[]"] by simp
  have d: "take 2 (PutUint16 x @ y) = PutUint16 x" "drop 2 (PutUint16 x @ y) = y" for x y by simp_all
  have fold: "(case err of None \<Rightarrow> me | Some e \<Rightarrow> errors_Join me (Some e)) = add_err me err"
    "(case err of None \<Rightarrow> False | Some e \<Rightarrow> as_Notification e \<noteq> None) = resets err" for err me
    by (simp_all add: add_err_def resets_def)
  show ?thesis
    unfolding Decode_def decode_stages_def then_stage_def update_body_def fold
    by (simp add: u U d Let_def add.commute)
       (auto intro!: go_bind_cong simp: u d add.commute Let_def go_bind_assoc resets_add_err)
qed

lemma Decode_refuses:
  assumes len: "length b \<le> 65537"
    and no: "\<And>wr pa nlri. length wr < 65534 \<Longrightarrow> length pa < 65536 \<Longrightarrow> b \<noteq> update_body wr pa nlri"
  shows "Decode s t b = Val (t, Some (NotificationErr
    (if length b < 4 then updateMessageErr else malformedAttrList)))"
proof (cases "length b < 4")
  case False
  then have "2 \<le> length b" by simp
  then obtain w0 w1 c where b: "b = w0 # w1 # c"
    using list_split_at2 by blast
  let ?w = "u16_of w0 w1"
  show ?thesis
  proof (cases "length c < unat ?w + 2")
    case True
    with False show ?thesis by (simp add: Decode_def b)
  next
    case cw: False
    then have w: "unat ?w < 65534" using len b by simp
    then have w2: "unat (?w + 2) = unat ?w + 2"
      using unat_wrl_2 [of "unat ?w"] by simp
    have "2 \<le> length (drop (unat ?w) c)" using cw by simp
    then obtain p0 p1 d where d: "drop (unat ?w) c = p0 # p1 # d" using list_split_at2 by blast
    have "drop (unat ?w + 2) c = drop 2 (drop (unat ?w) c)" by (simp add: add.commute)
    also have "\<dots> = d" by (simp add: d)
    finally have d': "drop (unat ?w + 2) c = d" .
    have s1: "go_slice c (unat ?w) (unat (?w + 2)) = Val [p0, p1]"
      unfolding w2 using cw by (subst go_slice_in) (simp_all add: d)
    have s2: "go_slice_from c (unat (?w + 2)) = Val d"
      unfolding w2 go_slice_from_def d' using cw by simp
    let ?p = "unat (u16_of p0 p1)"
    show ?thesis
    proof (cases "length d < ?p")
      case True
      with False cw show ?thesis by (simp add: Decode_def b s1 s2 Let_def)
    next
      case fits: False
      have "c = take (unat ?w) c @ drop (unat ?w) c" by simp
      also have "drop (unat ?w) c = [p0, p1] @ take ?p d @ drop ?p d" by (simp add: d)
      finally have c: "c = take (unat ?w) c @ [p0, p1] @ take ?p d @ drop ?p d" .
      have "length (take (unat ?w) c) = unat ?w" "length (take ?p d) = ?p" using cw fits by simp_all
      then have "update_body (take (unat ?w) c) (take ?p d) (drop ?p d) =
          [w0, w1] @ take (unat ?w) c @ [p0, p1] @ take ?p d @ drop ?p d"
        unfolding update_body_def by simp
      with c b have "b = update_body (take (unat ?w) c) (take ?p d) (drop ?p d)"
        by (simp only: append_Cons append_Nil)
      moreover have "length (take (unat ?w) c) < 65534" "length (take ?p d) < 65536"
        using w unat_u16_less [of "u16_of p0 p1"] by auto
      ultimately show ?thesis using no by blast
    qed
  qed
qed (simp add: Decode_def)

section \<open>Callbacks that return\<close>

text \<open>What the decoder relies on to return itself: none of its three callbacks faults.\<close>

locale update_callbacks =
  fixes s :: "'t UpdateDecoder"
  assumes wr_total: "wrFn s t b \<noteq> Fault f"
    and pa_total: "paFn s t ty flags b \<noteq> Fault f"
    and nlri_total: "nlriFn s t b \<noteq> Fault f"
begin

lemma attrs_total: "attrs_spec (paFn s) hasNLRI left as t me S \<noteq> Fault f"
  by (induction "paFn s" hasNLRI left as t me S rule: attrs_spec.induct)
     (auto simp: go_bind_Fault_iff pa_total split: if_splits)

lemma stage_total: "m \<noteq> Fault f \<Longrightarrow> (\<And>t. k t \<noteq> Fault f) \<Longrightarrow> then_stage m k \<noteq> Fault f"
  by (auto simp: then_stage_def go_bind_Fault_iff split: if_splits)

lemma stages_total: "decode_stages s t wr pa nlri \<noteq> Fault f"
  unfolding decode_stages_def
  by (intro stage_total) (simp_all add: wr_total nlri_total decodePathAttrs_spec attrs_total)

lemma decode_total: "length b \<le> 65537 \<Longrightarrow> Decode s t b \<noteq> Fault f"
proof (cases "\<exists>wr pa nlri. length wr < 65534 \<and> length pa < 65536 \<and> b = update_body wr pa nlri")
  case True
  then show ?thesis by (auto simp: Decode_update_body stages_total)
next
  case False
  assume "length b \<le> 65537"
  then have "Decode s t b = Val (t, Some (NotificationErr
      (if length b < 4 then updateMessageErr else malformedAttrList)))"
    by (rule Decode_refuses) (use False in blast)
  then show ?thesis by simp
qed

end

section \<open>Multiprotocol attributes\<close>

definition mp_reach_bytes :: "u16 \<Rightarrow> u8 \<Rightarrow> bytes \<Rightarrow> u8 \<Rightarrow> bytes \<Rightarrow> bytes" where
  "mp_reach_bytes afi safi nh reserved nlri =
     PutUint16 afi @ [safi, of_nat (length nh)] @ nh @ [reserved] @ nlri"

lemma drop_PutUint16_cons: "drop 4 (PutUint16 v @ a # b # r) = r" "(PutUint16 v @ a # b # r) ! 2 = a"
  "(PutUint16 v @ a # b # r) ! 3 = b"
  by (simp_all add: PutUint16_def eval_nat_numeral)

lemma NewMPReachNLRIDecodeFn_bytes:
  assumes "length nh < 256"
  shows "NewMPReachNLRIDecodeFn fn t flags (mp_reach_bytes afi safi nh reserved nlri) =
    go_bind (fn t afi safi nh (if length nh = 255 then nh @ reserved # nlri else nlri)) (\<lambda>(t', err).
      Val (t', errors_Join (flags_Validate flags PATH_ATTR_MP_REACH_NLRI
        (mp_reach_bytes afi safi nh reserved nlri) True False) err))"
proof -
  have l: "unat (of_nat (length nh) :: u8) = length nh" using assms by (rule unat_u8_of_nat)
  have l1: "unat (of_nat (length nh) + 1 :: u8) = (if length nh = 255 then 0 else length nh + 1)"
    unfolding unat_word_ariths l using assms by simp
  show ?thesis
    by (simp add: NewMPReachNLRIDecodeFn_def mp_reach_bytes_def l l1 Let_def drop_PutUint16_cons)
qed

lemma NewMPReachNLRIDecodeFn_refuses:
  assumes "\<And>afi safi nh reserved nlri. length nh < 256 \<Longrightarrow> b \<noteq> mp_reach_bytes afi safi nh reserved nlri"
  shows "NewMPReachNLRIDecodeFn fn t flags b =
    Val (t, errors_Join (flags_Validate flags PATH_ATTR_MP_REACH_NLRI b True False)
      (Some (NotificationErr mpLenErr)))"
proof (cases "length b < 5")
  case False
  then have "4 \<le> length b" by simp
  then obtain a0 a1 safi l r where b: "b = a0 # a1 # safi # l # r" by (rule bytes4E)
  show ?thesis
  proof (cases "length r < unat l + 1")
    case True
    with False show ?thesis by (simp add: NewMPReachNLRIDecodeFn_def b Let_def)
  next
    case fits: False
    then obtain reserved nlri where d: "drop (unat l) r = reserved # nlri"
      by (cases "drop (unat l) r") auto
    have len: "length (take (unat l) r) = unat l" using fits by simp
    have "r = take (unat l) r @ reserved # nlri" using append_take_drop_id [of "unat l" r] d by simp
    then have "b = mp_reach_bytes (u16_of a0 a1) safi (take (unat l) r) reserved nlri"
      by (simp add: b mp_reach_bytes_def len del: length_take)
    moreover have "length (take (unat l) r) < 256" unfolding len by (rule unat_u8_less)
    ultimately show ?thesis using assms by blast
  qed
qed (simp add: NewMPReachNLRIDecodeFn_def Let_def)

lemma NewMPUnreachNLRIDecodeFn_bytes:
  "NewMPUnreachNLRIDecodeFn fn t flags (PutUint16 afi @ safi # withdrawn) =
    go_bind (fn t afi safi withdrawn) (\<lambda>(t', err).
      Val (t', errors_Join (flags_Validate flags PATH_ATTR_MP_UNREACH_NLRI
        (PutUint16 afi @ safi # withdrawn) True False) err))"
  by (simp add: NewMPUnreachNLRIDecodeFn_def Let_def nth_append eval_nat_numeral)

section \<open>Properties\<close>

text \<open>
  C9. \<open>decodePathAttrs\<close> refines the specification on framed attributes: the bitmap behaves as
  a set of codes, the first attribute of each code reaches the callback, later ones are
  discarded, a repeated MP_REACH_NLRI or MP_UNREACH_NLRI and a callback error holding a
  \<open>*Notification\<close> end the decoding, left-over octets and missing mandatory attributes are
  reported, and all errors are joined in order. For every callback and every field.
\<close>

theorem decode_path_attrs_refines:
  "decodePathAttrs pa t b hasNLRI =
     (if b = [] then Val (t, None)
      else attrs_spec pa hasNLRI (snd (frames b)) (fst (frames b)) t None {})"
  by (rule decodePathAttrs_spec)

text \<open>
  C35. When the decoding of the path attributes returns, the callback has been given attributes
  of pairwise different codes, in order, each the first of its code in the field; and unless
  the result holds a \<open>*Notification\<close> it has been given the first attribute of every code.
\<close>

theorem path_attrs_first_of_each_code:
  assumes "decodePathAttrs (logged pa) ([], t) b hasNLRI = Val ((l, t'), e)"
  shows "decodePathAttrs pa t b hasNLRI = Val (t', e) \<and> distinct (map attr_code l) \<and>
    prefix l (firsts {} (fst (frames b))) \<and> (\<not> resets e \<longrightarrow> l = firsts {} (fst (frames b)))"
proof (cases "b = []")
  case True
  with assms show ?thesis by (simp add: decodePathAttrs_spec frames.simps)
next
  case False
  with assms have *: "decodePathAttrs pa t b hasNLRI = Val (t', e)"
    "prefix l (firsts {} (fst (frames b)))" "\<not> resets e \<longrightarrow> l = firsts {} (fst (frames b))"
    using attrs_spec_logged by (fastforce simp: decodePathAttrs_spec)+
  from *(2) obtain r where "firsts {} (fst (frames b)) = l @ r" by (rule prefixE)
  with firsts_distinct [of "{}" "fst (frames b)"] have "distinct (map attr_code l)" by simp
  with * show ?thesis by blast
qed

theorem path_attrs_first_of_each_code_witness:
  "let b = [0x40, 1, 1, 0, 0x40, 1, 1, 2, 0x40, 2, 0] in
   decodePathAttrs (logged (\<lambda>t ty flags v. Val (t, None))) ([], ()) b True =
     Val (([(0x40, 1, [0]), (0x40, 2, [])], ()), None) \<and>
   distinct (map attr_code [(0x40, 1, [0]), (0x40, 2, [])])"
proof -
  have *: "decodePathAttrs (logged (\<lambda>t ty flags v. Val (t, None))) ([], ())
      [0x40, 1, 1, 0, 0x40, 1, 1, 2, 0x40, 2, 0] True =
      Val (([(0x40, 1, [0]), (0x40, 2, [])], ()), None)"
    by code_simp
  show ?thesis unfolding Let_def using path_attrs_first_of_each_code [OF *] * by blast
qed



text \<open>
  C17. On a body made of withdrawn routes, path attributes and NLRI, \<open>Decode\<close> hands each field
  to its decoder, in this order and cut exactly at the two lengths, tells the attribute
  decoder whether NLRI follows, joins the errors, and stops after the first stage whose error
  holds a \<open>*Notification\<close>. The withdrawn routes may have up to 65533 octets; beyond that the
  16-bit sum \<open>wrl+2\<close> wraps around.
\<close>

theorem decode_runs_the_stages:
  assumes "length wr < 65534" "length pa < 65536"
  shows "Decode s t (update_body wr pa nlri) = decode_stages s t wr pa nlri"
  using assms by (rule Decode_update_body)

theorem decode_runs_the_stages_witness:
  "let s = NewUpdateDecoder (\<lambda>t b. Val (t @ [(0, b)], None)) (\<lambda>t ty flags v. Val (t @ [(ty, v)], None))
       (\<lambda>t b. Val (t @ [(255 :: u8, b)], None)) in
   Decode s [] (update_body [16, 10, 0] [0x40, 1, 1, 0, 0x40, 2, 0] [8, 10]) =
     Val ([(0, [16, 10, 0]), (1, [0]), (2, []), (255, [8, 10])], None)"
proof -
  let ?s = "NewUpdateDecoder (\<lambda>t b. Val (t @ [(0, b)], None)) (\<lambda>t ty flags v. Val (t @ [(ty, v)], None))
    (\<lambda>t b. Val (t @ [(255 :: u8, b)], None))"
  have "decode_stages ?s [] [16, 10, 0] [0x40, 1, 1, 0, 0x40, 2, 0] [8, 10] =
      Val ([(0, [16, 10, 0]), (1, [0]), (2, []), (255, [8, 10])], None)" by code_simp
  then show ?thesis unfolding Let_def by (subst decode_runs_the_stages) simp_all
qed

text \<open>
  C37. A body of at most 65537 octets that is not of that form is refused by a
  \<open>*Notification\<close> before any of the three decoders runs: a bare UPDATE Message Error below
  four octets, else Malformed Attribute List.
\<close>

theorem decode_refuses_bad_lengths:
  assumes "length b \<le> 65537"
    and "\<nexists>wr pa nlri. length wr < 65534 \<and> length pa < 65536 \<and> b = update_body wr pa nlri"
  shows "Decode s t b = Val (t, Some (NotificationErr
    (if length b < 4 then updateMessageErr else malformedAttrList)))"
  using assms(1) by (rule Decode_refuses) (use assms(2) in blast)

theorem decode_refuses_bad_lengths_witness:
  "Decode (NewUpdateDecoder (\<lambda>t b. Val (t, None)) (\<lambda>t ty flags v. Val (t, None)) (\<lambda>t b. Val (t, None)))
     () [0, 1] = Val ((), Some (NotificationErr updateMessageErr)) \<and>
   (\<nexists>wr pa nlri. length wr < 65534 \<and> length pa < 65536 \<and> [0, 1] = update_body wr pa nlri)"
proof -
  have *: "\<nexists>wr pa nlri. length wr < 65534 \<and> length pa < 65536 \<and> [0, 1] = update_body wr pa nlri"
  proof
    assume "\<exists>wr pa nlri. length wr < 65534 \<and> length pa < 65536 \<and> [0, 1] = update_body wr pa nlri"
    then obtain wr pa nlri where "[0, 1] = update_body wr pa nlri" by blast
    then have "length [0 :: u8, 1] = length (update_body wr pa nlri)" by simp
    then show False by (simp add: update_body_def)
  qed
  show ?thesis using decode_refuses_bad_lengths [OF _ *] * by simp
qed

text \<open>
  C38. An MP_REACH_NLRI value is cut into AFI, SAFI, next hop and NLRI, and the error of the
  flags is joined to the error of the closure. The reserved octet is skipped, except for a next
  hop of 255 octets, where the 8-bit sum \<open>nhLen+1\<close> wraps to zero and the closure is given next
  hop, reserved octet and NLRI together as the NLRI.
\<close>

theorem mp_reach_cut:
  assumes "length nh < 256"
  shows "NewMPReachNLRIDecodeFn fn t flags (mp_reach_bytes afi safi nh reserved nlri) =
    go_bind (fn t afi safi nh (if length nh = 255 then nh @ reserved # nlri else nlri)) (\<lambda>(t', err).
      Val (t', errors_Join (flags_Validate flags PATH_ATTR_MP_REACH_NLRI
        (mp_reach_bytes afi safi nh reserved nlri) True False) err))"
  using assms by (rule NewMPReachNLRIDecodeFn_bytes)

theorem mp_reach_cut_witness:
  "NewMPReachNLRIDecodeFn (\<lambda>t afi safi nh nlri. Val ((afi, safi, nh, nlri), None)) (0, 0, [], []) 0x80
     (mp_reach_bytes 2 1 [32, 1] 0 [8, 32]) = Val ((2, 1, [32, 1], [8, 32]), None)"
proof -
  have "flags_Validate 0x80 PATH_ATTR_MP_REACH_NLRI (mp_reach_bytes 2 1 [32, 1] 0 [8, 32]) True False = None"
    by code_simp
  then show ?thesis by (subst mp_reach_cut) (simp_all add: errors_Join_def)
qed

end
