(* ===== verification/Packet.thy ===== *)
theory Packet
  imports Errors Netip
begin

text \<open>
  The BGP messages of \<open>src/packet.go\<close>: the message header, NOTIFICATION, OPEN with its
  optional parameters and capabilities, UPDATE (an uninterpreted body at this level) and
  KEEPALIVE; the ADD-PATH and multiprotocol capabilities; and the validation of a received
  OPEN. Every decoder is a function of the bytes; every slice and index expression can fault,
  and the \<open>uint8\<close> arithmetic on length octets wraps as it does in the code.
\<close>

section \<open>Messages\<close>

definition openMessageType :: u8 where [simp]: "openMessageType = 1"
definition updateMessageType :: u8 where [simp]: "updateMessageType = 2"
definition notificationMessageType :: u8 where [simp]: "notificationMessageType = 3"
definition keepAliveMessageType :: u8 where [simp]: "keepAliveMessageType = 4"
definition headerLength :: nat where [simp]: "headerLength = 19"
definition asTrans :: u16 where [simp]: "asTrans = 23456"
definition capabilityOptionalParamType :: u8 where [simp]: "capabilityOptionalParamType = 2"

record Capability =
  CapCode :: u8
  CapValue :: bytes

datatype optionalParam = CapabilityOptionalParam (capabilities: "Capability list")

record openMessage =
  version :: u8
  asn :: u16
  o_holdTime :: u16
  bgpID :: u32
  optionalParams :: "optionalParam list"

datatype message =
    OpenMsg openMessage
  | UpdateMsg bytes
  | NotificationMsg Notification
  | KeepAliveMsg

fun messageType :: "message \<Rightarrow> u8" where
  "messageType (OpenMsg _) = openMessageType"
| "messageType (UpdateMsg _) = updateMessageType"
| "messageType (NotificationMsg _) = notificationMessageType"
| "messageType KeepAliveMsg = keepAliveMessageType"

section \<open>Encoding\<close>

definition prependHeader :: "bytes \<Rightarrow> u8 \<Rightarrow> bytes" where
  "prependHeader m t =
     replicate 16 0xFF @ PutUint16 (of_nat (length m + headerLength)) @ [t] @ m"

definition Notification_encode :: "Notification \<Rightarrow> bytes" where
  "Notification_encode n =
     (let b = [Code n, Subcode n];
          b = (if length (Data n) > 1 then b @ Data n else b)
      in prependHeader b notificationMessageType)"

definition keepAliveMessage_encode :: bytes where
  "keepAliveMessage_encode = prependHeader [] keepAliveMessageType"

definition Capability_encode :: "Capability \<Rightarrow> bytes" where
  "Capability_encode c = CapCode c # of_nat (length (CapValue c)) # CapValue c"

definition Capability_Equal :: "Capability \<Rightarrow> Capability \<Rightarrow> bool" where
  "Capability_Equal c d = (if CapCode c \<noteq> CapCode d then False else CapValue c = CapValue d)"

definition capabilityOptionalParam_encode :: "Capability list \<Rightarrow> error + bytes" where
  "capabilityOptionalParam_encode cs =
     (if length cs > 0
      then let caps = concat (map Capability_encode cs)
           in Inr (capabilityOptionalParamType # of_nat (length caps) # caps)
      else Inl (PlainErr ''empty capabilities in capability optional param''))"

fun optionalParam_encode :: "optionalParam \<Rightarrow> error + bytes" where
  "optionalParam_encode (CapabilityOptionalParam cs) = capabilityOptionalParam_encode cs"

fun encode_params :: "optionalParam list \<Rightarrow> bytes \<Rightarrow> error + bytes" where
  "encode_params [] params = Inr params"
| "encode_params (p # ps) params =
     (case optionalParam_encode p of
        Inl err \<Rightarrow> Inl err
      | Inr b \<Rightarrow> encode_params ps (params @ b))"

definition openMessage_encode :: "openMessage \<Rightarrow> error + bytes" where
  "openMessage_encode o' =
     (case encode_params (optionalParams o') [] of
        Inl err \<Rightarrow> Inl err
      | Inr params \<Rightarrow>
          Inr (prependHeader
            (version o' # PutUint16 (asn o') @ PutUint16 (o_holdTime o') @ PutUint32 (bgpID o') @
             of_nat (length params) # params) openMessageType))"

section \<open>Decoding\<close>

definition Notification_decode :: "bytes \<Rightarrow> Notification ret" where
  "Notification_decode b =
     (if length b < 2 then fail (PlainErr ''notification message too short'')
      else
        go_bind (go_index b 0) (\<lambda>code. go_bind (go_index b 1) (\<lambda>subcode.
        if length b > 2
        then go_bind (go_slice_from b 2) (\<lambda>d. ok \<lparr>Code = code, Subcode = subcode, Data = d\<rparr>)
        else ok \<lparr>Code = code, Subcode = subcode, Data = []\<rparr>)))"

definition openErr :: "u8 \<Rightarrow> bytes \<Rightarrow> error" where
  "openErr subcode data =
     newNotificationError (newNotification NOTIF_CODE_OPEN_MESSAGE_ERR subcode data) True"

text \<open>
  The body of the loop of \<open>capabilityOptionalParam.decode\<close>: one capability off the front of
  \<open>b\<close>. The upper bound of the slice expression is \<open>capLen+2\<close> in \<open>uint8\<close>.
\<close>

definition capability_item :: "bytes \<Rightarrow> (Capability \<times> bytes) ret" where
  "capability_item b =
     (if length b < 2 then fail (openErr 0 [])
      else
        go_bind (go_index b 0) (\<lambda>capCode. go_bind (go_index b 1) (\<lambda>capLen.
        if length b < unat capLen + 2 then fail (openErr 0 [])
        else
          go_bind (if capLen > 0 then go_slice b 2 (unat (capLen + 2)) else Val []) (\<lambda>capValue.
          go_bind (go_slice_from b (2 + unat capLen)) (\<lambda>b'.
          ok (\<lparr>CapCode = capCode, CapValue = capValue\<rparr>, b'))))))"

lemma capability_item_shrinks: "capability_item b = ok (c, b') \<Longrightarrow> length b' < length b"
  by (auto simp: capability_item_def go_iffs go_slice_from_Val_iff split: if_splits)

function capabilityOptionalParam_decode ::
    "bytes \<Rightarrow> Capability list \<Rightarrow> (Capability list) ret" where
  "capabilityOptionalParam_decode b cs =
     try_bind (capability_item b) (\<lambda>(c, b').
       if b' = [] then ok (cs @ [c]) else capabilityOptionalParam_decode b' (cs @ [c]))"
  by pat_completeness auto
termination
  by (relation "measure (\<lambda>(b, cs). length b)") (auto dest: capability_item_shrinks)

declare capabilityOptionalParam_decode.simps [simp del]

text \<open>The body of the loop of \<open>decodeOptionalParams\<close>.\<close>

definition optionalParam_item :: "bytes \<Rightarrow> (optionalParam \<times> bytes) ret" where
  "optionalParam_item b =
     (if length b < 2 then fail (openErr 0 [])
      else
        go_bind (go_index b 0) (\<lambda>paramCode. go_bind (go_index b 1) (\<lambda>paramLen.
        if length b < unat paramLen + 2 then fail (openErr 0 [])
        else
          go_bind (if paramLen > 0 then go_slice b 2 (unat (paramLen + 2)) else Val [])
            (\<lambda>paramToDecode.
          go_bind (go_slice_from b (2 + unat paramLen)) (\<lambda>b'.
          if paramCode = capabilityOptionalParamType
          then try_bind (capabilityOptionalParam_decode paramToDecode []) (\<lambda>cs.
                 ok (CapabilityOptionalParam cs, b'))
          else fail (openErr NOTIF_SUBCODE_UNSUPPORTED_OPTIONAL_PARAM []))))))"

lemma optionalParam_item_shrinks: "optionalParam_item b = ok (p, b') \<Longrightarrow> length b' < length b"
  by (auto simp: optionalParam_item_def go_iffs go_slice_from_Val_iff split: if_splits)

function decodeOptionalParams :: "bytes \<Rightarrow> optionalParam list \<Rightarrow> (optionalParam list) ret" where
  "decodeOptionalParams b params =
     try_bind (optionalParam_item b) (\<lambda>(p, b').
       if b' = [] then ok (params @ [p]) else decodeOptionalParams b' (params @ [p]))"
  by pat_completeness auto
termination
  by (relation "measure (\<lambda>(b, ps). length b)") (auto dest: optionalParam_item_shrinks)

declare decodeOptionalParams.simps [simp del]

definition openMessage_decode :: "bytes \<Rightarrow> openMessage ret" where
  "openMessage_decode b =
     (if length b < 10
      then fail (newNotificationError
             (newNotification NOTIF_CODE_MESSAGE_HEADER_ERR NOTIF_SUBCODE_BAD_MESSAGE_LEN b) True)
      else
        go_bind (go_index b 0) (\<lambda>ver.
        go_bind (go_bind (go_slice b 1 3) Uint16) (\<lambda>as'.
        go_bind (go_bind (go_slice b 3 5) Uint16) (\<lambda>ht.
        go_bind (go_bind (go_slice b 5 9) Uint32) (\<lambda>ident.
        go_bind (go_index b 9) (\<lambda>optionalParamsLen.
        if unat optionalParamsLen \<noteq> length b - 10 then fail (openErr 0 [])
        else
          go_bind (go_slice_from b 10) (\<lambda>rest.
          try_bind (decodeOptionalParams rest []) (\<lambda>ps.
          ok \<lparr>version = ver, asn = as', o_holdTime = ht, bgpID = ident,
              optionalParams = ps\<rparr>))))))))"

definition messageFromBytes :: "bytes \<Rightarrow> u8 \<Rightarrow> message ret" where
  "messageFromBytes b t =
     (if t = openMessageType then try_bind (openMessage_decode b) (\<lambda>o'. ok (OpenMsg o'))
      else if t = updateMessageType then ok (UpdateMsg b)
      else if t = notificationMessageType
        then try_bind (Notification_decode b) (\<lambda>n. ok (NotificationMsg n))
      else if t = keepAliveMessageType then ok KeepAliveMsg
      else fail (newNotificationError
             (newNotification NOTIF_CODE_MESSAGE_HEADER_ERR NOTIF_SUBCODE_BAD_MESSAGE_TYPE [t])
             True))"

section \<open>ADD-PATH and multiprotocol capabilities\<close>

record AddPathTuple =
  AFI :: u16
  SAFI :: u8
  Tx :: bool
  Rx :: bool

text \<open>
  \<open>AddPathTuple.Decode\<close> writes into its receiver: \<open>Tx\<close> and \<open>Rx\<close> are only ever set, and
  \<open>AFI\<close> and \<open>SAFI\<close> stay written when the direction octet is refused.
\<close>

definition AddPathTuple_Decode :: "AddPathTuple \<Rightarrow> bytes \<Rightarrow> (AddPathTuple \<times> error option) go" where
  "AddPathTuple_Decode a b =
     (let err = NotificationErr \<lparr>Code = NOTIF_CODE_OPEN_MESSAGE_ERR, Subcode = 0, Data = []\<rparr> in
      if length b < 4 then Val (a, Some err)
      else
        go_bind (Uint16 b) (\<lambda>afi. go_bind (go_index b 2) (\<lambda>safi. go_bind (go_index b 3) (\<lambda>d.
        let a = a\<lparr>AFI := afi, SAFI := safi\<rparr> in
        if d = 3 then Val (a\<lparr>Tx := True, Rx := True\<rparr>, None)
        else if d = 2 then Val (a\<lparr>Tx := True\<rparr>, None)
        else if d = 1 then Val (a\<lparr>Rx := True\<rparr>, None)
        else Val (a, Some err)))))"

definition AddPathTuple_zero :: AddPathTuple where
  "AddPathTuple_zero = \<lparr>AFI = 0, SAFI = 0, Tx = False, Rx = False\<rparr>"

text \<open>The body of the loop of \<open>DecodeAddPathTuples\<close>.\<close>

definition addPathTuple_item :: "bytes \<Rightarrow> (AddPathTuple \<times> bytes) ret" where
  "addPathTuple_item b =
     go_bind (AddPathTuple_Decode AddPathTuple_zero b) (\<lambda>(a, err).
       case err of
         Some e \<Rightarrow> fail e
       | None \<Rightarrow> go_bind (go_slice_from b 4) (\<lambda>b'. ok (a, b')))"

lemma addPathTuple_item_shrinks:
  "b \<noteq> [] \<Longrightarrow> addPathTuple_item b = ok (a, b') \<Longrightarrow> length b' < length b"
  by (auto simp: addPathTuple_item_def go_iffs go_slice_from_Val_iff split: option.splits)

function addPathTuples_loop :: "bytes \<Rightarrow> AddPathTuple list \<Rightarrow> (AddPathTuple list) ret" where
  "addPathTuples_loop b tuples =
     (if b = [] then ok tuples
      else try_bind (addPathTuple_item b) (\<lambda>(a, b'). addPathTuples_loop b' (tuples @ [a])))"
  by pat_completeness auto
termination
  by (relation "measure (\<lambda>(b, ts). length b)") (auto dest: addPathTuple_item_shrinks)

declare addPathTuples_loop.simps [simp del]

definition DecodeAddPathTuples :: "bytes \<Rightarrow> (AddPathTuple list) ret" where
  "DecodeAddPathTuples b =
     (if length b = 0 \<or> length b mod 4 \<noteq> 0
      then fail (NotificationErr \<lparr>Code = NOTIF_CODE_OPEN_MESSAGE_ERR, Subcode = 0, Data = []\<rparr>)
      else addPathTuples_loop b [])"

definition AddPathTuple_Encode :: "AddPathTuple \<Rightarrow> bytes" where
  "AddPathTuple_Encode a =
     PutUint16 (AFI a) @ [SAFI a, if Tx a \<and> Rx a then 3 else if Tx a then 2 else if Rx a then 1 else 0]"

definition NewAddPathCapability :: "AddPathTuple list \<Rightarrow> Capability" where
  "NewAddPathCapability tuples =
     \<lparr>CapCode = CAP_ADD_PATH, CapValue = concat (map AddPathTuple_Encode tuples)\<rparr>"

definition NewMPExtensionsCapability :: "u16 \<Rightarrow> u8 \<Rightarrow> Capability" where
  "NewMPExtensionsCapability afi safi =
     \<lparr>CapCode = CAP_MP_EXTENSIONS, CapValue = PutUint16 afi @ [0, safi]\<rparr>"

section \<open>Building and validating an OPEN\<close>

text \<open>A \<open>time.Duration\<close> is a number of nanoseconds.\<close>

type_synonym duration = int

definition Second :: duration where "Second = 1000000000"

definition go_quot :: "int \<Rightarrow> int \<Rightarrow> int" where
  "go_quot a b = (if a < 0 then - ((- a) div b) else a div b)"

definition newFourOctetASCap :: "u32 \<Rightarrow> Capability" where
  "newFourOctetASCap as' = \<lparr>CapCode = CAP_FOUR_OCTET_AS, CapValue = PutUint32 as'\<rparr>"

definition newOpenMessage ::
    "u32 \<Rightarrow> duration \<Rightarrow> u32 \<Rightarrow> Capability list \<Rightarrow> openMessage" where
  "newOpenMessage as' holdTime ident caps =
     \<lparr>version = 4,
      asn = (if as' > 65535 then asTrans else ucast as'),
      o_holdTime = of_int (go_quot holdTime Second),
      bgpID = ident,
      optionalParams =
        [CapabilityOptionalParam
           (newFourOctetASCap as' # filter (\<lambda>c. CapCode c \<noteq> CAP_FOUR_OCTET_AS) caps)]\<rparr>"

definition getCapabilities :: "openMessage \<Rightarrow> Capability list" where
  "getCapabilities o' = concat (map capabilities (optionalParams o'))"

text \<open>The loop of \<open>validate\<close> over the capabilities; the result is \<open>fourOctetASFound\<close>.\<close>

fun validate_caps :: "Capability list \<Rightarrow> u32 \<Rightarrow> bool \<Rightarrow> bool ret" where
  "validate_caps [] remoteAS found = ok found"
| "validate_caps (c # cs) remoteAS found =
     (if CapCode c = CAP_FOUR_OCTET_AS
      then if length (CapValue c) \<noteq> 4 then fail (openErr 0 [])
           else go_bind (Uint32 (CapValue c)) (\<lambda>v.
             if v \<noteq> remoteAS then fail (openErr NOTIF_SUBCODE_BAD_PEER_AS [])
             else validate_caps cs remoteAS True)
      else validate_caps cs remoteAS found)"

definition openMessage_validate :: "openMessage \<Rightarrow> u32 \<Rightarrow> u32 \<Rightarrow> u32 \<Rightarrow> unit ret" where
  "openMessage_validate o' localID localAS remoteAS =
     (if version o' \<noteq> 4
      then fail (openErr NOTIF_SUBCODE_UNSUPPORTED_VERSION_NUM (PutUint16 4))
      else if asn o' \<noteq> asTrans \<and> ucast (asn o') \<noteq> remoteAS
      then fail (openErr NOTIF_SUBCODE_BAD_PEER_AS [])
      else if o_holdTime o' < 3 \<and> o_holdTime o' \<noteq> 0
      then fail (openErr NOTIF_SUBCODE_UNACCEPTABLE_HOLD_TIME [])
      else if IsMulticast (AddrFrom4 (PutUint32 (bgpID o')))
      then fail (openErr NOTIF_SUBCODE_BAD_BGP_ID [])
      else if localAS = remoteAS \<and> localID = bgpID o'
      then fail (openErr NOTIF_SUBCODE_BAD_BGP_ID [])
      else
        try_bind (validate_caps (getCapabilities o') remoteAS False) (\<lambda>fourOctetASFound.
        if asn o' = asTrans \<and> \<not> fourOctetASFound
        then fail (openErr NOTIF_SUBCODE_BAD_PEER_AS [])
        else if \<not> fourOctetASFound
        then fail (openErr NOTIF_SUBCODE_UNSUPPORTED_CAPABILITY
               (Capability_encode (newFourOctetASCap remoteAS)))
        else ok ()))"

section \<open>Well-formed messages\<close>

definition wf_capability :: "Capability \<Rightarrow> bool" where
  "wf_capability c \<longleftrightarrow> length (CapValue c) \<le> 253"

definition caps_bytes :: "Capability list \<Rightarrow> bytes" where
  "caps_bytes cs = concat (map Capability_encode cs)"

fun param_bytes :: "optionalParam \<Rightarrow> bytes" where
  "param_bytes (CapabilityOptionalParam cs) =
     capabilityOptionalParamType # of_nat (length (caps_bytes cs)) # caps_bytes cs"

fun wf_param :: "optionalParam \<Rightarrow> bool" where
  "wf_param (CapabilityOptionalParam cs) \<longleftrightarrow>
     cs \<noteq> [] \<and> list_all wf_capability cs \<and> length (caps_bytes cs) \<le> 253"

definition wf_open :: "openMessage \<Rightarrow> bool" where
  "wf_open o' \<longleftrightarrow>
     optionalParams o' \<noteq> [] \<and> list_all wf_param (optionalParams o') \<and>
     length (concat (map param_bytes (optionalParams o'))) \<le> 255"

definition wf_tuple :: "AddPathTuple \<Rightarrow> bool" where
  "wf_tuple a \<longleftrightarrow> Tx a \<or> Rx a"

section \<open>The capability and parameter codecs\<close>

text \<open>The slice bound \<open>n+2\<close>, computed in \<open>uint8\<close>, is right exactly when it does not wrap.\<close>

lemma unat_add2_u8: "unat (n + 2 :: u8) = (if unat n < 254 then unat n + 2 else unat n - 254)"
  using unat_u8_less [of n] by (auto simp: unat_word_ariths mod_if)

lemma u8_gt_0_unat: "0 < (n :: u8) \<longleftrightarrow> 0 < unat n"
  by (simp add: word_less_nat_alt)

text \<open>
  Both loop bodies read a type octet, a length octet and a value; this is the part they share.
\<close>

lemma tlv_slice:
  fixes n :: u8
  assumes "unat n + 2 \<le> length b"
  shows "(if n > 0 then go_slice b 2 (unat (n + 2)) else Val []) =
     (if unat n < 254 then Val (take (unat n) (drop 2 b)) else Fault SliceOutOfRange)"
  using assms unat_u8_less [of n]
  by (auto simp: go_slice_def u8_gt_0_unat unat_add2_u8 word_gt_0 unat_eq_zero)

lemma capability_item_eq:
  "capability_item b =
     (if length b < 2 \<or> length b < unat (b ! 1) + 2 then fail (openErr 0 [])
      else if unat (b ! 1) < 254
      then ok (\<lparr>CapCode = b ! 0, CapValue = take (unat (b ! 1)) (drop 2 b)\<rparr>,
               drop (2 + unat (b ! 1)) b)
      else Fault SliceOutOfRange)"
  unfolding capability_item_def by (auto simp: tlv_slice go_index_def)

lemma optionalParam_item_eq:
  "optionalParam_item b =
     (if length b < 2 \<or> length b < unat (b ! 1) + 2 then fail (openErr 0 [])
      else if \<not> unat (b ! 1) < 254 then Fault SliceOutOfRange
      else if b ! 0 = capabilityOptionalParamType
      then try_bind (capabilityOptionalParam_decode (take (unat (b ! 1)) (drop 2 b)) [])
             (\<lambda>cs. ok (CapabilityOptionalParam cs, drop (2 + unat (b ! 1)) b))
      else fail (openErr NOTIF_SUBCODE_UNSUPPORTED_OPTIONAL_PARAM []))"
  unfolding optionalParam_item_def by (auto simp: tlv_slice go_index_def)

lemma capability_bytes_valid:
  assumes "wf_capability c"
  shows "capability_item (Capability_encode c @ r) = ok (c, r)"
proof -
  have "unat (of_nat (length (CapValue c)) :: u8) = length (CapValue c)"
    using assms by (simp add: wf_capability_def unat_u8_of_nat)
  with assms show ?thesis
    by (simp add: capability_item_eq Capability_encode_def wf_capability_def)
qed

lemma tlv_bytes:
  assumes "2 \<le> length b" "unat (b ! 1) + 2 \<le> length b"
  shows "b = b ! 0 # b ! 1 # take (unat (b ! 1)) (drop 2 b) @ drop (2 + unat (b ! 1)) b"
  using list_split_at2 [OF assms(1)]
  by (metis append_take_drop_id drop_drop add.commute)

interpretation capCodec: item_loop1 capability_item Capability_encode wf_capability
  capabilityOptionalParam_decode
proof unfold_locales
  fix c r assume "wf_capability c"
  then show "capability_item (Capability_encode c @ r) = ok (c, r)"
    by (rule capability_bytes_valid)
next
  fix b c r assume *: "capability_item b = ok (c, r)"
  then have len: "2 \<le> length b" "unat (b ! 1) + 2 \<le> length b"
    and c: "c = \<lparr>CapCode = b ! 0, CapValue = take (unat (b ! 1)) (drop 2 b)\<rparr>"
    and r: "r = drop (2 + unat (b ! 1)) b" and lt: "unat (b ! 1) < 254"
    by (auto simp: capability_item_eq split: if_splits)
  from len have n: "length (take (unat (b ! 1)) (drop 2 b)) = unat (b ! 1)" by simp
  have "Capability_encode c @ r = b"
    using tlv_bytes [OF len] n by (simp add: c r Capability_encode_def)
  then show "wf_capability c \<and> b = Capability_encode c @ r"
    using n lt by (simp add: c wf_capability_def)
qed (simp_all add: Capability_encode_def capabilityOptionalParam_decode.simps)

lemma capability_item_total: "length b \<le> 255 \<Longrightarrow> capability_item b \<noteq> Fault f"
  by (simp add: capability_item_eq)

lemma capabilityOptionalParam_decode_total:
  "length b \<le> 255 \<Longrightarrow> capabilityOptionalParam_decode b cs \<noteq> Fault f"
  using capCodec.loop_no_fault [OF capability_item_total, of 255 b cs f] by simp

lemma param_bytes_valid:
  assumes "wf_param p"
  shows "optionalParam_item (param_bytes p @ r) = ok (p, r)"
proof (cases p)
  case (CapabilityOptionalParam cs)
  with assms have wf: "cs \<noteq> []" "list_all wf_capability cs" "length (caps_bytes cs) \<le> 253"
    by simp_all
  then have "unat (of_nat (length (caps_bytes cs)) :: u8) = length (caps_bytes cs)"
    by (simp add: unat_u8_of_nat)
  moreover have "capabilityOptionalParam_decode (caps_bytes cs) [] = ok cs"
    using wf by (simp add: capCodec.loop_iff caps_bytes_def)
  ultimately show ?thesis
    using wf CapabilityOptionalParam by (simp add: optionalParam_item_eq)
qed

interpretation paramCodec: item_loop1 optionalParam_item param_bytes wf_param decodeOptionalParams
proof unfold_locales
  fix p r assume "wf_param p"
  then show "optionalParam_item (param_bytes p @ r) = ok (p, r)"
    by (rule param_bytes_valid)
next
  fix b p r assume *: "optionalParam_item b = ok (p, r)"
  then obtain cs where len: "2 \<le> length b" "unat (b ! 1) + 2 \<le> length b"
    and ty: "b ! 0 = capabilityOptionalParamType" and lt: "unat (b ! 1) < 254"
    and cs: "capabilityOptionalParam_decode (take (unat (b ! 1)) (drop 2 b)) [] = ok cs"
    and p: "p = CapabilityOptionalParam cs" and r: "r = drop (2 + unat (b ! 1)) b"
    by (auto simp: optionalParam_item_eq try_bind_ok_iff split: if_splits)
  from cs have wf: "cs \<noteq> []" "list_all wf_capability cs"
    and bytes: "take (unat (b ! 1)) (drop 2 b) = caps_bytes cs"
    by (simp_all add: capCodec.loop_iff caps_bytes_def)
  from len bytes have n: "length (caps_bytes cs) = unat (b ! 1)"
    by (metis length_take length_drop add_le_imp_le_diff min.absorb2)
  have "param_bytes p @ r = b"
    using tlv_bytes [OF len] ty n bytes by (simp add: p r)
  then show "wf_param p \<and> b = param_bytes p @ r"
    using n lt wf by (simp add: p)
next
  fix p assume "wf_param p"
  then show "param_bytes p \<noteq> []" by (cases p) simp
qed (simp add: decodeOptionalParams.simps)

lemma optionalParam_item_total: "length b \<le> 255 \<Longrightarrow> optionalParam_item b \<noteq> Fault f"
  using capabilityOptionalParam_decode_total
  by (auto simp: optionalParam_item_eq try_bind_Fault_iff)

lemma decodeOptionalParams_total: "length b \<le> 255 \<Longrightarrow> decodeOptionalParams b ps \<noteq> Fault f"
  using paramCodec.loop_no_fault [OF optionalParam_item_total, of 255 b ps f] by simp

section \<open>The OPEN codec\<close>

definition open_body :: "openMessage \<Rightarrow> bytes" where
  "open_body o' =
     (let params = concat (map param_bytes (optionalParams o')) in
      version o' # PutUint16 (asn o') @ PutUint16 (o_holdTime o') @ PutUint32 (bgpID o') @
      of_nat (length params) # params)"

lemma encode_params_eq:
  "list_all wf_param ps \<Longrightarrow> encode_params ps acc = Inr (acc @ concat (map param_bytes ps))"
proof (induction ps arbitrary: acc)
  case (Cons p ps)
  then show ?case
    by (cases p) (simp add: capabilityOptionalParam_encode_def caps_bytes_def Let_def)
qed simp

lemma openMessage_encode_eq:
  "list_all wf_param (optionalParams o') \<Longrightarrow>
     openMessage_encode o' = Inr (prependHeader (open_body o') openMessageType)"
  by (simp add: openMessage_encode_def encode_params_eq open_body_def Let_def)

lemma bytes10E:
  assumes "10 \<le> length (b :: bytes)"
  obtains b0 b1 b2 b3 b4 b5 b6 b7 b8 b9 r
  where "b = b0 # b1 # b2 # b3 # b4 # b5 # b6 # b7 # b8 # b9 # r"
  using assms by (auto simp: Suc_le_length_iff eval_nat_numeral)

lemma openMessage_decode_Cons:
  "openMessage_decode (b0 # b1 # b2 # b3 # b4 # b5 # b6 # b7 # b8 # b9 # r) =
     (if unat b9 \<noteq> length r then fail (openErr 0 [])
      else try_bind (decodeOptionalParams r []) (\<lambda>ps.
        ok \<lparr>version = b0, asn = u16_of b1 b2, o_holdTime = u16_of b3 b4,
            bgpID = u32_of b5 b6 b7 b8, optionalParams = ps\<rparr>))"
  by (simp add: openMessage_decode_def)

lemma prependHeader_inject: "prependHeader a t = prependHeader b t \<longleftrightarrow> a = b"
  by (auto simp: prependHeader_def)

lemma openMessage_decode_open_body:
  assumes "wf_open o'"
  shows "openMessage_decode (open_body o') = ok o'"
proof -
  let ?ps = "concat (map param_bytes (optionalParams o'))"
  have len: "unat (of_nat (length ?ps) :: u8) = length ?ps"
    using assms by (simp add: wf_open_def unat_u8_of_nat)
  have "decodeOptionalParams ?ps [] = ok (optionalParams o')"
    using assms by (simp add: paramCodec.loop_iff wf_open_def)
  with len show ?thesis
    by (simp add: open_body_def PutUint16_def PutUint32_def openMessage_decode_Cons Let_def)
qed

lemma openMessage_decode_sound:
  assumes "openMessage_decode b = ok o'"
  shows "wf_open o' \<and> b = open_body o'"
proof -
  from assms have "10 \<le> length b"
    by (simp add: openMessage_decode_def split: if_splits)
  then obtain b0 b1 b2 b3 b4 b5 b6 b7 b8 b9 r
    where b: "b = b0 # b1 # b2 # b3 # b4 # b5 # b6 # b7 # b8 # b9 # r"
    by (rule bytes10E)
  from assms have n: "unat b9 = length r"
    by (simp add: b openMessage_decode_Cons split: if_splits)
  with assms obtain ps where ps: "decodeOptionalParams r [] = ok ps"
    and o': "o' = \<lparr>version = b0, asn = u16_of b1 b2, o_holdTime = u16_of b3 b4,
      bgpID = u32_of b5 b6 b7 b8, optionalParams = ps\<rparr>"
    by (auto simp: b openMessage_decode_Cons try_bind_ok_iff)
  from ps have "ps \<noteq> []" "list_all wf_param ps" and r: "r = concat (map param_bytes ps)"
    by (simp_all add: paramCodec.loop_iff)
  moreover have "length r \<le> 255" using n unat_u8_less [of b9] by simp
  moreover have "of_nat (length r) = b9" by (simp flip: n)
  ultimately show ?thesis
    by (simp add: wf_open_def open_body_def o' b Let_def flip: r)
qed

lemma openMessage_decode_total: "openMessage_decode b \<noteq> Fault f"
proof (cases "10 \<le> length b")
  case True
  then obtain b0 b1 b2 b3 b4 b5 b6 b7 b8 b9 r
    where b: "b = b0 # b1 # b2 # b3 # b4 # b5 # b6 # b7 # b8 # b9 # r"
    by (rule bytes10E)
  then show ?thesis
    using decodeOptionalParams_total [of r "[]"] unat_u8_less [of b9]
    by (auto simp: openMessage_decode_Cons try_bind_Fault_iff)
qed (simp add: openMessage_decode_def)

section \<open>The NOTIFICATION codec\<close>

lemma Notification_decode_Cons:
  "Notification_decode (c # s # d) = ok \<lparr>Code = c, Subcode = s, Data = d\<rparr>"
  by (simp add: Notification_decode_def)

lemma Notification_decode_total: "Notification_decode b \<noteq> Fault f"
  by (auto simp: Notification_decode_def go_index_def)

lemma drop_header: "drop 19 (prependHeader m t) = m"
  by (simp add: prependHeader_def PutUint16_def eval_nat_numeral)

section \<open>The ADD-PATH codec\<close>

lemma addPathTuple_item_short: "length b < 4 \<Longrightarrow> addPathTuple_item b = fail
    (NotificationErr \<lparr>Code = NOTIF_CODE_OPEN_MESSAGE_ERR, Subcode = 0, Data = []\<rparr>)"
  by (simp add: addPathTuple_item_def AddPathTuple_Decode_def)

lemma addPathTuple_item_Cons:
  "addPathTuple_item (b0 # b1 # b2 # d # r) =
     (if d = 3 \<or> d = 2 \<or> d = 1
      then ok (\<lparr>AFI = u16_of b0 b1, SAFI = b2, Tx = (d \<noteq> 1), Rx = (d \<noteq> 2)\<rparr>, r)
      else fail (NotificationErr \<lparr>Code = NOTIF_CODE_OPEN_MESSAGE_ERR, Subcode = 0, Data = []\<rparr>))"
  by (simp add: addPathTuple_item_def AddPathTuple_Decode_def AddPathTuple_zero_def Let_def)

interpretation tupleCodec: item_loop addPathTuple_item AddPathTuple_Encode wf_tuple addPathTuples_loop
proof unfold_locales
  fix a r assume "wf_tuple a"
  then show "addPathTuple_item (AddPathTuple_Encode a @ r) = ok (a, r)"
    by (cases a) (auto simp: AddPathTuple_Encode_def PutUint16_def addPathTuple_item_Cons wf_tuple_def)
next
  fix b a r assume *: "addPathTuple_item b = ok (a, r)"
  then have "4 \<le> length b" using addPathTuple_item_short [of b] by (cases "length b < 4") auto
  then obtain b0 b1 b2 d r' where b: "b = b0 # b1 # b2 # d # r'" by (rule bytes4E)
  with * have "d = 3 \<or> d = 2 \<or> d = 1" "r' = r"
    and "a = \<lparr>AFI = u16_of b0 b1, SAFI = b2, Tx = (d \<noteq> 1), Rx = (d \<noteq> 2)\<rparr>"
    by (auto simp: addPathTuple_item_Cons split: if_splits)
  then show "wf_tuple a \<and> b = AddPathTuple_Encode a @ r"
    by (auto simp: b wf_tuple_def AddPathTuple_Encode_def)
qed (simp_all add: AddPathTuple_Encode_def addPathTuples_loop.simps)

definition addPathErr :: Notification where
  "addPathErr = \<lparr>Code = NOTIF_CODE_OPEN_MESSAGE_ERR, Subcode = 0, Data = []\<rparr>"

lemma DecodeAddPathTuples_error:
  assumes "DecodeAddPathTuples b = fail e"
  shows "e = NotificationErr addPathErr"
proof -
  have "e = NotificationErr addPathErr" if "addPathTuple_item b = fail e" for b e
    using that by (auto simp: addPathTuple_item_def AddPathTuple_Decode_def Let_def addPathErr_def
        go_bind_Val_iff split: if_splits option.splits)
  from tupleCodec.loop_error [of "\<lambda>e. e = NotificationErr addPathErr", OF this] assms show ?thesis
    by (auto simp: DecodeAddPathTuples_def addPathErr_def split: if_splits)
qed

lemma DecodeAddPathTuples_total: "DecodeAddPathTuples b \<noteq> Fault f"
proof -
  have "addPathTuple_item b \<noteq> Fault f" for b f
    by (cases "length b < 4")
       (auto simp: addPathTuple_item_short not_less addPathTuple_item_Cons split: if_splits elim!: bytes4E)
  then show ?thesis using tupleCodec.loop_no_fault by (simp add: DecodeAddPathTuples_def)
qed

lemma length_AddPathTuple_Encode [simp]: "length (AddPathTuple_Encode a) = 4"
  by (simp add: AddPathTuple_Encode_def)

lemma length_tuples: "length (concat (map AddPathTuple_Encode ts)) = 4 * length ts"
  by (induction ts) simp_all

section \<open>Validation of an OPEN\<close>

lemma Uint32_eq_iff: "length b = 4 \<Longrightarrow> Uint32 b = Val v \<longleftrightarrow> b = PutUint32 v"
proof -
  assume "length b = 4"
  then obtain b0 b1 b2 b3 where b: "b = [b0, b1, b2, b3]"
    by (auto simp: length_Suc_conv eval_nat_numeral)
  then show ?thesis by (simp add: u32_of_eq_iff)
qed

text \<open>Every four-octet AS capability the message carries names the expected AS.\<close>

definition four_octet_as_ok :: "u32 \<Rightarrow> Capability list \<Rightarrow> bool" where
  "four_octet_as_ok remoteAS cs \<longleftrightarrow>
     (\<forall>c\<in>set cs. CapCode c = CAP_FOUR_OCTET_AS \<longrightarrow> CapValue c = PutUint32 remoteAS)"

lemma validate_caps_ok_iff:
  "validate_caps cs remoteAS found = ok r \<longleftrightarrow>
     four_octet_as_ok remoteAS cs \<and> r = (found \<or> CAP_FOUR_OCTET_AS \<in> CapCode ` set cs)"
proof (induction cs arbitrary: found)
  case Nil
  then show ?case by (auto simp: four_octet_as_ok_def)
next
  case (Cons c cs)
  show ?case
  proof (cases "CapCode c = CAP_FOUR_OCTET_AS")
    case False
    with Cons show ?thesis by (auto simp: four_octet_as_ok_def)
  next
    case True
    show ?thesis
    proof (cases "length (CapValue c) = 4")
      case False
      then have "CapValue c \<noteq> PutUint32 remoteAS" by (auto simp: PutUint32_def)
      with True False show ?thesis by (auto simp: four_octet_as_ok_def)
    next
      case len: True
      then obtain v where v: "Uint32 (CapValue c) = Val v" by (simp add: Uint32_in)
      then have "CapValue c = PutUint32 remoteAS \<longleftrightarrow> v = remoteAS"
        using Uint32_eq_iff [OF len, of remoteAS] by auto
      with True len v Cons show ?thesis by (auto simp: four_octet_as_ok_def)
    qed
  qed
qed

lemma validate_caps_error:
  "validate_caps cs remoteAS found = fail e \<Longrightarrow> \<exists>sub. e = openErr sub []"
  by (induction cs arbitrary: found)
     (auto simp: Uint32_in split: if_splits)

lemma validate_caps_total: "validate_caps cs remoteAS found \<noteq> Fault f"
  by (induction cs arbitrary: found) (auto simp: Uint32_in)

lemma openMessage_validate_ok_iff:
  "openMessage_validate o' localID localAS remoteAS = ok () \<longleftrightarrow>
     version o' = 4 \<and>
     (asn o' = asTrans \<or> ucast (asn o') = remoteAS) \<and>
     o_holdTime o' \<notin> {1, 2} \<and>
     \<not> IsMulticast (AddrFrom4 (PutUint32 (bgpID o'))) \<and>
     \<not> (localAS = remoteAS \<and> localID = bgpID o') \<and>
     CAP_FOUR_OCTET_AS \<in> CapCode ` set (getCapabilities o') \<and>
     four_octet_as_ok remoteAS (getCapabilities o')"
proof -
  have "(x < 3 \<and> x \<noteq> 0) \<longleftrightarrow> x \<in> {1, 2}" for x :: u16
    by unat_arith
  then show ?thesis
    by (auto simp: openMessage_validate_def try_bind_ok_iff validate_caps_ok_iff)
qed

section \<open>Errors of the message decoders\<close>

lemma capability_item_error: "capability_item b = fail e \<Longrightarrow> e = openErr 0 []"
  by (auto simp: capability_item_eq split: if_splits)

lemma optionalParam_item_error: "optionalParam_item b = fail e \<Longrightarrow> \<exists>sub. e = openErr sub []"
  using capCodec.loop_error [of "\<lambda>e. \<exists>sub. e = openErr sub []"] capability_item_error
  by (fastforce simp: optionalParam_item_eq try_bind_fail_iff split: if_splits)

lemma openMessage_decode_error:
  assumes "openMessage_decode b = fail e"
  shows "\<exists>n. e = NotifErr n True \<and>
    Code n \<in> {NOTIF_CODE_MESSAGE_HEADER_ERR, NOTIF_CODE_OPEN_MESSAGE_ERR}"
proof (cases "10 \<le> length b")
  case True
  then obtain b0 b1 b2 b3 b4 b5 b6 b7 b8 b9 r
    where b: "b = b0 # b1 # b2 # b3 # b4 # b5 # b6 # b7 # b8 # b9 # r"
    by (rule bytes10E)
  from assms have "\<exists>sub. e = openErr sub []"
    using paramCodec.loop_error [of "\<lambda>e. \<exists>sub. e = openErr sub []", OF optionalParam_item_error]
    by (auto simp: b openMessage_decode_Cons try_bind_fail_iff split: if_splits)
  then show ?thesis by (auto simp: openErr_def)
next
  case False
  with assms show ?thesis by (auto simp: openMessage_decode_def)
qed

lemma Notification_decode_error:
  "Notification_decode b = fail e \<Longrightarrow> e = PlainErr ''notification message too short''"
  by (auto simp: Notification_decode_def go_index_def split: if_splits)

lemma messageFromBytes_total: "messageFromBytes b t \<noteq> Fault f"
  using openMessage_decode_total [of b f] Notification_decode_total [of b f]
  by (simp add: messageFromBytes_def try_bind_Fault_iff)

lemma messageFromBytes_error:
  "messageFromBytes b t = fail e \<Longrightarrow>
     (t = notificationMessageType \<and> e = PlainErr ''notification message too short'') \<or>
     (\<exists>n. e = NotifErr n True \<and> Code n \<in> {NOTIF_CODE_MESSAGE_HEADER_ERR, NOTIF_CODE_OPEN_MESSAGE_ERR})"
  using openMessage_decode_error [of b e] Notification_decode_error [of b e]
  by (auto simp: messageFromBytes_def try_bind_fail_iff split: if_splits)

section \<open>Properties\<close>

text \<open>
  C5. The OPEN decoder and the OPEN encoder are inverse to each other: the bytes \<open>b\<close> decode
  to a message exactly when that message is well formed (at least one optional parameter, each
  with at least one capability, every length fitting its octet) and its encoding is \<open>b\<close> under
  a header. So nothing is lost or invented in either direction, and every other input is
  refused.
\<close>

theorem open_decode_iff_encode:
  "openMessage_decode b = ok o' \<longleftrightarrow>
     wf_open o' \<and> openMessage_encode o' = Inr (prependHeader b openMessageType)"
proof -
  have enc: "openMessage_encode o' = Inr (prependHeader (open_body o') openMessageType)"
    if "wf_open o'"
    using that by (intro openMessage_encode_eq) (simp add: wf_open_def)
  have "openMessage_decode b = ok o' \<longleftrightarrow> wf_open o' \<and> b = open_body o'"
    using openMessage_decode_sound openMessage_decode_open_body by blast
  then show ?thesis
    using enc by (auto simp: prependHeader_inject)
qed

text \<open>
  C10. Decoding the body of a message never faults, whatever the bytes and the type octet: no
  index or slice expression runs out of range, although the slice bounds are computed in
  \<open>uint8\<close> and would wrap on a length octet above 253. A decoded message has the type asked
  for, and an error is either the local "too short" of a NOTIFICATION, which must not be
  answered, or a Message Header Error or OPEN Message Error to be sent to the peer.
\<close>

theorem message_from_bytes_safe:
  "case messageFromBytes b t of
     Fault f \<Rightarrow> False
   | Val (Inr m) \<Rightarrow> messageType m = t
   | Val (Inl e) \<Rightarrow>
       (t = notificationMessageType \<and> e = PlainErr ''notification message too short'') \<or>
       (\<exists>n. e = NotifErr n True \<and>
          Code n \<in> {NOTIF_CODE_MESSAGE_HEADER_ERR, NOTIF_CODE_OPEN_MESSAGE_ERR})"
proof (cases "messageFromBytes b t" rule: go_sum_cases)
  case (Fault f)
  then show ?thesis by (simp add: messageFromBytes_total)
next
  case (fail e)
  then show ?thesis using messageFromBytes_error [OF fail] by simp
next
  case (ok m)
  then show ?thesis
    by (auto simp: messageFromBytes_def try_bind_ok_iff split: if_splits)
qed

text \<open>
  C26. A NOTIFICATION survives encoding and decoding exactly up to one-octet data, which the
  encoder drops: it appends the data only when there are at least two octets.
\<close>

theorem notification_round_trip:
  "Notification_decode (drop headerLength (Notification_encode n)) =
     ok (if length (Data n) = 1 then n\<lparr>Data := []\<rparr> else n)"
  by (cases "Data n"; cases "tl (Data n)")
     (auto simp: Notification_encode_def drop_header Notification_decode_Cons Let_def)

text \<open>
  C27. \<open>DecodeAddPathTuples\<close> accepts exactly the values of the capabilities
  \<open>NewAddPathCapability\<close> builds from a non-empty list of tuples that each name at least one
  direction, and returns that list.
\<close>

theorem add_path_tuples_round_trip:
  "DecodeAddPathTuples b = ok ts \<longleftrightarrow>
     ts \<noteq> [] \<and> list_all wf_tuple ts \<and> b = CapValue (NewAddPathCapability ts)"
  by (auto simp: DecodeAddPathTuples_def NewAddPathCapability_def tupleCodec.loop_iff length_tuples
      simp flip: length_greater_0_conv)

text \<open>
  C18. What a received OPEN must satisfy to be accepted: version 4; the AS field is AS_TRANS or
  the configured remote AS; the hold time is not 1 or 2 seconds; the BGP identifier is not a
  multicast address, nor the local one on an internal session; there is a four-octet AS
  capability and every one names the configured remote AS. Nothing else is required.
\<close>

theorem open_validate_iff:
  "openMessage_validate o' localID localAS remoteAS = ok () \<longleftrightarrow>
     version o' = 4 \<and>
     (asn o' = asTrans \<or> ucast (asn o') = remoteAS) \<and>
     o_holdTime o' \<notin> {1, 2} \<and>
     \<not> IsMulticast (AddrFrom4 (PutUint32 (bgpID o'))) \<and>
     \<not> (localAS = remoteAS \<and> localID = bgpID o') \<and>
     CAP_FOUR_OCTET_AS \<in> CapCode ` set (getCapabilities o') \<and>
     four_octet_as_ok remoteAS (getCapabilities o')"
  by (rule openMessage_validate_ok_iff)

text \<open>
  C28. A refused OPEN always yields an OPEN Message Error NOTIFICATION to be sent to the peer,
  and validation never faults.
\<close>

theorem open_validate_errors:
  "case openMessage_validate o' localID localAS remoteAS of
     Fault f \<Rightarrow> False
   | Val (Inr u) \<Rightarrow> True
   | Val (Inl e) \<Rightarrow>
       (\<exists>n. as_notificationError e = Some (n, True) \<and> Code n = NOTIF_CODE_OPEN_MESSAGE_ERR)"
proof (cases "openMessage_validate o' localID localAS remoteAS" rule: go_sum_cases)
  case (Fault f)
  then show ?thesis
    using validate_caps_total [of "getCapabilities o'" remoteAS False f]
    by (auto simp: openMessage_validate_def try_bind_Fault_iff split: if_splits)
next
  case (fail e)
  then have "\<exists>sub d. e = openErr sub d"
    using validate_caps_error [of "getCapabilities o'" remoteAS False e]
    by (auto simp: openMessage_validate_def try_bind_fail_iff split: if_splits)
  with fail show ?thesis by (auto simp: openErr_def)
qed simp

lemma caps_bytes_bound: "c \<in> set cs \<Longrightarrow> length (Capability_encode c) \<le> length (caps_bytes cs)"
  by (auto simp: caps_bytes_def dest: split_list)

lemma newOpenMessage_wf:
  assumes "length (caps_bytes (newFourOctetASCap as' #
    filter (\<lambda>c. CapCode c \<noteq> CAP_FOUR_OCTET_AS) caps)) \<le> 253"
  shows "wf_open (newOpenMessage as' h ident caps)"
proof -
  let ?cs = "newFourOctetASCap as' # filter (\<lambda>c. CapCode c \<noteq> CAP_FOUR_OCTET_AS) caps"
  have "wf_capability c" if "c \<in> set ?cs" for c
    using caps_bytes_bound [OF that] assms by (simp add: wf_capability_def Capability_encode_def)
  then have "list_all wf_capability ?cs"
    unfolding list_all_iff by blast
  with assms show ?thesis
    by (simp add: wf_open_def newOpenMessage_def)
qed

lemma newOpenMessage_caps:
  "getCapabilities (newOpenMessage as' h ident caps) =
     newFourOctetASCap as' # filter (\<lambda>c. CapCode c \<noteq> CAP_FOUR_OCTET_AS) caps"
  by (simp add: getCapabilities_def newOpenMessage_def)

lemma ucast_u16_u32:
  assumes "\<not> 65535 < (x :: u32)"
  shows "ucast (ucast x :: u16) = x"
proof -
  from assms have lt: "unat x < 2 ^ 16" by (simp add: word_less_nat_alt)
  have "unat (ucast (ucast x :: u16) :: u32) = take_bit 32 (take_bit 16 (unat x))"
    by (simp only: unsigned_ucast_eq) (simp add: unsigned_take_bit_eq)
  also have "\<dots> = unat x"
    using lt by (simp add: take_bit_nat_eq_self)
  finally show ?thesis by (rule word_unat_eq_iff [THEN iffD2])
qed

lemma newOpenMessage_valid:
  assumes "h = 0 \<or> 3 \<le> h" "h \<le> 65535" "\<not> IsMulticast (AddrFrom4 (PutUint32 ident))"
    and "\<not> (localAS = as' \<and> localID = ident)"
  shows "openMessage_validate (newOpenMessage as' (h * Second) ident caps) localID localAS as' = ok ()"
proof -
  let ?m = "newOpenMessage as' (h * Second) ident caps"
  have "go_quot (h * Second) Second = h"
    using assms(1) by (auto simp: go_quot_def Second_def)
  then have ht: "o_holdTime ?m = of_int h" by (simp add: newOpenMessage_def)
  have "uint (of_int h :: u16) = h"
    using assms(1,2) by (auto simp: uint_word_of_int_eq take_bit_int_eq_self)
  then have "o_holdTime ?m \<notin> {1, 2}"
    using assms(1) unfolding ht by (auto dest: arg_cong [where f = uint])
  moreover have "asn ?m = asTrans \<or> ucast (asn ?m) = as'"
    using ucast_u16_u32 [of as'] by (auto simp: newOpenMessage_def)
  moreover have "four_octet_as_ok as' (getCapabilities ?m)"
    by (simp add: newOpenMessage_caps four_octet_as_ok_def newFourOctetASCap_def)
  moreover have "CAP_FOUR_OCTET_AS \<in> CapCode ` set (getCapabilities ?m)"
    by (simp add: newOpenMessage_caps newFourOctetASCap_def)
  moreover have "version ?m = 4" "bgpID ?m = ident" by (simp_all add: newOpenMessage_def)
  ultimately show ?thesis
    using assms(3,4) unfolding openMessage_validate_ok_iff by metis
qed

text \<open>
  The OPEN a speaker sends is accepted by a peer that expects its AS. For a configured hold
  time of 0 or 3 to 65535 seconds, an identifier that is not multicast (nor the peer's own, on
  an internal session) and capabilities whose encoding fits the one optional parameter, the
  message \<open>newOpenMessage\<close> builds encodes without error, the peer's decoder returns that same
  message from the body, and the peer's validation accepts it; the four-octet AS capability is
  there once, whatever the plugin returned, and the plugin's other capabilities follow in order.
\<close>

theorem new_open_accepted:
  assumes "h = 0 \<or> 3 \<le> h" "h \<le> 65535" "\<not> IsMulticast (AddrFrom4 (PutUint32 ident))"
    and "\<not> (localAS = as' \<and> localID = ident)"
    and "length (caps_bytes (newFourOctetASCap as' #
           filter (\<lambda>c. CapCode c \<noteq> CAP_FOUR_OCTET_AS) caps)) \<le> 253"
    and m: "m = newOpenMessage as' (h * Second) ident caps"
  shows "(\<exists>b. openMessage_encode m = Inr (prependHeader b openMessageType) \<and>
            messageFromBytes b openMessageType = ok (OpenMsg m)) \<and>
         openMessage_validate m localID localAS as' = ok () \<and>
         getCapabilities m =
           newFourOctetASCap as' # filter (\<lambda>c. CapCode c \<noteq> CAP_FOUR_OCTET_AS) caps"
proof -
  have wf: "wf_open m" unfolding m by (rule newOpenMessage_wf) (rule assms(5))
  then have "openMessage_encode m = Inr (prependHeader (open_body m) openMessageType)"
    by (intro openMessage_encode_eq) (simp add: wf_open_def)
  moreover have "messageFromBytes (open_body m) openMessageType = ok (OpenMsg m)"
    using openMessage_decode_open_body [OF wf] by (simp add: messageFromBytes_def)
  moreover have "openMessage_validate m localID localAS as' = ok ()"
    unfolding m using assms(1-4) by (rule newOpenMessage_valid)
  moreover have "getCapabilities m =
      newFourOctetASCap as' # filter (\<lambda>c. CapCode c \<noteq> CAP_FOUR_OCTET_AS) caps"
    unfolding m by (rule newOpenMessage_caps)
  ultimately show ?thesis by blast
qed

theorem new_open_accepted_witness:
  "\<exists>m b. m = newOpenMessage 65001 (90 * Second) 0xC0000201 [NewMPExtensionsCapability 2 1] \<and>
     openMessage_encode m = Inr (prependHeader b openMessageType) \<and>
     messageFromBytes b openMessageType = ok (OpenMsg m) \<and>
     openMessage_validate m 0xC0000202 65002 65001 = ok ()"
proof -
  have multi: "\<not> IsMulticast (AddrFrom4 (PutUint32 0xC0000201))"
    by (simp add: AddrFrom4_def PutUint32_def)
  have len: "length (caps_bytes (newFourOctetASCap 65001 #
      filter (\<lambda>c. CapCode c \<noteq> CAP_FOUR_OCTET_AS) [NewMPExtensionsCapability 2 1])) \<le> 253"
    by (simp add: caps_bytes_def newFourOctetASCap_def NewMPExtensionsCapability_def
        Capability_encode_def)
  have "\<not> ((65002 :: u32) = 65001 \<and> (0xC0000202 :: u32) = 0xC0000201)" by simp
  from new_open_accepted [OF _ _ multi this len refl, of 90] show ?thesis by auto
qed

end
