(* ===== verification/Features.thy ===== *)
theory Features
  imports Update Packet
begin

text \<open>
  The example program \<open>src/examples/features/main.go\<close>: its update message, the closures it
  gives to the decoder constructors, and the methods of its plugin. It is the instance on which
  the decoder is shown never to fault. Command line flags that the plugin reads are a record;
  \<open>String\<close> and \<open>main\<close> are in the theory \<open>FeaturesMain\<close>, logging is left out.
\<close>

record updateMessage =
  um_addPathIPv4 :: bool
  um_addPathIPv6 :: bool
  um_withdrawn :: "Prefix list"
  um_addPathWithdrawn :: "AddPathPrefix list"
  um_origin :: u8
  um_asPath :: "u32 list"
  um_nextHop :: Addr
  um_communities :: "u32 list"
  um_largeCommunities :: "LargeCommunity list"
  um_localPref :: u32
  um_med :: u32
  um_nlri :: "Prefix list"
  um_addPathNLRI :: "AddPathPrefix list"
  um_ipv6NextHops :: "Addr list"
  um_ipv6NLRI :: "Prefix list"
  um_addPathIPv6NLRI :: "AddPathPrefix list"
  um_ipv6Withdrawn :: "Prefix list"
  um_addPathIPv6Withdrawn :: "AddPathPrefix list"

text \<open>\<open>&updateMessage{addPathIPv4: v4, addPathIPv6: v6}\<close>\<close>

definition new_updateMessage :: "bool \<Rightarrow> bool \<Rightarrow> updateMessage" where
  "new_updateMessage v4 v6 =
     \<lparr>um_addPathIPv4 = v4, um_addPathIPv6 = v6, um_withdrawn = [], um_addPathWithdrawn = [],
      um_origin = 0, um_asPath = [], um_nextHop = NoAddr, um_communities = [],
      um_largeCommunities = [], um_localPref = 0, um_med = 0, um_nlri = [], um_addPathNLRI = [],
      um_ipv6NextHops = [], um_ipv6NLRI = [], um_addPathIPv6NLRI = [], um_ipv6Withdrawn = [],
      um_addPathIPv6Withdrawn = []\<rparr>"

text \<open>\<open>v, err := f(...); if err != nil { return err }; m.field = v; return nil\<close>\<close>

definition store :: "'a ret \<Rightarrow> ('a \<Rightarrow> 't \<Rightarrow> 't) \<Rightarrow> 't \<Rightarrow> 't res" where
  "store r upd m =
     go_bind r (\<lambda>x. case x of Inl err \<Rightarrow> Val (m, Some err) | Inr v \<Rightarrow> Val (upd v m, None))"

definition reach_closure ::
    "updateMessage \<Rightarrow> u16 \<Rightarrow> u8 \<Rightarrow> bytes \<Rightarrow> bytes \<Rightarrow> updateMessage res" where
  "reach_closure m afi safi nh nlri =
     (if afi = AFI_IPV6 \<and> safi = SAFI_UNICAST
      then go_bind (DecodeMPReachIPv6NextHops nh) (\<lambda>x.
             case x of
               Inl err \<Rightarrow> Val (m, Some err)
             | Inr nhs \<Rightarrow>
                 if um_addPathIPv6 m
                 then store (DecodeMPIPv6AddPathPrefixes nlri)
                        (\<lambda>ps m. m\<lparr>um_addPathIPv6NLRI := ps, um_ipv6NextHops := nhs\<rparr>) m
                 else store (DecodeMPIPv6Prefixes nlri)
                        (\<lambda>ps m. m\<lparr>um_ipv6NLRI := ps, um_ipv6NextHops := nhs\<rparr>) m)
      else Val (m, None))"

definition unreach_closure :: "updateMessage \<Rightarrow> u16 \<Rightarrow> u8 \<Rightarrow> bytes \<Rightarrow> updateMessage res" where
  "unreach_closure m afi safi withdrawn =
     (if afi = AFI_IPV6 \<and> safi = SAFI_UNICAST
      then if um_addPathIPv6 m
           then store (DecodeMPIPv6AddPathPrefixes withdrawn)
                  (\<lambda>ps m. m\<lparr>um_addPathIPv6Withdrawn := ps\<rparr>) m
           else store (DecodeMPIPv6Prefixes withdrawn) (\<lambda>ps m. m\<lparr>um_ipv6Withdrawn := ps\<rparr>) m
      else Val (m, None))"

text \<open>\<open>var a corebgp.ASPathAttr; err := a.Decode(flags, b)\<close>: the receiver is a fresh one.\<close>

definition asPath_ret :: "PathAttrFlags \<Rightarrow> bytes \<Rightarrow> ASPathAttr ret" where
  "asPath_ret flags b =
     go_bind (ASPathAttr_Decode \<lparr>ASSet = [], ASSequence = []\<rparr> flags b) (\<lambda>(a, err).
       case err of Some e \<Rightarrow> fail e | None \<Rightarrow> ok a)"

definition newPathAttrsDecodeFn :: "updateMessage PathAttrsDecodeFn" where
  "newPathAttrsDecodeFn m code flags b =
     (if code = PATH_ATTR_ORIGIN
      then store (OriginPathAttr_Decode flags b) (\<lambda>o' m. m\<lparr>um_origin := o'\<rparr>) m
      else if code = PATH_ATTR_AS_PATH
      then store (asPath_ret flags b) (\<lambda>a m. m\<lparr>um_asPath := ASSequence a\<rparr>) m
      else if code = PATH_ATTR_NEXT_HOP
      then store (NextHopPathAttr_Decode flags b) (\<lambda>nh m. m\<lparr>um_nextHop := nh\<rparr>) m
      else if code = PATH_ATTR_COMMUNITY
      then store (CommunitiesPathAttr_Decode flags b) (\<lambda>c m. m\<lparr>um_communities := c\<rparr>) m
      else if code = PATH_ATTR_LOCAL_PREF
      then store (LocalPrefPathAttr_Decode flags b) (\<lambda>v m. m\<lparr>um_localPref := v\<rparr>) m
      else if code = PATH_ATTR_LARGE_COMMUNITY
      then store (LargeCommunitiesPathAttr_Decode flags b) (\<lambda>l m. m\<lparr>um_largeCommunities := l\<rparr>) m
      else if code = PATH_ATTR_MED
      then store (MEDPathAttr_Decode flags b) (\<lambda>v m. m\<lparr>um_med := v\<rparr>) m
      else if code = PATH_ATTR_MP_REACH_NLRI
      then NewMPReachNLRIDecodeFn reach_closure m flags b
      else if code = PATH_ATTR_MP_UNREACH_NLRI
      then NewMPUnreachNLRIDecodeFn unreach_closure m flags b
      else Val (m, None))"

definition newWithdrawnRoutesDecodeFn :: "updateMessage DecodeFn" where
  "newWithdrawnRoutesDecodeFn u b =
     (if um_addPathIPv4 u
      then NewWithdrawnAddPathRoutesDecodeFn (\<lambda>u a. Val (u\<lparr>um_addPathWithdrawn := a\<rparr>, None)) u b
      else NewWithdrawnRoutesDecodeFn (\<lambda>u p. Val (u\<lparr>um_withdrawn := p\<rparr>, None)) u b)"

definition newNLRIDecodeFn :: "updateMessage DecodeFn" where
  "newNLRIDecodeFn u b =
     (if um_addPathIPv4 u
      then NewNLRIAddPathDecodeFn (\<lambda>u a. Val (u\<lparr>um_addPathNLRI := a\<rparr>, None)) u b
      else NewNLRIDecodeFn (\<lambda>u p. Val (u\<lparr>um_nlri := p\<rparr>, None)) u b)"

section \<open>The plugin\<close>

record cmd_flags =
  fl_ipv4 :: bool
  fl_ipv6 :: bool
  fl_addPath :: bool

record plugin =
  pl_ud :: "updateMessage UpdateDecoder"
  pl_addPathIPv4 :: bool
  pl_addPathIPv6 :: bool

definition new_plugin :: plugin where
  "new_plugin =
     \<lparr>pl_ud = NewUpdateDecoder newWithdrawnRoutesDecodeFn newPathAttrsDecodeFn newNLRIDecodeFn,
      pl_addPathIPv4 = False, pl_addPathIPv6 = False\<rparr>"

definition plugin_GetCapabilities :: "cmd_flags \<Rightarrow> Capability list" where
  "plugin_GetCapabilities fl =
     (if fl_ipv4 fl then [NewMPExtensionsCapability AFI_IPV4 SAFI_UNICAST] else []) @
     (if fl_ipv6 fl then [NewMPExtensionsCapability AFI_IPV6 SAFI_UNICAST] else []) @
     (if fl_addPath fl
      then [NewAddPathCapability
             (\<lparr>AFI = AFI_IPV4, SAFI = SAFI_UNICAST, Tx = True, Rx = True\<rparr> #
              (if fl_ipv6 fl
               then [\<lparr>AFI = AFI_IPV6, SAFI = SAFI_UNICAST, Tx = True, Rx = True\<rparr>] else []))]
      else [])"

text \<open>The inner loop over the tuples of one ADD-PATH capability.\<close>

fun note_tuples :: "AddPathTuple list \<Rightarrow> plugin \<Rightarrow> plugin" where
  "note_tuples [] p = p"
| "note_tuples (tuple # ts) p =
     (if SAFI tuple \<noteq> SAFI_UNICAST \<or> \<not> Tx tuple then note_tuples ts p
      else if AFI tuple = AFI_IPV4 then note_tuples ts (p\<lparr>pl_addPathIPv4 := True\<rparr>)
      else if AFI tuple = AFI_IPV6 then note_tuples ts (p\<lparr>pl_addPathIPv6 := True\<rparr>)
      else note_tuples ts p)"

text \<open>The outer loop; \<open>err.(*corebgp.Notification)\<close> faults on any other error.\<close>

fun note_capabilities :: "Capability list \<Rightarrow> plugin \<Rightarrow> (plugin \<times> Notification option) go" where
  "note_capabilities [] p = Val (p, None)"
| "note_capabilities (c # cs) p =
     (if CapCode c \<noteq> CAP_ADD_PATH then note_capabilities cs p
      else go_bind (DecodeAddPathTuples (CapValue c)) (\<lambda>r.
             case r of
               Inl (NotificationErr n) \<Rightarrow> Val (p, Some n)
             | Inl _ \<Rightarrow> Fault TypeAssertionFailed
             | Inr tuples \<Rightarrow> note_capabilities cs (note_tuples tuples p)))"

definition plugin_OnOpenMessage ::
    "cmd_flags \<Rightarrow> plugin \<Rightarrow> Capability list \<Rightarrow> (plugin \<times> Notification option) go" where
  "plugin_OnOpenMessage fl p caps =
     (if fl_addPath fl
      then note_capabilities caps (p\<lparr>pl_addPathIPv4 := False, pl_addPathIPv6 := False\<rparr>)
      else Val (p, None))"

text \<open>The body \<open>OnEstablished\<close> writes, the End-of-RIB marker.\<close>

definition end_of_rib :: bytes where
  "end_of_rib = [0, 0, 0, 0]"

text \<open>\<open>handleUpdate\<close>; the decoded message, which the code logs, is returned beside the result.\<close>

definition plugin_handleUpdate :: "plugin \<Rightarrow> bytes \<Rightarrow> (updateMessage \<times> Notification option) go" where
  "plugin_handleUpdate p b =
     go_bind (Decode (pl_ud p) (new_updateMessage (pl_addPathIPv4 p) (pl_addPathIPv6 p)) b)
       (\<lambda>(m, err). Val (m, if err \<noteq> None then UpdateNotificationFromErr err else None))"

section \<open>The closures return, and only UPDATE Message Errors\<close>

text \<open>Every notification the nodes of an error tree can turn into is an UPDATE Message Error.\<close>

fun update_node :: "error \<Rightarrow> bool" where
  "update_node (NotificationErr n) \<longleftrightarrow> Code n = NOTIF_CODE_UPDATE_MESSAGE_ERR"
| "update_node (TreatAsWithdrawUpdateErr c (Some n)) \<longleftrightarrow> Code n = NOTIF_CODE_UPDATE_MESSAGE_ERR"
| "update_node (AttrDiscardUpdateErr c (Some n)) \<longleftrightarrow> Code n = NOTIF_CODE_UPDATE_MESSAGE_ERR"
| "update_node (UserUpdateErr n es) \<longleftrightarrow> Code n = NOTIF_CODE_UPDATE_MESSAGE_ERR"
| "update_node _ \<longleftrightarrow> True"

definition update_err :: "error \<Rightarrow> bool" where
  "update_err e \<longleftrightarrow> list_all update_node (flatten e)"

definition returns_update_err :: "'t res \<Rightarrow> bool" where
  "returns_update_err r =
     (case r of Fault _ \<Rightarrow> False | Val (t, e) \<Rightarrow> pred_option update_err e)"

lemma returns_simps [simp]:
  "\<not> returns_update_err (Fault f)" "returns_update_err (Val (t, e)) \<longleftrightarrow> pred_option update_err e"
  by (simp_all add: returns_update_err_def)

lemma update_err_simps [simp]:
  "update_err (NotificationErr n) \<longleftrightarrow> Code n = NOTIF_CODE_UPDATE_MESSAGE_ERR"
  "update_err (TreatAsWithdrawUpdateErr c (Some n)) \<longleftrightarrow> Code n = NOTIF_CODE_UPDATE_MESSAGE_ERR"
  "update_err (AttrDiscardUpdateErr c (Some n)) \<longleftrightarrow> Code n = NOTIF_CODE_UPDATE_MESSAGE_ERR"
  "update_err (JoinErr es) \<longleftrightarrow> list_all update_err es"
  by (simp_all add: update_err_def) (induction es, auto simp: update_err_def)

lemma pred_Join [simp]:
  "pred_option update_err (errors_Join a b) \<longleftrightarrow> pred_option update_err a \<and> pred_option update_err b"
  by (cases a; cases b) (simp_all add: errors_Join_def)

lemma returns_bind:
  "returns_update_err m \<Longrightarrow> (\<And>t e. m = Val (t, e) \<Longrightarrow> pred_option update_err e \<Longrightarrow>
     returns_update_err (k (t, e))) \<Longrightarrow> returns_update_err (go_bind m k)"
  by (cases m) auto

lemma attr_error_update_err: "attr_error d c e \<Longrightarrow> update_err e"
  by (induction d c e rule: attr_error.induct) simp_all

lemma returns_store:
  "outcome_ok update_err r \<Longrightarrow> returns_update_err (store r upd m)"
  by (cases r rule: go_sum_cases) (simp_all add: store_def)

lemma outcome_mono: "outcome_ok P r \<Longrightarrow> (\<And>e. P e \<Longrightarrow> Q e) \<Longrightarrow> outcome_ok Q r"
  by (cases r rule: go_sum_cases) simp_all

lemma outcome_mp:
  "outcome_ok update_err (DecodeMPIPv6Prefixes b)" "outcome_ok update_err (DecodeMPIPv6AddPathPrefixes b)"
  "outcome_ok update_err (DecodeMPReachIPv6NextHops b)"
proof -
  show "outcome_ok update_err (DecodeMPIPv6Prefixes b)"
    by (cases "decodePrefixes b True" rule: go_sum_cases)
       (simp_all add: DecodeMPIPv6Prefixes_def decodePrefixes_total updateMessageErr_def)
  show "outcome_ok update_err (DecodeMPIPv6AddPathPrefixes b)"
    by (cases "decodeAddPathPrefixes b True" rule: go_sum_cases)
       (simp_all add: DecodeMPIPv6AddPathPrefixes_def decodeAddPathPrefixes_total updateMessageErr_def)
  show "outcome_ok update_err (DecodeMPReachIPv6NextHops b)"
  proof (cases "length b = 16 \<or> length b = 32")
    case True
    then show ?thesis using DecodeMPReachIPv6NextHops_Ex [of b] by auto
  qed (simp add: DecodeMPReachIPv6NextHops_def updateMessageErr_def)
qed

lemma outcome_asPath: "outcome_ok (attr_error d PATH_ATTR_AS_PATH) (asPath_ret flags b)"
  using asPath_loop_outcome [of "\<lparr>ASSet = [], ASSequence = []\<rparr>" b]
  by (auto simp: asPath_ret_def ASPathAttr_Decode_def flags_Validate_def)

lemma pred_flags [simp]: "pred_option update_err (flags_Validate flags c b o' tr)"
  by (simp add: flags_Validate_def)

lemma returns_reach:
  assumes "\<And>afi safi nh nlri. returns_update_err (fn t afi safi nh nlri)"
  shows "returns_update_err (NewMPReachNLRIDecodeFn fn t flags b)"
proof (cases "\<exists>afi safi nh reserved nlri. length nh < 256 \<and> b = mp_reach_bytes afi safi nh reserved nlri")
  case True
  then show ?thesis
    by (auto simp: NewMPReachNLRIDecodeFn_bytes intro!: returns_bind assms)
next
  case False
  then have "NewMPReachNLRIDecodeFn fn t flags b =
    Val (t, errors_Join (flags_Validate flags PATH_ATTR_MP_REACH_NLRI b True False)
      (Some (NotificationErr mpLenErr)))"
    by (intro NewMPReachNLRIDecodeFn_refuses) blast
  then show ?thesis by (simp add: mpLenErr_def)
qed

lemma returns_unreach:
  assumes "\<And>afi safi w. returns_update_err (fn t afi safi w)"
  shows "returns_update_err (NewMPUnreachNLRIDecodeFn fn t flags b)"
proof (cases "length b < 3")
  case False
  then have "2 \<le> length b" "drop 2 b \<noteq> []" by auto
  then obtain a0 a1 safi w where "b = a0 # a1 # safi # w"
    using list_split_at2 by (metis list.exhaust)
  then show ?thesis
    by (auto simp: NewMPUnreachNLRIDecodeFn_def Let_def
        intro!: returns_bind assms)
qed (simp add: NewMPUnreachNLRIDecodeFn_def Let_def mpLenErr_def)

lemma returns_reach_closure: "returns_update_err (reach_closure m afi safi nh nlri)"
proof (cases "DecodeMPReachIPv6NextHops nh" rule: go_sum_cases)
  case (fail e)
  with outcome_mp(3) [of nh] show ?thesis by (simp add: reach_closure_def)
qed (simp_all add: reach_closure_def DecodeMPReachIPv6NextHops_total returns_store outcome_mp)

lemma returns_unreach_closure: "returns_update_err (unreach_closure m afi safi w)"
  by (simp add: unreach_closure_def returns_store outcome_mp)

lemma outcome_attr_update: "outcome_ok (attr_error d c) r \<Longrightarrow> outcome_ok update_err r"
  by (erule outcome_mono) (rule attr_error_update_err)

lemmas outcome_attrs = outcome_lens [THEN outcome_attr_update] outcome_sets [THEN outcome_attr_update]
  outcome_asPath [THEN outcome_attr_update]

lemma returns_newPathAttrsDecodeFn: "returns_update_err (newPathAttrsDecodeFn m code flags b)"
  unfolding newPathAttrsDecodeFn_def
  by (simp add: returns_store outcome_attrs returns_reach returns_reach_closure returns_unreach
      returns_unreach_closure)

lemma returns_decodeFns:
  "returns_update_err (newWithdrawnRoutesDecodeFn u b)" "returns_update_err (newNLRIDecodeFn u b)"
proof -
  show "returns_update_err (newWithdrawnRoutesDecodeFn u b)"
    by (cases "decodePrefixes b False" rule: go_sum_cases;
        cases "decodeAddPathPrefixes b False" rule: go_sum_cases)
       (simp_all add: newWithdrawnRoutesDecodeFn_def NewWithdrawnAddPathRoutesDecodeFn_def
        NewWithdrawnRoutesDecodeFn_def updateMessageErr_def decodePrefixes_total
        decodeAddPathPrefixes_total)
  show "returns_update_err (newNLRIDecodeFn u b)"
    by (cases "decodePrefixes b False" rule: go_sum_cases;
        cases "decodeAddPathPrefixes b False" rule: go_sum_cases)
       (simp_all add: newNLRIDecodeFn_def NewNLRIAddPathDecodeFn_def
        NewNLRIDecodeFn_def invalidNetworkField_def decodePrefixes_total
        decodeAddPathPrefixes_total)
qed

lemma returns_no_fault: "returns_update_err r \<Longrightarrow> r \<noteq> Fault f"
  by auto

interpretation features: update_callbacks
  "NewUpdateDecoder newWithdrawnRoutesDecodeFn newPathAttrsDecodeFn newNLRIDecodeFn"
  by unfold_locales
     (simp_all add: NewUpdateDecoder_def returns_no_fault returns_decodeFns returns_newPathAttrsDecodeFn)

lemma pred_add_err [simp]:
  "pred_option update_err (add_err a b) \<longleftrightarrow> pred_option update_err a \<and> pred_option update_err b"
  by (cases b) auto

lemma returns_attrs_spec:
  assumes pa: "\<And>t ty flags v. returns_update_err (pa t ty flags v)"
    and left: "pred_option update_err left"
  shows "pred_option update_err me \<Longrightarrow> returns_update_err (attrs_spec pa n left as t me S)"
proof (induction as arbitrary: t me S)
  case Nil
  then show ?case
    by (cases "missing_code n S") (simp_all add: left missingAttrErr_def)
next
  case (Cons a as)
  obtain flags ty v where a: "a = (flags, ty, v)" by (cases a)
  have "returns_update_err (go_bind (pa t ty flags v) (\<lambda>(t', e).
      if resets e then Val (t', add_err me e) else attrs_spec pa n left as t' (add_err me e) (insert ty S)))"
    using Cons by (intro returns_bind pa) auto
  with Cons show ?case by (simp add: a malformedAttrList_def)
qed

lemma frames_left: "pred_option update_err (snd (frames b))"
proof (induction b rule: frames.induct)
  case (1 b)
  show ?case
  proof (cases "b = []")
    case False
    then show ?thesis
    proof (cases "attr_item b" rule: go_sum_cases)
      case (fail e)
      then have "\<exists>c. e = totalAttrLenErr c"
        by (auto simp: attr_item_def attr_header_def try_bind_fail_iff go_bind_Val_iff split: if_splits)
      with fail False show ?thesis
        by (auto simp: frames.simps [of b] totalAttrLenErr_def updateMessageErr_def)
    next
      case (ok x)
      with 1 False show ?thesis by (cases x) (simp add: frames.simps [of b] case_prod_beta)
    qed (simp add: frames.simps [of b])
  qed (simp add: frames.simps)
qed

lemma returns_stage:
  "returns_update_err m \<Longrightarrow> (\<And>t. returns_update_err (k t)) \<Longrightarrow> returns_update_err (then_stage m k)"
  unfolding then_stage_def
  by (auto intro!: returns_bind)


lemma first_some_SomeD: "first_some f xs = Some y \<Longrightarrow> \<exists>x\<in>set xs. f x = Some y"
  by (induction xs) (auto split: option.splits)

lemma update_node_reset:
  "update_node e \<Longrightarrow> AsSessionReset e = Some n \<Longrightarrow> Code n = NOTIF_CODE_UPDATE_MESSAGE_ERR"
  by (induction e rule: update_node.induct) (auto simp: updateMessageErr_def)

lemma update_node_notification:
  "update_node e \<Longrightarrow> is_notification e = Some n \<Longrightarrow> Code n = NOTIF_CODE_UPDATE_MESSAGE_ERR"
  by (cases e) auto

lemma earliest_update:
  assumes "list_all update_node es" "earliest P es = Some n"
  shows "Code n = NOTIF_CODE_UPDATE_MESSAGE_ERR"
proof -
  from assms(2) obtain e where "e \<in> set es" "AsSessionReset e = Some n"
    unfolding earliest_def by (auto dest!: first_some_SomeD split: if_splits)
  with assms(1) update_node_reset show ?thesis unfolding list_all_iff by blast
qed

lemma notification_update:
  assumes "list_all update_node es" "first_some is_notification es = Some n"
  shows "Code n = NOTIF_CODE_UPDATE_MESSAGE_ERR"
  using first_some_SomeD [OF assms(2)] assms(1) update_node_notification unfolding list_all_iff by blast

lemma severest_update:
  assumes "list_all update_node es"
  shows "Code (severest es) = NOTIF_CODE_UPDATE_MESSAGE_ERR"
  using earliest_update [OF assms] notification_update [OF assms]
  by (auto simp: severest_def updateMessageErr_def split: option.splits)

lemma UpdateNotificationFromErr_code:
  "update_err e \<Longrightarrow> \<exists>n. UpdateNotificationFromErr (Some e) = Some n \<and> Code n = NOTIF_CODE_UPDATE_MESSAGE_ERR"
  by (simp add: UpdateNotificationFromErr_severest update_err_def severest_update)

lemma decode_returns:
  assumes "length b \<le> 65537"
  shows "returns_update_err
    (Decode (NewUpdateDecoder newWithdrawnRoutesDecodeFn newPathAttrsDecodeFn newNLRIDecodeFn) m b)"
proof (cases "\<exists>wr pa nlri. length wr < 65534 \<and> length pa < 65536 \<and> b = update_body wr pa nlri")
  case True
  then obtain wr pa nlri where b: "length wr < 65534" "length pa < 65536" "b = update_body wr pa nlri"
    by blast
  have "returns_update_err (decodePathAttrs newPathAttrsDecodeFn t pa n)" for t n
    by (simp add: decodePathAttrs_spec returns_attrs_spec returns_newPathAttrsDecodeFn frames_left)
  then show ?thesis
    unfolding b(3) Decode_update_body [OF b(1,2)] decode_stages_def NewUpdateDecoder_def
    by (intro returns_stage) (simp_all add: returns_decodeFns)
next
  case False
  then have "Decode (NewUpdateDecoder newWithdrawnRoutesDecodeFn newPathAttrsDecodeFn newNLRIDecodeFn) m b =
      Val (m, Some (NotificationErr (if length b < 4 then updateMessageErr else malformedAttrList)))"
    by (intro Decode_refuses [OF assms]) blast
  then show ?thesis by (simp add: updateMessageErr_def malformedAttrList_def)
qed

section \<open>Messages as a speaker would build them\<close>

definition ipv4_attrs :: "u8 \<Rightarrow> u32 list \<Rightarrow> bytes \<Rightarrow> attr list" where
  "ipv4_attrs o' as nh =
     [(0x40, PATH_ATTR_ORIGIN, [o']),
      (0x40, PATH_ATTR_AS_PATH, segment_bytes (2, of_nat (length as), as)),
      (0x40, PATH_ATTR_NEXT_HOP, nh)]"

definition ipv4_update :: "Prefix list \<Rightarrow> attr list \<Rightarrow> Prefix list \<Rightarrow> bytes" where
  "ipv4_update wr attrs nlri =
     update_body (concat (map prefix_bytes wr)) (concat (map attr_bytes attrs))
       (concat (map prefix_bytes nlri))"

lemma flags_0x40 [simp]:
  "Optional 0x40 = False" "Transitive 0x40 = True" "ExtendedLen 0x40 = False"
  by code_simp+

lemma ipv4_attr_decodes:
  assumes "o' \<le> 2" "as \<noteq> []" "length as < 64" "length nh = 4"
  shows "OriginPathAttr_Decode 0x40 [o'] = ok o'"
    "asPath_ret 0x40 (segment_bytes (2, of_nat (length as), as)) = ok \<lparr>ASSet = [], ASSequence = as\<rparr>"
    "NextHopPathAttr_Decode 0x40 nh = ok (V4 nh)"
proof -
  have "unat (of_nat (length as) :: u8) = length as" using assms(3) by (intro unat_u8_of_nat) simp
  then have "ASPathAttr_Decode \<lparr>ASSet = [], ASSequence = []\<rparr> 0x40 (segment_bytes (2, of_nat (length as), as)) =
      Val (\<lparr>ASSet = [], ASSequence = as\<rparr>, None)"
    using assms unfolding ASPathAttr_Decode_ok_iff
    by (intro conjI exI [of _ "[(2, of_nat (length as), as)]"]) simp_all
  then show "asPath_ret 0x40 (segment_bytes (2, of_nat (length as), as)) = ok \<lparr>ASSet = [], ASSequence = as\<rparr>"
    unfolding asPath_ret_def by simp
qed (use assms in \<open>auto simp: OriginPathAttr_Decode_def NextHopPathAttr_Decode_def with_flags_ok_iff not_less\<close>)

lemma ipv4_attrs_frames:
  assumes "length as < 64" "length nh = 4"
  shows "frames (concat (map attr_bytes (ipv4_attrs o' as nh))) = (ipv4_attrs o' as nh, None)"
    and "length (concat (map attr_bytes (ipv4_attrs o' as nh))) < 65536"
    and "concat (map attr_bytes (ipv4_attrs o' as nh)) \<noteq> []"
proof -
  have "list_all wf_attr (ipv4_attrs o' as nh)" using assms by (simp add: ipv4_attrs_def length_u32s)
  then show "frames (concat (map attr_bytes (ipv4_attrs o' as nh))) = (ipv4_attrs o' as nh, None)"
    using frames_attrs [of "ipv4_attrs o' as nh" "[]"] by (simp add: frames.simps [of "[]"])
qed (use assms in \<open>simp_all add: ipv4_attrs_def length_u32s\<close>)

lemma ipv4_attrs_decoded:
  assumes "o' \<le> 2" "as \<noteq> []" "length as < 64" "length nh = 4"
  shows "decodePathAttrs newPathAttrsDecodeFn m (concat (map attr_bytes (ipv4_attrs o' as nh))) n =
    Val (m\<lparr>um_origin := o', um_asPath := as, um_nextHop := V4 nh\<rparr>, None)"
proof -
  have st: "newPathAttrsDecodeFn m PATH_ATTR_ORIGIN 0x40 [o'] = Val (m\<lparr>um_origin := o'\<rparr>, None)"
    "newPathAttrsDecodeFn m PATH_ATTR_AS_PATH 0x40 (segment_bytes (2, of_nat (length as), as)) =
       Val (m\<lparr>um_asPath := as\<rparr>, None)"
    "newPathAttrsDecodeFn m PATH_ATTR_NEXT_HOP 0x40 nh = Val (m\<lparr>um_nextHop := V4 nh\<rparr>, None)" for m
    using ipv4_attr_decodes [OF assms] by (simp_all add: newPathAttrsDecodeFn_def store_def)
  show ?thesis
    using ipv4_attrs_frames [OF assms(3,4)] st
    by (simp add: decodePathAttrs_spec ipv4_attrs_def missing_code_def)
qed

section \<open>ADD-PATH negotiation\<close>

text \<open>A peer offers to send ADD-PATH routes of an address family.\<close>

definition offers_tx :: "u16 \<Rightarrow> AddPathTuple list \<Rightarrow> bool" where
  "offers_tx afi ts \<longleftrightarrow> (\<exists>t\<in>set ts. SAFI t = SAFI_UNICAST \<and> Tx t \<and> AFI t = afi)"

definition add_path_offered :: "u16 \<Rightarrow> Capability list \<Rightarrow> bool" where
  "add_path_offered afi caps \<longleftrightarrow>
     (\<exists>c\<in>set caps. CapCode c = CAP_ADD_PATH \<and>
        (\<exists>ts. DecodeAddPathTuples (CapValue c) = ok ts \<and> offers_tx afi ts))"

lemma note_tuples_eq:
  "note_tuples ts p = p\<lparr>pl_addPathIPv4 := pl_addPathIPv4 p \<or> offers_tx AFI_IPV4 ts,
     pl_addPathIPv6 := pl_addPathIPv6 p \<or> offers_tx AFI_IPV6 ts\<rparr>"
  by (induction ts p rule: note_tuples.induct) (auto simp: offers_tx_def)

lemma add_path_offered_Cons:
  "add_path_offered afi (c # cs) \<longleftrightarrow>
     CapCode c = CAP_ADD_PATH \<and> (\<exists>ts. DecodeAddPathTuples (CapValue c) = ok ts \<and> offers_tx afi ts) \<or>
     add_path_offered afi cs"
  by (auto simp: add_path_offered_def)

definition bad_add_path :: "Capability list \<Rightarrow> bool" where
  "bad_add_path caps \<longleftrightarrow>
     (\<exists>c\<in>set caps. CapCode c = CAP_ADD_PATH \<and> (\<nexists>ts. DecodeAddPathTuples (CapValue c) = ok ts))"

lemma note_capabilities_eq:
  "\<exists>p' n. note_capabilities caps p = Val (p', n) \<and> pl_ud p' = pl_ud p \<and>
     n = (if bad_add_path caps then Some addPathErr else None) \<and>
     (n = None \<longrightarrow>
       (pl_addPathIPv4 p' \<longleftrightarrow> pl_addPathIPv4 p \<or> add_path_offered AFI_IPV4 caps) \<and>
       (pl_addPathIPv6 p' \<longleftrightarrow> pl_addPathIPv6 p \<or> add_path_offered AFI_IPV6 caps))"
proof (induction caps arbitrary: p)
  case Nil
  then show ?case by (simp add: bad_add_path_def add_path_offered_def)
next
  case (Cons c cs)
  show ?case
  proof (cases "CapCode c = CAP_ADD_PATH")
    case False
    then have "bad_add_path (c # cs) = bad_add_path cs" by (auto simp: bad_add_path_def)
    with False Cons [of p] show ?thesis by (simp add: add_path_offered_Cons)
  next
    case True
    show ?thesis
    proof (cases "DecodeAddPathTuples (CapValue c)" rule: go_sum_cases)
      case (Fault f)
      then show ?thesis by (simp add: DecodeAddPathTuples_total)
    next
      case (fail e)
      with True have "bad_add_path (c # cs)" by (auto simp: bad_add_path_def)
      with fail True show ?thesis by (simp add: DecodeAddPathTuples_error [OF fail])
    next
      case (ok ts)
      with True have "bad_add_path (c # cs) = bad_add_path cs" by (auto simp: bad_add_path_def)
      with ok True Cons [of "note_tuples ts p"] show ?thesis
        by (auto simp: add_path_offered_Cons note_tuples_eq)
    qed
  qed
qed

section \<open>Properties\<close>

text \<open>
  C16. Whatever octets a peer sends as the body of an UPDATE, up to 65537 of them, the example
  plugin's \<open>handleUpdate\<close> returns: there is no index or slice fault anywhere in the decoder,
  the attribute decoders, the prefix decoders or the closures. Its answer is to go on or an
  UPDATE Message Error.
\<close>

theorem handle_update_always_answers:
  assumes "length b \<le> 65537" "pl_ud p = pl_ud new_plugin"
  shows "\<exists>m n. plugin_handleUpdate p b = Val (m, n) \<and>
    pred_option (\<lambda>n. Code n = NOTIF_CODE_UPDATE_MESSAGE_ERR) n"
proof -
  let ?s = "NewUpdateDecoder newWithdrawnRoutesDecodeFn newPathAttrsDecodeFn newNLRIDecodeFn"
    and ?m = "new_updateMessage (pl_addPathIPv4 p) (pl_addPathIPv6 p)"
  have ud: "pl_ud p = ?s" using assms(2) by (simp add: new_plugin_def)
  obtain m e where *: "Decode ?s ?m b = Val (m, e)"
    using features.decode_total [OF assms(1), of ?m] by (cases "Decode ?s ?m b") auto
  with decode_returns [OF assms(1), of ?m] have "pred_option update_err e" by simp
  then have "pred_option (\<lambda>n. Code n = NOTIF_CODE_UPDATE_MESSAGE_ERR)
      (if e \<noteq> None then UpdateNotificationFromErr e else None)"
    by (cases e) (auto dest: UpdateNotificationFromErr_code)
  with * ud show ?thesis by (simp add: plugin_handleUpdate_def)
qed

theorem handle_update_always_answers_witness:
  "\<exists>m n. plugin_handleUpdate new_plugin [0, 0, 0, 4, 0x40, 1, 1, 9] = Val (m, n) \<and>
    pred_option (\<lambda>n. Code n = NOTIF_CODE_UPDATE_MESSAGE_ERR) n"
  using handle_update_always_answers [of "[0, 0, 0, 4, 0x40, 1, 1, 9]" new_plugin] by simp





text \<open>
  An UPDATE that announces IPv4 prefixes and carries no path attribute at all is accepted
  without an error, although ORIGIN and AS_PATH are mandatory for it: the attribute decoder
  returns on an empty field before it looks for missing attributes.
\<close>

theorem no_attributes_accepted:
  assumes "list_all (wf_prefix False) nlri"
  shows "plugin_handleUpdate new_plugin (ipv4_update [] [] nlri) =
    Val ((new_updateMessage False False)\<lparr>um_nlri := nlri\<rparr>, None)"
proof -
  have "decodePrefixes [] False = ok []" "decodePrefixes (concat (map prefix_bytes nlri)) False = ok nlri"
    using assms by (simp_all add: decodePrefixes_iff)
  then show ?thesis
    by (simp add: plugin_handleUpdate_def new_plugin_def ipv4_update_def Decode_update_body
        decode_stages_def then_stage_def NewUpdateDecoder_def newWithdrawnRoutesDecodeFn_def
        NewWithdrawnRoutesDecodeFn_def newNLRIDecodeFn_def NewNLRIDecodeFn_def new_updateMessage_def
        decodePathAttrs_spec)
qed

theorem no_attributes_accepted_witness:
  "let nlri = [PrefixFrom (V4 [192, 0, 2, 0]) 24] in
   plugin_handleUpdate new_plugin (ipv4_update [] [] nlri) =
     Val ((new_updateMessage False False)\<lparr>um_nlri := nlri\<rparr>, None)"
proof -
  have "decodePrefixes [24, 192, 0, 2] False = ok [PrefixFrom (V4 [192, 0, 2, 0]) 24]" by code_simp
  then have "list_all (wf_prefix False) [PrefixFrom (V4 [192, 0, 2, 0]) 24]"
    unfolding decodePrefixes_iff by blast
  from no_attributes_accepted [OF this] show ?thesis unfolding Let_def .
qed

end
