(* ===== verification/Md5.thy ===== *)
theory Md5
  imports Errors Netip
begin

text \<open>
  TCP MD5 signatures: \<open>src/tcp_md5_sig_linux.go\<close> and the stub of \<open>src/tcp_md5_sig.go\<close>. The package
  \<open>golang.org/x/sys/unix\<close> is a record of its constants and system calls.
\<close>

section \<open>The package unix\<close>

datatype Sockaddr = SockaddrInet4 | SockaddrInet6 | OtherSockaddr

record unix =
  TCP_MD5SIG_FLAG_PREFIX :: u8
  TCP_MD5SIG_MAXKEYLEN :: nat
  AF_INET :: u16
  AF_INET6 :: u16
  IPPROTO_TCP :: int
  TCP_MD5SIG_EXT :: int
  Getsockname :: "int \<Rightarrow> error + Sockaddr"
  SetsockoptString :: "int \<Rightarrow> int \<Rightarrow> int \<Rightarrow> bytes \<Rightarrow> error option"

section \<open>The signature\<close>

record tcpMD5Sig =
  ssFamily :: u16
  ss :: bytes
  flags :: u8
  prefixLen :: u8
  keyLen :: u16
  ifIndex :: u32
  sig_key :: bytes

definition tcpMD5Sig_zero :: tcpMD5Sig where
  "tcpMD5Sig_zero = \<lparr>ssFamily = 0, ss = replicate 126 0, flags = 0, prefixLen = 0, keyLen = 0,
     ifIndex = 0, sig_key = replicate 80 0\<rparr>"

definition newTCPMD5Sig :: "unix \<Rightarrow> int \<Rightarrow> Addr \<Rightarrow> u8 \<Rightarrow> bytes \<Rightarrow> tcpMD5Sig \<times> error option" where
  "newTCPMD5Sig u fd address prefixLen' key =
     (let t = tcpMD5Sig_zero\<lparr>flags := TCP_MD5SIG_FLAG_PREFIX u\<rparr>;
          finish = (\<lambda>t. (t\<lparr>prefixLen := prefixLen', keyLen := of_nat (length key),
                           sig_key := go_copy_at (sig_key t) 0 key\<rparr>, None))
      in
      if length key > TCP_MD5SIG_MAXKEYLEN u
      then (t, Some (PlainErr (''md5 key len is > '' @ fmt_d (TCP_MD5SIG_MAXKEYLEN u))))
      else
        case Getsockname u fd of
          Inl err \<Rightarrow> (t, Some err)
        | Inr SockaddrInet4 \<Rightarrow>
            if \<not> Is4 address then (t, Some (PlainErr ''invalid address''))
            else finish (t\<lparr>ssFamily := AF_INET u, ss := go_copy_at (ss t) 2 (AsSlice address)\<rparr>)
        | Inr SockaddrInet6 \<Rightarrow>
            let t = t\<lparr>ssFamily := AF_INET6 u\<rparr> in
            if \<not> IsValid address then (t, Some (PlainErr ''invalid address''))
            else finish (t\<lparr>ss := go_copy_at (ss t) 6 (As16 address)\<rparr>)
        | Inr OtherSockaddr \<Rightarrow> (t, Some (PlainErr ''unknown socket type'')))"

text \<open>The struct in memory: no padding, and its integers in the byte order of the host.\<close>

datatype endian = LittleEndian | BigEndian

fun host_order :: "endian \<Rightarrow> bytes \<Rightarrow> bytes" where
  "host_order LittleEndian b = rev b"
| "host_order BigEndian b = b"

definition tcpMD5Sig_bytes :: "endian \<Rightarrow> tcpMD5Sig \<Rightarrow> bytes" where
  "tcpMD5Sig_bytes e t =
     host_order e (PutUint16 (ssFamily t)) @ ss t @ [flags t, prefixLen t] @
     host_order e (PutUint16 (keyLen t)) @ host_order e (PutUint32 (ifIndex t)) @ sig_key t"

definition SetTCPMD5Signature :: "endian \<Rightarrow> unix \<Rightarrow> int \<Rightarrow> Addr \<Rightarrow> u8 \<Rightarrow> bytes \<Rightarrow> error option" where
  "SetTCPMD5Signature e u fd address prefixLen' key =
     (case newTCPMD5Sig u fd address prefixLen' key of
        (t, Some err) \<Rightarrow> Some err
      | (t, None) \<Rightarrow>
          SetsockoptString u fd (IPPROTO_TCP u) (TCP_MD5SIG_EXT u) (tcpMD5Sig_bytes e t))"

text \<open>Elsewhere than on Linux.\<close>

definition SetTCPMD5Signature_other :: "int \<Rightarrow> Addr \<Rightarrow> u8 \<Rightarrow> bytes \<Rightarrow> error option" where
  "SetTCPMD5Signature_other fd address prefixLen' key = Some (PlainErr ''unsupported'')"

section \<open>The option that is set\<close>

text \<open>
  The octets of the C structure \<open>tcp_md5sig\<close> for an address family, address and key: the socket
  address with the address at its place, flags, prefix length, key length, interface and key.
\<close>

definition md5_address :: "endian \<Rightarrow> unix \<Rightarrow> Sockaddr \<Rightarrow> Addr \<Rightarrow> bytes" where
  "md5_address e u sa address =
     (case sa of
        SockaddrInet4 \<Rightarrow> host_order e (PutUint16 (AF_INET u)) @ [0, 0] @ AsSlice address @ replicate 120 0
      | SockaddrInet6 \<Rightarrow> host_order e (PutUint16 (AF_INET6 u)) @ replicate 6 0 @ As16 address @ replicate 104 0
      | OtherSockaddr \<Rightarrow> [])"

definition md5_option :: "endian \<Rightarrow> unix \<Rightarrow> Sockaddr \<Rightarrow> Addr \<Rightarrow> u8 \<Rightarrow> bytes \<Rightarrow> bytes" where
  "md5_option e u sa address prefixLen' key =
     md5_address e u sa address @ [TCP_MD5SIG_FLAG_PREFIX u, prefixLen'] @
     host_order e (PutUint16 (of_nat (length key))) @ replicate 4 0 @
     key @ replicate (80 - length key) 0"

definition md5_applies :: "Sockaddr \<Rightarrow> Addr \<Rightarrow> bool" where
  "md5_applies sa address =
     (case sa of SockaddrInet4 \<Rightarrow> Is4 address | SockaddrInet6 \<Rightarrow> IsValid address | OtherSockaddr \<Rightarrow> False)"

lemma length_host_order [simp]: "length (host_order e b) = length b"
  by (cases e) simp_all

lemma host_order_zero [simp]: "host_order e (PutUint32 0) = replicate 4 0"
  by (cases e) (simp_all add: PutUint32_def numeral_eq_Suc)

lemma length_md5_option:
  assumes "md5_applies sa address" "wf_addr address" "length key \<le> 80"
  shows "length (md5_option e u sa address p key) = 216"
  using assms
  by (cases sa; cases address)
     (simp_all add: md5_option_def md5_address_def md5_applies_def length_PutUint16)

lemma newTCPMD5Sig_ok:
  assumes "Getsockname u fd = Inr sa" "md5_applies sa address" "wf_addr address"
    "length key \<le> TCP_MD5SIG_MAXKEYLEN u" "TCP_MD5SIG_MAXKEYLEN u = 80"
  obtains t where "newTCPMD5Sig u fd address p key = (t, None)"
    "tcpMD5Sig_bytes e t = md5_option e u sa address p key"
proof -
  have k: "go_copy_at (replicate 80 0) 0 key = key @ replicate (80 - length key) 0"
    using assms(4,5) by (simp add: go_copy_at_def)
  have four: "go_copy_at (replicate 126 0) 2 b = [0, 0] @ b @ replicate 120 (0 :: u8)" if "length b = 4" for b
    using that by (simp add: go_copy_at_def numeral_eq_Suc)
  have sixteen: "go_copy_at (replicate 126 0) 6 b = replicate 6 0 @ b @ replicate 104 (0 :: u8)"
    if "length b = 16" for b
    using that by (simp add: go_copy_at_def)
  show ?thesis
    by (rule that [of "fst (newTCPMD5Sig u fd address p key)"]; insert assms; cases sa; cases address)
       (simp_all add: newTCPMD5Sig_def md5_applies_def tcpMD5Sig_bytes_def md5_option_def md5_address_def
          tcpMD5Sig_zero_def Let_def k four sixteen)
qed

lemma newTCPMD5Sig_refuses:
  assumes "TCP_MD5SIG_MAXKEYLEN u < length key \<or> (\<forall>sa. Getsockname u fd = Inr sa \<longrightarrow> \<not> md5_applies sa address)"
  obtains t err where "newTCPMD5Sig u fd address p key = (t, Some err)"
proof (cases "TCP_MD5SIG_MAXKEYLEN u < length key")
  case True
  then show ?thesis by (intro that) (simp add: newTCPMD5Sig_def)
next
  case False
  with assms that show ?thesis
    by (cases "Getsockname u fd") (auto simp: newTCPMD5Sig_def md5_applies_def Let_def split: Sockaddr.splits)
qed

definition example_unix :: unix where
  "example_unix = \<lparr>TCP_MD5SIG_FLAG_PREFIX = 1, TCP_MD5SIG_MAXKEYLEN = 80, AF_INET = 2, AF_INET6 = 10,
     IPPROTO_TCP = 6, TCP_MD5SIG_EXT = 32, Getsockname = \<lambda>fd. Inr SockaddrInet4,
     SetsockoptString = \<lambda>fd proto opt b. if length b = 216 then None else Some (PlainErr ''invalid argument'')\<rparr>"

section \<open>Property\<close>

text \<open>
  C23. With the key length of 80 octets Linux has, setting a signature passes exactly the octets of
  the C structure \<open>tcp_md5sig\<close> to the socket: 216 of them, with the address at the offset of its
  family, an IPv4 address mapped to IPv6 on an IPv6 socket, and the whole key padded with zeros.
  With a key that is too long, a socket that is of another family or whose name is not known, or an
  address that does not fit the socket, an error is returned, whatever setting the option would
  return.
\<close>

theorem md5_signature:
  assumes "wf_addr address" "TCP_MD5SIG_MAXKEYLEN u = 80"
  shows "(if length key \<le> 80 \<and> (\<exists>sa. Getsockname u fd = Inr sa \<and> md5_applies sa address)
    then
      \<exists>sa. Getsockname u fd = Inr sa \<and> length (md5_option e u sa address p key) = 216 \<and>
        SetTCPMD5Signature e u fd address p key =
          SetsockoptString u fd (IPPROTO_TCP u) (TCP_MD5SIG_EXT u) (md5_option e u sa address p key)
    else SetTCPMD5Signature e u fd address p key \<noteq> None)"
proof (cases "length key \<le> 80 \<and> (\<exists>sa. Getsockname u fd = Inr sa \<and> md5_applies sa address)")
  case True
  then obtain sa where sa: "Getsockname u fd = Inr sa" "md5_applies sa address" and k: "length key \<le> 80" by blast
  with assms obtain t where "newTCPMD5Sig u fd address p key = (t, None)"
    "tcpMD5Sig_bytes e t = md5_option e u sa address p key"
    by (metis newTCPMD5Sig_ok)
  with True sa length_md5_option [OF sa(2) assms(1) k] show ?thesis
    by (simp add: SetTCPMD5Signature_def)
next
  case False
  then have "TCP_MD5SIG_MAXKEYLEN u < length key \<or> (\<forall>sa. Getsockname u fd = Inr sa \<longrightarrow> \<not> md5_applies sa address)"
    using assms(2) by auto
  then obtain t err where "newTCPMD5Sig u fd address p key = (t, Some err)"
    by (rule newTCPMD5Sig_refuses)
  then have "SetTCPMD5Signature e u fd address p key \<noteq> None" by (simp add: SetTCPMD5Signature_def)
  then show ?thesis by (subst if_not_P [OF False])
qed

theorem md5_signature_witness:
  "SetTCPMD5Signature LittleEndian example_unix 3 (V4 [192, 0, 2, 1]) 32 [1, 2, 3] = None \<and>
   SetTCPMD5Signature LittleEndian example_unix 3 NoAddr 32 [1, 2, 3] \<noteq> None"
  using md5_signature [of "V4 [192, 0, 2, 1]" example_unix "[1, 2, 3]" 3 LittleEndian 32]
    md5_signature [of NoAddr example_unix "[1, 2, 3]" 3 LittleEndian 32]
  by (simp add: example_unix_def md5_applies_def)

end
