(* ===== verification/Config.thy ===== *)
theory Config
  imports Packet
begin

text \<open>
  Peer configuration: \<open>src/peer_options.go\<close> and \<open>PeerConfig\<close> of \<open>src/server.go\<close>. A
  \<open>PeerOption\<close> is the function on \<open>peerOptions\<close> it applies.
\<close>

text \<open>The dialer control function is only handed on: nil, or some function value.\<close>

datatype dialerControl = NilControl | ControlFn nat

record peerOptions =
  opt_holdTime :: duration
  opt_idleHoldTime :: duration
  opt_connectRetryTime :: duration
  opt_port :: int
  opt_passive :: bool
  opt_dialerControlFn :: dialerControl
  opt_localAddress :: Addr

definition peerOptions_validate :: "peerOptions \<Rightarrow> error option" where
  "peerOptions_validate p =
     (if opt_holdTime p < Second * 3 \<and> opt_holdTime p \<noteq> 0
      then Some (PlainErr ''hold time must be 0 or >= 3 seconds'')
      else if opt_port p < 1 \<or> opt_port p > 65535
      then Some (PlainErr ''port must be between 1 and 65535'')
      else None)"

definition DefaultHoldTimeSeconds :: u16 where "DefaultHoldTimeSeconds = 90"
definition DefaultIdleHoldTime :: duration where "DefaultIdleHoldTime = Second * 5"
definition DefaultConnectRetryTime :: duration where "DefaultConnectRetryTime = Second * 5"
definition DefaultPort :: int where "DefaultPort = 179"

definition defaultPeerOptions :: peerOptions where
  "defaultPeerOptions =
     \<lparr>opt_holdTime = Second * uint DefaultHoldTimeSeconds, opt_idleHoldTime = DefaultIdleHoldTime,
      opt_connectRetryTime = DefaultConnectRetryTime, opt_port = DefaultPort, opt_passive = False,
      opt_dialerControlFn = NilControl, opt_localAddress = NoAddr\<rparr>"

type_synonym PeerOption = "peerOptions \<Rightarrow> peerOptions"

definition WithPassive :: PeerOption where
  "WithPassive o' = o'\<lparr>opt_passive := True\<rparr>"

definition WithIdleHoldTime :: "duration \<Rightarrow> PeerOption" where
  "WithIdleHoldTime t o' = o'\<lparr>opt_idleHoldTime := t\<rparr>"

definition WithConnectRetryTime :: "duration \<Rightarrow> PeerOption" where
  "WithConnectRetryTime t o' = o'\<lparr>opt_connectRetryTime := t\<rparr>"

definition WithPort :: "int \<Rightarrow> PeerOption" where
  "WithPort p o' = o'\<lparr>opt_port := p\<rparr>"

definition WithDialerControl :: "dialerControl \<Rightarrow> PeerOption" where
  "WithDialerControl fn o' = o'\<lparr>opt_dialerControlFn := fn\<rparr>"

definition WithLocalAddress :: "Addr \<Rightarrow> PeerOption" where
  "WithLocalAddress a o' = o'\<lparr>opt_localAddress := a\<rparr>"

definition WithHoldTime :: "u16 \<Rightarrow> PeerOption" where
  "WithHoldTime seconds o' = o'\<lparr>opt_holdTime := uint seconds * Second\<rparr>"

definition apply_options :: "PeerOption list \<Rightarrow> peerOptions" where
  "apply_options opts = fold (\<lambda>opt o'. opt o') opts defaultPeerOptions"

record PeerConfig =
  RemoteAddress :: Addr
  LocalAS :: u32
  RemoteAS :: u32

definition PeerConfig_validate :: "PeerConfig \<Rightarrow> peerOptions \<Rightarrow> error option" where
  "PeerConfig_validate p opts =
     (if \<not> IsValid (opt_localAddress opts) \<and> IsValid (RemoteAddress p) then None
      else
        let localIsIPv4 = Is4 (opt_localAddress opts); remoteIsIPv4 = Is4 (RemoteAddress p) in
        if localIsIPv4 \<noteq> remoteIsIPv4
        then Some (PlainErr ''mixed address family peer address pair'')
        else if \<not> localIsIPv4 \<and> (\<not> Is6 (opt_localAddress opts) \<or> \<not> Is6 (RemoteAddress p))
        then Some (PlainErr ''invalid peer address pair'')
        else if LocalAS p = 0 \<or> RemoteAS p = 0 then Some (PlainErr ''AS must be > 0'')
        else None)"

section \<open>Lemmas\<close>

lemma Second_pos [simp]: "0 < Second" "Second \<noteq> 0"
  by (simp_all add: Second_def)

lemma peerOptions_validate_ok_iff:
  "peerOptions_validate p = None \<longleftrightarrow>
     (opt_holdTime p = 0 \<or> 3 * Second \<le> opt_holdTime p) \<and> 1 \<le> opt_port p \<and> opt_port p \<le> 65535"
  by (auto simp: peerOptions_validate_def)

lemma PeerConfig_validate_ok_iff:
  "PeerConfig_validate p opts = None \<longleftrightarrow>
     (opt_localAddress opts = NoAddr \<and> RemoteAddress p \<noteq> NoAddr) \<or>
     (Is4 (opt_localAddress opts) \<and> Is4 (RemoteAddress p) \<or>
      Is6 (opt_localAddress opts) \<and> Is6 (RemoteAddress p)) \<and> LocalAS p \<noteq> 0 \<and> RemoteAS p \<noteq> 0"
  by (cases "opt_localAddress opts"; cases "RemoteAddress p") (auto simp: PeerConfig_validate_def)

lemma WithHoldTime_valid_iff:
  "peerOptions_validate (WithHoldTime s defaultPeerOptions) = None \<longleftrightarrow> s = 0 \<or> 3 \<le> s"
proof -
  have "3 * Second \<le> uint s * Second \<longleftrightarrow> 3 \<le> uint s" by simp
  then show ?thesis
    by (auto simp: peerOptions_validate_ok_iff WithHoldTime_def defaultPeerOptions_def DefaultPort_def
        word_le_def uint_0_iff)
qed

end
