(* ===== verification/Fsm.thy ===== *)
theory Fsm
  imports Config
begin

text \<open>
  One finite state machine of a peer, \<open>src/fsm.go\<close>. The goroutine \<open>run\<close> alternates between
  handing a transition to the peer manager and running the function of the state it is in. A
  step of the model is one thing the goroutine waits for: a case of a \<open>select\<close>, the peer
  manager taking or answering a transition, or the peer manager taking an error. Timers can
  expire and the connection can break between any two steps.
\<close>

section \<open>States\<close>

datatype fsmState =
    disabledState
  | idleState
  | connectState
  | activeState
  | openSentState
  | openConfirmState
  | establishedState

text \<open>\<open>type fsmState uint8\<close>, by \<open>iota\<close>.\<close>

primrec state_num :: "fsmState \<Rightarrow> nat" where
  "state_num disabledState = 0"
| "state_num idleState = 1"
| "state_num connectState = 2"
| "state_num activeState = 3"
| "state_num openSentState = 4"
| "state_num openConfirmState = 5"
| "state_num establishedState = 6"

lemma state_num_inject: "state_num s = state_num t \<longleftrightarrow> s = t"
  by (cases s; cases t) simp_all

instantiation fsmState :: linorder
begin

definition less_eq_fsmState :: "fsmState \<Rightarrow> fsmState \<Rightarrow> bool" where
  "less_eq_fsmState s t \<longleftrightarrow> state_num s \<le> state_num t"

definition less_fsmState :: "fsmState \<Rightarrow> fsmState \<Rightarrow> bool" where
  "less_fsmState s t \<longleftrightarrow> state_num s < state_num t"

instance
  by standard (auto simp: less_eq_fsmState_def less_fsmState_def state_num_inject)

end

primrec fsmState_String :: "fsmState \<Rightarrow> string" where
  "fsmState_String disabledState = ''disabled''"
| "fsmState_String idleState = ''idle''"
| "fsmState_String connectState = ''connect''"
| "fsmState_String activeState = ''active''"
| "fsmState_String openSentState = ''openSent''"
| "fsmState_String openConfirmState = ''openConfirm''"
| "fsmState_String establishedState = ''established''"

record stateTransition =
  tr_from :: fsmState
  tr_to :: fsmState

definition newStateTransition :: "fsmState \<Rightarrow> fsmState \<Rightarrow> stateTransition" where
  "newStateTransition s t = \<lparr>tr_from = s, tr_to = t\<rparr>"

section \<open>Timers and connections\<close>

text \<open>
  \<open>time.Timer\<close> as of Go 1.21: an armed timer that expires puts a value into its channel, which
  has room for one. \<open>Stop\<close> tells whether the timer was armed and does not drain the channel.
\<close>

record timer =
  tm_armed :: "duration option"
  tm_chan :: bool

definition NewTimer :: "duration \<Rightarrow> timer" where
  "NewTimer d = \<lparr>tm_armed = Some d, tm_chan = False\<rparr>"

definition timer_Stop :: "timer \<Rightarrow> timer \<times> bool" where
  "timer_Stop t = (t\<lparr>tm_armed := None\<rparr>, tm_armed t \<noteq> None)"

definition timer_Reset :: "duration \<Rightarrow> timer \<Rightarrow> timer" where
  "timer_Reset d t = t\<lparr>tm_armed := Some d\<rparr>"

definition timer_expire :: "timer \<Rightarrow> timer" where
  "timer_expire t = \<lparr>tm_armed = None, tm_chan = True\<rparr>"

text \<open>
  \<open>net.Conn\<close>: what has been written to it, whether writes fail, and whether it is closed.
\<close>

record conn =
  c_out :: "bytes list"
  c_broken :: bool
  c_closed :: bool

definition conn_Write :: "bytes \<Rightarrow> conn \<Rightarrow> conn \<times> error option" where
  "conn_Write b c =
     (if c_closed c then (c, Some (PlainErr ''use of closed network connection''))
      else if c_broken c then (c, Some (PlainErr ''broken pipe''))
      else (c\<lparr>c_out := c_out c @ [b]\<rparr>, None))"

definition conn_Close :: "conn \<Rightarrow> conn" where
  "conn_Close c = c\<lparr>c_closed := True\<rparr>"

text \<open>
  The dialing goroutine: not started, running, or finished with its channel closed. Its results:
  a connection, a dial error, or the error of resolving the local address, after which it goes
  on to dial and sends a second result.
\<close>

datatype dialState = NoDial | Dialing | DialClosed
datatype dialResult = DialConn conn | DialErr error | ResolveErr error
datatype readerState = NoReader | ReaderRunning | ReaderDone

section \<open>The record\<close>

text \<open>What the machine does to its surroundings, kept as a history.\<close>

datatype action =
    GetCapabilitiesCalled
  | OnOpenMessageCalled Addr "Capability list"
  | OnEstablishedCalled
  | HandlerCalled bytes
  | OnCloseCalled
  | DialStarted
  | DialCancelled
  | DialDropped conn
  | ConnClosed conn

text \<open>
  Where \<open>run\<close> is: sending a transition, waiting for the manager's answer, in a state's function,
  sending an error with the transition to make after it, or returned.
\<close>

datatype control =
    Sending stateTransition
  | Awaiting stateTransition
  | Running fsmState
  | Reporting fsmState fsmState error
  | Done

text \<open>\<open>f_handler\<close> is the variable \<open>handler\<close> of \<open>established\<close>.\<close>

record fsm =
  remoteID :: u32
  f_conn :: "conn option"
  f_dial :: dialState
  f_reader :: readerState
  connectRetryTimer :: "timer option"
  holdTimer :: "timer option"
  holdTime :: duration
  keepAliveTimer :: "timer option"
  keepAliveInterval :: duration
  idleHoldTimer :: timer
  f_handler :: "(action list \<Rightarrow> bytes \<Rightarrow> Notification option) option"
  f_ctl :: control
  f_trace :: "action list"

text \<open>
  What the machine reads of its peer. A plugin method may depend on everything that happened
  before, which it is given as the history.
\<close>

record Plugin =
  pi_GetCapabilities :: "action list \<Rightarrow> PeerConfig \<Rightarrow> Capability list"
  pi_OnOpenMessage :: "action list \<Rightarrow> PeerConfig \<Rightarrow> Addr \<Rightarrow> Capability list \<Rightarrow> Notification option"
  pi_OnEstablished :: "action list \<Rightarrow> PeerConfig \<Rightarrow> (action list \<Rightarrow> bytes \<Rightarrow> Notification option) option"

record peerCtx =
  pc_config :: PeerConfig
  pc_id :: u32
  pc_plugin :: Plugin
  pc_options :: peerOptions

definition newFSM :: "conn option \<Rightarrow> fsm" where
  "newFSM c =
     \<lparr>remoteID = 0, f_conn = c, f_dial = NoDial, f_reader = NoReader, connectRetryTimer = None,
      holdTimer = None, holdTime = 0, keepAliveTimer = None, keepAliveInterval = 0,
      idleHoldTimer = NewTimer 0, f_handler = None,
      f_ctl = Sending (newStateTransition disabledState
        (if c \<noteq> None then activeState else idleState)),
      f_trace = []\<rparr>"

definition act :: "action \<Rightarrow> fsm \<Rightarrow> fsm" where
  "act a f = f\<lparr>f_trace := f_trace f @ [a]\<rparr>"

section \<open>Connection, reader and timer helpers\<close>

definition startReading :: "fsm \<Rightarrow> fsm" where
  "startReading f = f\<lparr>f_reader := ReaderRunning\<rparr>"

text \<open>
  The reader of a closed connection fails and returns, so the wait for it ends; the connection is
  set to nil in any case.
\<close>

definition cleanupConnAndReader :: "fsm \<Rightarrow> fsm" where
  "cleanupConnAndReader f =
     (let f = (case f_conn f of Some c \<Rightarrow> act (ConnClosed (conn_Close c)) f | None \<Rightarrow> f) in
      f\<lparr>f_conn := None, f_reader := (if f_reader f = NoReader then NoReader else ReaderDone)\<rparr>)"

definition stop_opt :: "timer option \<Rightarrow> timer option" where
  "stop_opt t = map_option (\<lambda>t. fst (timer_Stop t)) t"

definition write_conn :: "bytes \<Rightarrow> fsm \<Rightarrow> (fsm \<times> error option) go" where
  "write_conn b f =
     (case f_conn f of
        None \<Rightarrow> Fault NilDereference
      | Some c \<Rightarrow> (let (c', err) = conn_Write b c in Val (f\<lparr>f_conn := Some c'\<rparr>, err)))"

definition sendNotification :: "Notification \<Rightarrow> fsm \<Rightarrow> (fsm \<times> error option) go" where
  "sendNotification n f = write_conn (Notification_encode n) f"

definition sendKeepAlive :: "fsm \<Rightarrow> (fsm \<times> error option) go" where
  "sendKeepAlive f = write_conn keepAliveMessage_encode f"

definition drainAndResetHoldTimer :: "fsm \<Rightarrow> fsm go" where
  "drainAndResetHoldTimer f =
     (case holdTimer f of
        None \<Rightarrow> Fault NilDereference
      | Some t \<Rightarrow>
          let (t, stopped) = timer_Stop t in
          if stopped then Val (f\<lparr>holdTimer := Some (timer_Reset (holdTime f) t)\<rparr>)
          else if tm_chan t
          then Val (f\<lparr>holdTimer := Some (timer_Reset (holdTime f) (t\<lparr>tm_chan := False\<rparr>))\<rparr>)
          else Fault BlockedForever)"

text \<open>The code ignores the result of the write.\<close>

definition handleNotificationInErr :: "error \<Rightarrow> fsm \<Rightarrow> fsm go" where
  "handleNotificationInErr err f =
     (case as_notificationError err of
        Some (n, True) \<Rightarrow> go_bind (sendNotification n f) (\<lambda>(f, _). Val f)
      | _ \<Rightarrow> Val f)"

definition dialPeer :: "fsm \<Rightarrow> fsm" where
  "dialPeer f = act DialStarted (f\<lparr>f_dial := Dialing\<rparr>)"

text \<open>
  \<open><-f.dialResultCh\<close>, with the result the goroutine sends if it is still running. A closed
  channel yields nil; a nil channel blocks.
\<close>

definition recv_dial :: "dialResult \<Rightarrow> fsm \<Rightarrow> (fsm \<times> dialResult option) go" where
  "recv_dial r f =
     (case f_dial f of
        NoDial \<Rightarrow> Fault BlockedForever
      | DialClosed \<Rightarrow> Val (f, None)
      | Dialing \<Rightarrow>
          Val (case r of ResolveErr _ \<Rightarrow> f | _ \<Rightarrow> f\<lparr>f_dial := DialClosed\<rparr>, Some r))"

text \<open>\<open>f.cancelDialFn(); <-f.dialResultCh\<close>, with the result thrown away.\<close>

definition cancel_dial :: "dialResult \<Rightarrow> fsm \<Rightarrow> fsm go" where
  "cancel_dial r f =
     go_bind (recv_dial r (act DialCancelled f)) (\<lambda>(f, dr).
       Val (case dr of Some (DialConn c) \<Rightarrow> act (DialDropped c) f | _ \<Rightarrow> f))"

definition cleanup :: "dialResult \<Rightarrow> fsm \<Rightarrow> fsm go" where
  "cleanup r f =
     go_bind (if f_dial f \<noteq> NoDial then cancel_dial r f else Val f) (\<lambda>f.
     let f = cleanupConnAndReader f in
     Val (f\<lparr>connectRetryTimer := stop_opt (connectRetryTimer f), holdTimer := stop_opt (holdTimer f),
            keepAliveTimer := stop_opt (keepAliveTimer f),
            idleHoldTimer := fst (timer_Stop (idleHoldTimer f))\<rparr>))"

definition longHoldTime :: duration where
  "longHoldTime = 4 * 60 * Second"

text \<open>\<open>newOpenMessage\<close> never returns an error.\<close>

definition sendOpenAndSetHoldTimer :: "peerCtx \<Rightarrow> fsm \<Rightarrow> (fsm \<times> fsmState) go" where
  "sendOpenAndSetHoldTimer p f =
     (let capabilities = pi_GetCapabilities (pc_plugin p) (f_trace f) (pc_config p);
          f = act GetCapabilitiesCalled f;
          o' = newOpenMessage (LocalAS (pc_config p)) (opt_holdTime (pc_options p)) (pc_id p) capabilities;
          close = (\<lambda>f. (case f_conn f of
                         None \<Rightarrow> Fault NilDereference
                       | Some c \<Rightarrow> Val (f\<lparr>f_conn := Some (conn_Close c)\<rparr>, idleState)))
      in
      case openMessage_encode o' of
        Inl _ \<Rightarrow> close f
      | Inr b \<Rightarrow>
          go_bind (write_conn b f) (\<lambda>(f, err).
          if err \<noteq> None then close f
          else Val (startReading (f\<lparr>holdTimer := Some (NewTimer longHoldTime)\<rparr>), openSentState)))"

section \<open>Events\<close>

datatype timer_id = ConnectRetryT | HoldT | KeepAliveT | IdleHoldT

datatype event =
    EvExpire timer_id
  | EvBreak
  | EvSent
  | EvReply stateTransition dialResult
  | EvErrTaken
  | EvClose dialResult
  | EvTimer timer_id
  | EvConnectRetry dialResult
  | EvDialResult dialResult
  | EvReadErr error
  | EvMsg message
  | EvWriteUpdate bytes

text \<open>Receiving from the channel of a timer; \<open>None\<close> if nothing is in it.\<close>

definition recv_timer :: "timer option \<Rightarrow> timer option" where
  "recv_timer t = (case t of Some t \<Rightarrow> if tm_chan t then Some (t\<lparr>tm_chan := False\<rparr>) else None | None \<Rightarrow> None)"

definition cease :: Notification where
  "cease = newNotification NOTIF_CODE_CEASE 0 []"

definition holdExpired :: Notification where
  "holdExpired = newNotification NOTIF_CODE_HOLD_TIMER_EXPIRED 0 []"

text \<open>What a state function does with an event: go on waiting, or return.\<close>

type_synonym outcome = "(fsm \<times> (fsmState \<times> error option) option) go option"

definition returns :: "fsm \<Rightarrow> fsmState \<Rightarrow> error option \<Rightarrow> outcome" where
  "returns f to err = Some (Val (f, Some (to, err)))"

definition continues :: "fsm \<Rightarrow> outcome" where
  "continues f = Some (Val (f, None))"

text \<open>\<open>f.sendNotification(n); return to, newNotificationError(n, out)\<close>\<close>

definition send_and_return :: "Notification \<Rightarrow> fsmState \<Rightarrow> fsm \<Rightarrow> outcome" where
  "send_and_return n to f =
     Some (go_bind (sendNotification n f) (\<lambda>(f, _).
       Val (f, Some (to, Some (newNotificationError n True)))))"

section \<open>The state functions\<close>

definition idle :: "peerCtx \<Rightarrow> fsm \<Rightarrow> event \<Rightarrow> outcome" where
  "idle p f ev =
     (case ev of
        EvClose r \<Rightarrow> returns f disabledState None
      | EvTimer IdleHoldT \<Rightarrow>
          (case recv_timer (Some (idleHoldTimer f)) of
             None \<Rightarrow> None
           | Some t \<Rightarrow>
               let f = f\<lparr>idleHoldTimer := t,
                         connectRetryTimer := Some (NewTimer (opt_connectRetryTime (pc_options p)))\<rparr>;
                   f = dialPeer f;
                   f = f\<lparr>idleHoldTimer := timer_Reset (opt_idleHoldTime (pc_options p)) (idleHoldTimer f)\<rparr>
               in returns f connectState None)
      | _ \<Rightarrow> None)"

text \<open>\<open>f.conn = dr.conn; return f.sendOpenAndSetHoldTimer()\<close>\<close>

definition got_conn :: "peerCtx \<Rightarrow> conn \<Rightarrow> fsm \<Rightarrow> outcome" where
  "got_conn p c f =
     Some (go_bind (sendOpenAndSetHoldTimer p (f\<lparr>f_conn := Some c\<rparr>)) (\<lambda>(f, to).
       Val (f, Some (to, None))))"

definition connect :: "peerCtx \<Rightarrow> fsm \<Rightarrow> event \<Rightarrow> outcome" where
  "connect p f ev =
     (case ev of
        EvClose r \<Rightarrow>
          Some (go_bind (cancel_dial r f) (\<lambda>f.
            Val (f\<lparr>connectRetryTimer := stop_opt (connectRetryTimer f)\<rparr>, Some (disabledState, None))))
      | EvDialResult r \<Rightarrow>
          if f_dial f = NoDial then None
          else
            (case recv_dial r f of
               Fault e \<Rightarrow> Some (Fault e)
             | Val (f, None) \<Rightarrow> Some (Fault NilDereference)
             | Val (f, Some (DialConn c)) \<Rightarrow>
                 got_conn p c (f\<lparr>connectRetryTimer := stop_opt (connectRetryTimer f)\<rparr>)
             | Val (f, Some _) \<Rightarrow>
                 returns (act DialCancelled (f\<lparr>connectRetryTimer := stop_opt (connectRetryTimer f)\<rparr>))
                   idleState None)
      | EvConnectRetry r \<Rightarrow>
          (case recv_timer (connectRetryTimer f) of
             None \<Rightarrow> None
           | Some t \<Rightarrow>
               (case recv_dial r (act DialCancelled (f\<lparr>connectRetryTimer := Some t\<rparr>)) of
                  Fault e \<Rightarrow> Some (Fault e)
                | Val (f, None) \<Rightarrow> Some (Fault NilDereference)
                | Val (f, Some (DialConn c)) \<Rightarrow> got_conn p c f
                | Val (f, Some _) \<Rightarrow>
                    continues (dialPeer
                      (f\<lparr>connectRetryTimer := Some (NewTimer (opt_connectRetryTime (pc_options p)))\<rparr>))))
      | _ \<Rightarrow> None)"

text \<open>The \<open>select\<close> of \<open>active\<close>, reached when there is no connection.\<close>

definition active :: "peerCtx \<Rightarrow> fsm \<Rightarrow> event \<Rightarrow> outcome" where
  "active p f ev =
     (case ev of
        EvClose r \<Rightarrow> returns f disabledState None
      | EvTimer ConnectRetryT \<Rightarrow>
          (case recv_timer (connectRetryTimer f) of
             None \<Rightarrow> None
           | Some t \<Rightarrow>
               returns (dialPeer
                 (f\<lparr>connectRetryTimer := Some (NewTimer (opt_connectRetryTime (pc_options p)))\<rparr>))
                 connectState None)
      | _ \<Rightarrow> None)"

text \<open>What the reader hands over: an error ends it.\<close>

definition from_reader :: "fsm \<Rightarrow> (fsm \<Rightarrow> outcome) \<Rightarrow> outcome" where
  "from_reader f k = (if f_reader f = ReaderRunning then k f else None)"

text \<open>Applied to what the inner function of a state returns.\<close>

definition on_return :: "(fsm \<Rightarrow> fsmState \<Rightarrow> fsm go) \<Rightarrow> outcome \<Rightarrow> outcome" where
  "on_return fin r =
     (case r of
        None \<Rightarrow> None
      | Some m \<Rightarrow>
          Some (go_bind m (\<lambda>(f, x).
            case x of
              None \<Rightarrow> Val (f, None)
            | Some (to, err) \<Rightarrow> go_bind (fin f to) (\<lambda>f. Val (f, Some (to, err))))))"

definition stop_timer :: "timer option \<Rightarrow> timer option go" where
  "stop_timer t = (case t of None \<Rightarrow> Fault NilDereference | Some t \<Rightarrow> Val (Some (fst (timer_Stop t))))"

text \<open>An OPEN received in \<open>openSent\<close>.\<close>

definition openSent_open :: "peerCtx \<Rightarrow> openMessage \<Rightarrow> fsm \<Rightarrow> (fsm \<times> fsmState \<times> error option) go" where
  "openSent_open p m f =
     go_bind (openMessage_validate m (pc_id p) (LocalAS (pc_config p)) (RemoteAS (pc_config p))) (\<lambda>v.
     case v of
       Inl err \<Rightarrow>
         go_bind (handleNotificationInErr err f) (\<lambda>f.
         Val (f, idleState, Some (WrapErr ''error validating open message: '' err)))
     | Inr _ \<Rightarrow>
         let f = f\<lparr>remoteID := bgpID m\<rparr>;
             rid = AddrFrom4 (PutUint32 (bgpID m));
             n = pi_OnOpenMessage (pc_plugin p) (f_trace f) (pc_config p) rid (getCapabilities m);
             f = act (OnOpenMessageCalled rid (getCapabilities m)) f
         in
         case n of
           Some n \<Rightarrow>
             go_bind (sendNotification n f) (\<lambda>(f, _).
             Val (f, idleState, Some (newNotificationError n True)))
         | None \<Rightarrow>
             go_bind (sendKeepAlive f) (\<lambda>(f, err).
             case err of
               Some err \<Rightarrow> Val (f, idleState, Some (WrapErr ''error sending keepAlive: '' err))
             | None \<Rightarrow>
                 let t = int (unat (o_holdTime m)) * Second;
                     t = (if opt_holdTime (pc_options p) < t then opt_holdTime (pc_options p) else t);
                     f = f\<lparr>holdTime := t\<rparr>
                 in
                 if t \<noteq> 0
                 then
                   let f = f\<lparr>keepAliveInterval := go_quot t 3\<rparr>;
                       f = f\<lparr>keepAliveTimer := Some (NewTimer (keepAliveInterval f))\<rparr>
                   in go_bind (drainAndResetHoldTimer f) (\<lambda>f. Val (f, openConfirmState, None))
                 else Val (f, openConfirmState, None)))"

definition unexpected :: "u8 \<Rightarrow> message \<Rightarrow> Notification" where
  "unexpected subcode m = newNotification NOTIF_CODE_FSM_ERR subcode [messageType m]"

text \<open>
  The functions of the session states have two parts: an anonymous function around the
  \<open>select\<close> loop, and what is done with the state it returns.
\<close>

definition openSent_select :: "peerCtx \<Rightarrow> fsm \<Rightarrow> event \<Rightarrow> outcome" where
  "openSent_select p f ev =
     (case ev of
        EvClose r \<Rightarrow> send_and_return cease disabledState f
      | EvTimer HoldT \<Rightarrow>
          (case recv_timer (holdTimer f) of
             None \<Rightarrow> None
           | Some t \<Rightarrow> send_and_return holdExpired idleState (f\<lparr>holdTimer := Some t\<rparr>))
      | EvReadErr err \<Rightarrow>
          from_reader f (\<lambda>f.
            Some (go_bind (handleNotificationInErr err (f\<lparr>f_reader := ReaderDone\<rparr>)) (\<lambda>f.
              case as_notificationError err of
                Some (n, out) \<Rightarrow>
                  Val (f, Some (idleState, Some (WrapErr ''reader error: '' (NotifErr n out))))
              | None \<Rightarrow>
                  Val (f\<lparr>connectRetryTimer := Some (NewTimer (opt_connectRetryTime (pc_options p)))\<rparr>,
                       Some (activeState, Some (WrapErr ''reader error: '' err))))))
      | EvMsg m \<Rightarrow>
          from_reader f (\<lambda>f.
            case m of
              NotificationMsg n \<Rightarrow> returns f idleState (Some (newNotificationError n False))
            | OpenMsg o' \<Rightarrow>
                Some (go_bind (openSent_open p o' f) (\<lambda>(f, to, err). Val (f, Some (to, err))))
            | _ \<Rightarrow>
                send_and_return (unexpected NOTIF_SUBCODE_RX_UNEXPECTED_MESSAGE_OPENSENT m) idleState f)
      | _ \<Rightarrow> None)"

definition openSent_return :: "fsm \<Rightarrow> fsmState \<Rightarrow> fsm go" where
  "openSent_return f to =
     (if to \<noteq> openConfirmState
       then let f = cleanupConnAndReader f in
            go_bind (stop_timer (holdTimer f)) (\<lambda>t. Val (f\<lparr>holdTimer := t\<rparr>))
       else Val f)"

definition openSent :: "peerCtx \<Rightarrow> fsm \<Rightarrow> event \<Rightarrow> outcome" where
  "openSent p f ev = on_return openSent_return (openSent_select p f ev)"

text \<open>The end of \<open>openConfirm\<close> and of \<open>established\<close> on leaving the session.\<close>

definition end_session :: "fsm \<Rightarrow> fsm go" where
  "end_session f =
     (let f = cleanupConnAndReader f in
      go_bind (stop_timer (holdTimer f)) (\<lambda>h.
      go_bind (stop_timer (keepAliveTimer f)) (\<lambda>k.
      Val (f\<lparr>holdTimer := h, keepAliveTimer := k\<rparr>))))"

text \<open>The three cases \<open>openConfirm\<close> and \<open>established\<close> share, with the text of the reader error.\<close>

definition session_event :: "string \<Rightarrow> fsm \<Rightarrow> event \<Rightarrow> outcome" where
  "session_event msg f ev =
     (case ev of
        EvClose r \<Rightarrow> send_and_return cease disabledState f
      | EvTimer HoldT \<Rightarrow>
          (case recv_timer (holdTimer f) of
             None \<Rightarrow> None
           | Some t \<Rightarrow> send_and_return holdExpired idleState (f\<lparr>holdTimer := Some t\<rparr>))
      | EvReadErr err \<Rightarrow>
          from_reader f (\<lambda>f.
            Some (go_bind (handleNotificationInErr err (f\<lparr>f_reader := ReaderDone\<rparr>)) (\<lambda>f.
              Val (f, Some (idleState, Some (WrapErr msg err))))))
      | _ \<Rightarrow> None)"

definition reset_keepAlive :: "fsm \<Rightarrow> fsm" where
  "reset_keepAlive f =
     f\<lparr>keepAliveTimer := map_option (timer_Reset (keepAliveInterval f)) (keepAliveTimer f)\<rparr>"

definition openConfirm_select :: "peerCtx \<Rightarrow> fsm \<Rightarrow> event \<Rightarrow> outcome" where
  "openConfirm_select p f ev =
     (case ev of
        EvTimer KeepAliveT \<Rightarrow>
          (case recv_timer (keepAliveTimer f) of
             None \<Rightarrow> None
           | Some t \<Rightarrow>
               Some (go_bind (sendKeepAlive (f\<lparr>keepAliveTimer := Some t\<rparr>)) (\<lambda>(f, err).
                 case err of
                   Some err \<Rightarrow> Val (f, Some (idleState, Some (WrapErr ''error sending keepAlive: '' err)))
                 | None \<Rightarrow> Val (reset_keepAlive f, None))))
      | EvMsg m \<Rightarrow>
          from_reader f (\<lambda>f.
            case m of
              KeepAliveMsg \<Rightarrow>
                Some (go_bind (drainAndResetHoldTimer f) (\<lambda>f. Val (f, Some (establishedState, None))))
            | NotificationMsg n \<Rightarrow> returns f idleState (Some (newNotificationError n False))
            | _ \<Rightarrow>
                send_and_return (unexpected NOTIF_SUBCODE_RX_UNEXPECTED_MESSAGE_OPENCONFIRM m) idleState f)
      | _ \<Rightarrow> session_event ''reader error: '' f ev)"

definition openConfirm_return :: "fsm \<Rightarrow> fsmState \<Rightarrow> fsm go" where
  "openConfirm_return f to =
     (if to \<noteq> establishedState then end_session f else Val f)"

definition openConfirm :: "peerCtx \<Rightarrow> fsm \<Rightarrow> event \<Rightarrow> outcome" where
  "openConfirm p f ev = on_return openConfirm_return (openConfirm_select p f ev)"

text \<open>
  The goroutine that resets the keepalive timer, as the sender of a reset sees it.
\<close>

definition resetKATimer :: "fsm \<Rightarrow> fsm" where
  "resetKATimer f = (if holdTime f \<noteq> 0 then reset_keepAlive f else f)"

text \<open>\<open>updateMessageWriter.WriteUpdate\<close> while its session is established.\<close>

definition WriteUpdate :: "bytes \<Rightarrow> fsm \<Rightarrow> (fsm \<times> error option) go" where
  "WriteUpdate b f =
     (if f_ctl f \<noteq> Running establishedState then Val (f, Some (PlainErr ''io: read/write on closed pipe''))
      else
        go_bind (write_conn (prependHeader b updateMessageType) f) (\<lambda>(f, err).
        Val (if err = None then resetKATimer f else f, err)))"

definition drain_if_nonzero :: "fsm \<Rightarrow> outcome" where
  "drain_if_nonzero f =
     (if holdTime f \<noteq> 0 then Some (go_bind (drainAndResetHoldTimer f) (\<lambda>f. Val (f, None)))
      else continues f)"

definition established_select :: "peerCtx \<Rightarrow> fsm \<Rightarrow> event \<Rightarrow> outcome" where
  "established_select p f ev =
     (case ev of
        EvTimer KeepAliveT \<Rightarrow>
          (case recv_timer (keepAliveTimer f) of
             None \<Rightarrow> None
           | Some t \<Rightarrow>
               Some (go_bind (sendKeepAlive (f\<lparr>keepAliveTimer := Some t\<rparr>)) (\<lambda>(f, err).
                 case err of
                   Some err \<Rightarrow> Val (f, Some (idleState, Some (WrapErr ''error sending keepAlive: '' err)))
                 | None \<Rightarrow> Val (resetKATimer f, None))))
      | EvMsg m \<Rightarrow>
          from_reader f (\<lambda>f.
            case m of
              NotificationMsg n \<Rightarrow> returns f idleState (Some (newNotificationError n False))
            | KeepAliveMsg \<Rightarrow> drain_if_nonzero f
            | UpdateMsg b \<Rightarrow>
                (case f_handler f of
                   None \<Rightarrow> drain_if_nonzero f
                 | Some handler \<Rightarrow>
                     let n = handler (f_trace f) b; f = act (HandlerCalled b) f in
                     (case n of
                        Some n \<Rightarrow> send_and_return n idleState f
                      | None \<Rightarrow> drain_if_nonzero f))
            | _ \<Rightarrow>
                send_and_return (unexpected NOTIF_SUBCODE_RX_UNEXPECTED_MESSAGE_ESTABLISHED m) idleState f)
      | EvWriteUpdate b \<Rightarrow> Some (go_bind (WriteUpdate b f) (\<lambda>(f, _). Val (f, None)))
      | _ \<Rightarrow> session_event ''error from reader: '' f ev)"

definition established_return :: "fsm \<Rightarrow> fsmState \<Rightarrow> fsm go" where
  "established_return f to =
     (go_bind (end_session f) (\<lambda>f. Val (act OnCloseCalled f)))"

definition established :: "peerCtx \<Rightarrow> fsm \<Rightarrow> event \<Rightarrow> outcome" where
  "established p f ev = on_return established_return (established_select p f ev)"

section \<open>The run loop\<close>

text \<open>
  Entering the \<open>select\<close> of a state evaluates the channels of its timers, which faults on a nil
  timer.
\<close>

definition enter_select :: "fsmState \<Rightarrow> fsm \<Rightarrow> fsm go" where
  "enter_select s f =
     (if (s \<in> {connectState, activeState} \<and> connectRetryTimer f = None) \<or>
         (s \<in> {openSentState, openConfirmState, establishedState} \<and> holdTimer f = None) \<or>
         (s \<in> {openConfirmState, establishedState} \<and> keepAliveTimer f = None)
      then Fault NilDereference
      else Val (f\<lparr>f_ctl := Running s\<rparr>))"

text \<open>The end of an iteration of \<open>run\<close>: signal the error, if any, then the next transition.\<close>

definition next_iteration :: "fsmState \<Rightarrow> fsmState \<Rightarrow> error option \<Rightarrow> fsm \<Rightarrow> fsm" where
  "next_iteration s desired err f =
     f\<lparr>f_ctl := (case err of
                  Some err \<Rightarrow> Reporting s desired err
                | None \<Rightarrow> Sending (newStateTransition s desired))\<rparr>"

text \<open>
  From the answer \<open>t\<close> of the manager to the first \<open>select\<close> of the state it leads to.
\<close>

definition enter_state :: "peerCtx \<Rightarrow> dialResult \<Rightarrow> fsmState \<Rightarrow> stateTransition \<Rightarrow> fsm \<Rightarrow> fsm go" where
  "enter_state p r toBefore t f =
     go_bind
       (if tr_to t \<noteq> toBefore \<and> tr_to t = disabledState \<and> f_conn f \<noteq> None \<and> tr_from t > activeState
        then go_bind (sendNotification cease f) (\<lambda>(f, _). Val f)
        else Val f) (\<lambda>f.
     case tr_to t of
       disabledState \<Rightarrow> go_bind (cleanup r f) (\<lambda>f. Val (f\<lparr>f_ctl := Done\<rparr>))
     | activeState \<Rightarrow>
         if f_conn f \<noteq> None
         then go_bind (sendOpenAndSetHoldTimer p f) (\<lambda>(f, to). Val (next_iteration activeState to None f))
         else enter_select activeState f
     | establishedState \<Rightarrow>
         let handler = pi_OnEstablished (pc_plugin p) (f_trace f) (pc_config p);
             f = act OnEstablishedCalled f
         in enter_select establishedState (f\<lparr>f_handler := handler\<rparr>)
     | s \<Rightarrow> enter_select s f)"

definition state_event :: "peerCtx \<Rightarrow> fsmState \<Rightarrow> fsm \<Rightarrow> event \<Rightarrow> outcome" where
  "state_event p s f ev =
     (case s of
        disabledState \<Rightarrow> None
      | idleState \<Rightarrow> idle p f ev
      | connectState \<Rightarrow> connect p f ev
      | activeState \<Rightarrow> active p f ev
      | openSentState \<Rightarrow> openSent p f ev
      | openConfirmState \<Rightarrow> openConfirm p f ev
      | establishedState \<Rightarrow> established p f ev)"

text \<open>What time and the network do.\<close>

definition expire_opt :: "timer option \<Rightarrow> timer option" where
  "expire_opt t = map_option (\<lambda>t. if tm_armed t \<noteq> None then timer_expire t else t) t"

definition ambient_event :: "fsm \<Rightarrow> event \<Rightarrow> fsm option" where
  "ambient_event f ev =
     (case ev of
        EvExpire ConnectRetryT \<Rightarrow> Some (f\<lparr>connectRetryTimer := expire_opt (connectRetryTimer f)\<rparr>)
      | EvExpire HoldT \<Rightarrow> Some (f\<lparr>holdTimer := expire_opt (holdTimer f)\<rparr>)
      | EvExpire KeepAliveT \<Rightarrow> Some (f\<lparr>keepAliveTimer := expire_opt (keepAliveTimer f)\<rparr>)
      | EvExpire IdleHoldT \<Rightarrow> Some (f\<lparr>idleHoldTimer := the (expire_opt (Some (idleHoldTimer f)))\<rparr>)
      | EvBreak \<Rightarrow> Some (f\<lparr>f_conn := map_option (\<lambda>c. c\<lparr>c_broken := True\<rparr>) (f_conn f)\<rparr>)
      | _ \<Rightarrow> None)"

definition fsm_step :: "peerCtx \<Rightarrow> fsm \<Rightarrow> event \<Rightarrow> fsm go option" where
  "fsm_step p f ev =
     (case ambient_event f ev of
        Some f' \<Rightarrow> Some (Val f')
      | None \<Rightarrow>
          (case f_ctl f of
             Done \<Rightarrow> None
           | Sending t \<Rightarrow>
               (case ev of
                  EvSent \<Rightarrow> Some (Val (f\<lparr>f_ctl := Awaiting t\<rparr>))
                | EvClose r \<Rightarrow>
                    Some (enter_state p r (tr_to t) (newStateTransition (tr_from t) disabledState) f)
                | _ \<Rightarrow> None)
           | Awaiting t \<Rightarrow>
               (case ev of
                  EvReply t' r \<Rightarrow> Some (enter_state p r (tr_to t) t' f)
                | EvClose r \<Rightarrow>
                    Some (enter_state p r (tr_to t) (newStateTransition (tr_from t) disabledState) f)
                | _ \<Rightarrow> None)
           | Reporting s desired err \<Rightarrow>
               (case ev of
                  EvErrTaken \<Rightarrow> Some (Val (f\<lparr>f_ctl := Sending (newStateTransition s desired)\<rparr>))
                | EvClose r \<Rightarrow>
                    Some (Val (f\<lparr>f_ctl := Sending (newStateTransition s disabledState)\<rparr>))
                | _ \<Rightarrow> None)
           | Running s \<Rightarrow>
               (case state_event p s f ev of
                  None \<Rightarrow> None
                | Some m \<Rightarrow>
                    Some (go_bind m (\<lambda>(f, x).
                      case x of
                        None \<Rightarrow> enter_select s f
                      | Some (desired, err) \<Rightarrow> Val (next_iteration s desired err f))))))"

end
