(* ===== verification/FsmInv.thy ===== *)
theory FsmInv
  imports Fsm
begin

text \<open>
  What a state machine guarantees: the condition under which each state can be entered, kept by
  every step as long as the negotiated hold time is not zero, and what follows from it. The peer
  manager is taken to answer with the transition it was given, which is shown of it in the
  theory of the peer.
\<close>

section \<open>The environment\<close>

definition fresh_result :: "dialResult \<Rightarrow> bool" where
  "fresh_result r = (case r of DialConn c \<Rightarrow> c_out c = [] | _ \<Rightarrow> True)"

text \<open>Dialled connections are new, and no OPEN offers a hold time of zero.\<close>

fun good_event :: "event \<Rightarrow> bool" where
  "good_event (EvMsg (OpenMsg m)) \<longleftrightarrow> o_holdTime m \<noteq> 0"
| "good_event (EvDialResult r) \<longleftrightarrow> fresh_result r"
| "good_event (EvConnectRetry r) \<longleftrightarrow> fresh_result r"
| "good_event _ \<longleftrightarrow> True"

definition good_peer :: "peerCtx \<Rightarrow> bool" where
  "good_peer p \<longleftrightarrow> 3 * Second \<le> opt_holdTime (pc_options p)"

text \<open>A step under a manager that answers a transition with that transition.\<close>

definition managed_step :: "peerCtx \<Rightarrow> fsm \<Rightarrow> event \<Rightarrow> fsm go option" where
  "managed_step p f ev =
     (case (f_ctl f, ev) of
        (Awaiting t, EvReply t' r) \<Rightarrow> if t' = t then fsm_step p f ev else None
      | _ \<Rightarrow> fsm_step p f ev)"

section \<open>What each state relies on\<close>

definition hold_live :: "timer option \<Rightarrow> bool" where
  "hold_live t = (case t of None \<Rightarrow> False | Some t \<Rightarrow> tm_armed t \<noteq> None \<or> tm_chan t)"

definition open_octets :: "peerCtx \<Rightarrow> bytes \<Rightarrow> bool" where
  "open_octets p b \<longleftrightarrow>
     (\<exists>caps. openMessage_encode (newOpenMessage (LocalAS (pc_config p)) (opt_holdTime (pc_options p))
        (pc_id p) caps) = Inr b)"

definition update_octets :: "bytes \<Rightarrow> bool" where
  "update_octets b \<longleftrightarrow> (\<exists>u. b = prependHeader u updateMessageType)"

text \<open>What has been written to the connection in each state.\<close>

definition written :: "peerCtx \<Rightarrow> fsmState \<Rightarrow> bytes list \<Rightarrow> bool" where
  "written p s out =
     (case s of
        openSentState \<Rightarrow> (\<exists>b. out = [b] \<and> open_octets p b)
      | openConfirmState \<Rightarrow>
          (\<exists>b ks. out = b # keepAliveMessage_encode # ks \<and> open_octets p b \<and>
             set ks \<subseteq> {keepAliveMessage_encode})
      | establishedState \<Rightarrow>
          (\<exists>b ks. out = b # keepAliveMessage_encode # ks \<and> open_octets p b \<and>
             set ks \<subseteq> insert keepAliveMessage_encode {b. update_octets b})
      | _ \<Rightarrow> out = [])"

text \<open>The OPEN \<open>m\<close> of the peer has been accepted and the timers follow from it and the options.\<close>

definition agreed :: "peerCtx \<Rightarrow> openMessage \<Rightarrow> fsm \<Rightarrow> bool" where
  "agreed p m f \<longleftrightarrow>
     openMessage_validate m (pc_id p) (LocalAS (pc_config p)) (RemoteAS (pc_config p)) = ok () \<and>
     remoteID f = bgpID m \<and>
     holdTime f = min (int (unat (o_holdTime m)) * Second) (opt_holdTime (pc_options p)) \<and>
     3 * Second \<le> holdTime f \<and> keepAliveInterval f = go_quot (holdTime f) 3"

definition negotiated :: "peerCtx \<Rightarrow> fsm \<Rightarrow> bool" where
  "negotiated p f \<longleftrightarrow> (\<exists>m. agreed p m f)"

definition conn_written :: "peerCtx \<Rightarrow> fsmState \<Rightarrow> fsm \<Rightarrow> bool" where
  "conn_written p s f = (case f_conn f of None \<Rightarrow> False | Some c \<Rightarrow> written p s (c_out c))"

definition ready :: "peerCtx \<Rightarrow> fsmState \<Rightarrow> fsm \<Rightarrow> bool" where
  "ready p s f =
     (case s of
        disabledState \<Rightarrow> True
      | idleState \<Rightarrow> True
      | connectState \<Rightarrow> connectRetryTimer f \<noteq> None \<and> f_dial f = Dialing
      | activeState \<Rightarrow>
          if f_conn f = None then connectRetryTimer f \<noteq> None else conn_written p activeState f
      | openSentState \<Rightarrow> conn_written p s f \<and> f_reader f \<noteq> NoReader \<and> hold_live (holdTimer f)
      | _ \<Rightarrow> conn_written p s f \<and> f_reader f \<noteq> NoReader \<and> hold_live (holdTimer f) \<and>
             keepAliveTimer f \<noteq> None \<and> negotiated p f)"

definition legal :: "fsmState \<Rightarrow> fsmState \<Rightarrow> bool" where
  "legal s t \<longleftrightarrow>
     t \<in> (case s of
            disabledState \<Rightarrow> {idleState, activeState}
          | idleState \<Rightarrow> {disabledState, connectState}
          | connectState \<Rightarrow> {disabledState, idleState, openSentState}
          | activeState \<Rightarrow> {disabledState, idleState, connectState, openSentState}
          | openSentState \<Rightarrow> {disabledState, idleState, activeState, openConfirmState}
          | openConfirmState \<Rightarrow> {disabledState, idleState, establishedState}
          | establishedState \<Rightarrow> {disabledState, idleState})"

text \<open>
  Whether a session is open by the callbacks made so far; \<open>None\<close> if they do not alternate.
\<close>

definition sess_act :: "action \<Rightarrow> bool option \<Rightarrow> bool option" where
  "sess_act a s =
     (case (a, s) of
        (OnEstablishedCalled, Some False) \<Rightarrow> Some True
      | (OnEstablishedCalled, _) \<Rightarrow> None
      | (OnCloseCalled, Some True) \<Rightarrow> Some False
      | (OnCloseCalled, _) \<Rightarrow> None
      | (HandlerCalled _, Some True) \<Rightarrow> Some True
      | (HandlerCalled _, _) \<Rightarrow> None
      | _ \<Rightarrow> s)"

definition sess :: "action list \<Rightarrow> bool option" where
  "sess tr = fold sess_act tr (Some False)"

text \<open>
  The machine holds nothing any more: it has no connection, its reader has returned and no timer
  is armed. A connection that its dial delivers while it stops is not one it holds: \<open>cleanup\<close>
  receives the result and drops it without closing it, which the history shows as \<open>DialDropped\<close>.
\<close>

definition released :: "fsm \<Rightarrow> bool" where
  "released f \<longleftrightarrow>
     f_conn f = None \<and> f_reader f \<noteq> ReaderRunning \<and>
     (\<forall>t \<in> {connectRetryTimer f, holdTimer f, keepAliveTimer f, Some (idleHoldTimer f)}.
        case t of None \<Rightarrow> True | Some t \<Rightarrow> tm_armed t = None)"

definition fsm_inv :: "peerCtx \<Rightarrow> fsm \<Rightarrow> bool" where
  "fsm_inv p f =
     (case f_ctl f of
        Sending t \<Rightarrow> ready p (tr_to t) f \<and> legal (tr_from t) (tr_to t) \<and> sess (f_trace f) = Some False
      | Awaiting t \<Rightarrow> ready p (tr_to t) f \<and> legal (tr_from t) (tr_to t) \<and> sess (f_trace f) = Some False
      | Running s \<Rightarrow>
          s \<noteq> disabledState \<and> ready p s f \<and> (s = activeState \<longrightarrow> f_conn f = None) \<and>
          sess (f_trace f) = Some (s = establishedState)
      | Reporting s d e \<Rightarrow> s \<noteq> disabledState \<and> ready p d f \<and> legal s d \<and> sess (f_trace f) = Some False
      | Done \<Rightarrow> released f \<and> sess (f_trace f) = Some False)"

section \<open>Small facts\<close>

lemma sess_append: "sess (tr @ as) = fold sess_act as (sess tr)"
  by (simp add: sess_def)

lemma sess_act_simps [simp]:
  "sess_act GetCapabilitiesCalled s = s" "sess_act (OnOpenMessageCalled a cs) s = s"
  "sess_act DialStarted s = s" "sess_act DialCancelled s = s" "sess_act (DialDropped c) s = s"
  "sess_act (ConnClosed c) s = s" "sess_act OnEstablishedCalled (Some False) = Some True"
  "sess_act OnCloseCalled (Some True) = Some False" "sess_act (HandlerCalled b) (Some True) = Some True"
  by (simp_all add: sess_act_def)

lemma act_simps [simp]:
  "remoteID (act a f) = remoteID f" "f_conn (act a f) = f_conn f" "f_dial (act a f) = f_dial f"
  "f_reader (act a f) = f_reader f" "connectRetryTimer (act a f) = connectRetryTimer f"
  "holdTimer (act a f) = holdTimer f" "holdTime (act a f) = holdTime f"
  "keepAliveTimer (act a f) = keepAliveTimer f" "keepAliveInterval (act a f) = keepAliveInterval f"
  "idleHoldTimer (act a f) = idleHoldTimer f" "f_handler (act a f) = f_handler f"
  "f_ctl (act a f) = f_ctl f" "f_trace (act a f) = f_trace f @ [a]"
  by (simp_all add: act_def)

lemma cleanupConn_simps [simp]:
  "f_conn (cleanupConnAndReader f) = None" "holdTimer (cleanupConnAndReader f) = holdTimer f"
  "connectRetryTimer (cleanupConnAndReader f) = connectRetryTimer f"
  "keepAliveTimer (cleanupConnAndReader f) = keepAliveTimer f"
  "idleHoldTimer (cleanupConnAndReader f) = idleHoldTimer f"
  "f_reader (cleanupConnAndReader f) = (if f_reader f = NoReader then NoReader else ReaderDone)"
  "f_ctl (cleanupConnAndReader f) = f_ctl f"
  "sess (f_trace (cleanupConnAndReader f)) = sess (f_trace f)"
  by (simp_all add: cleanupConnAndReader_def Let_def sess_append split: option.splits)

lemma write_conn_Some:
  assumes "f_conn f = Some c"
  obtains c' err where "write_conn b f = Val (f\<lparr>f_conn := Some c'\<rparr>, err)"
    and "c_out c' = (if err = None then c_out c @ [b] else c_out c)"
proof -
  obtain c' err where w: "conn_Write b c = (c', err)" by (cases "conn_Write b c")
  then have "c_out c' = (if err = None then c_out c @ [b] else c_out c)"
    by (auto simp: conn_Write_def split: if_splits)
  with w assms show thesis by (intro that) (simp_all add: write_conn_def)
qed

lemma hold_live_simps [simp]:
  "\<not> hold_live None" "hold_live (Some (NewTimer d))" "hold_live (Some (timer_Reset d t))"
  by (simp_all add: hold_live_def NewTimer_def timer_Reset_def)

lemma drain_live:
  assumes "hold_live (holdTimer f)"
  obtains t where "drainAndResetHoldTimer f = Val (f\<lparr>holdTimer := Some (timer_Reset (holdTime f) t)\<rparr>)"
proof -
  from assms obtain t where t: "holdTimer f = Some t" "tm_armed t \<noteq> None \<or> tm_chan t"
    by (auto simp: hold_live_def split: option.splits)
  show thesis
  proof (cases "tm_armed t = None")
    case True
    with t show thesis
      by (intro that [of "t\<lparr>tm_armed := None, tm_chan := False\<rparr>"])
         (simp add: drainAndResetHoldTimer_def timer_Stop_def)
  next
    case False
    with t show thesis
      by (intro that [of "t\<lparr>tm_armed := None\<rparr>"]) (simp add: drainAndResetHoldTimer_def timer_Stop_def)
  qed
qed

lemma handleNotificationInErr_Val:
  assumes "f_conn f = Some c"
  obtains c' where "handleNotificationInErr err f = Val (f\<lparr>f_conn := Some c'\<rparr>)"
proof (cases "\<exists>n. as_notificationError err = Some (n, True)")
  case True
  then obtain n where n: "as_notificationError err = Some (n, True)" by blast
  from assms obtain c' e where "write_conn (Notification_encode n) f = Val (f\<lparr>f_conn := Some c'\<rparr>, e)"
    by (rule write_conn_Some)
  with n that show ?thesis by (simp add: handleNotificationInErr_def sendNotification_def)
next
  case False
  then have "handleNotificationInErr err f = Val (f\<lparr>f_conn := Some c\<rparr>)"
    using assms by (auto simp: handleNotificationInErr_def split: option.splits bool.splits)
  with that show ?thesis .
qed

section \<open>Outcomes\<close>

text \<open>The outcome does not fault and satisfies \<open>C\<close> or, on a return, \<open>R\<close>.\<close>

definition sat :: "(fsm \<Rightarrow> bool) \<Rightarrow> (fsm \<Rightarrow> fsmState \<Rightarrow> bool) \<Rightarrow> outcome \<Rightarrow> bool" where
  "sat C R r =
     (case r of
        None \<Rightarrow> True
      | Some (Fault _) \<Rightarrow> False
      | Some (Val (f, None)) \<Rightarrow> C f
      | Some (Val (f, Some (to, err))) \<Rightarrow> R f to)"

lemma sat_simps [simp]:
  "sat C R None" "\<not> sat C R (Some (Fault e))" "sat C R (Some (Val (f, None))) = C f"
  "sat C R (Some (Val (f, Some (to, err)))) = R f to"
  "sat C R (returns f to err) = R f to" "sat C R (continues f) = C f"
  by (simp_all add: sat_def returns_def continues_def)

lemma sat_send_and_return:
  assumes "f_conn f = Some c" "\<And>c'. R (f\<lparr>f_conn := Some c'\<rparr>) to"
  shows "sat C R (send_and_return n to f)"
proof -
  from assms(1) obtain c' e where "write_conn (Notification_encode n) f = Val (f\<lparr>f_conn := Some c'\<rparr>, e)"
    by (rule write_conn_Some)
  with assms(2) show ?thesis by (simp add: send_and_return_def sendNotification_def)
qed

lemma sat_from_reader: "(f_reader f = ReaderRunning \<Longrightarrow> sat C R (k f)) \<Longrightarrow> sat C R (from_reader f k)"
  by (simp add: from_reader_def)

lemma sat_on_return:
  assumes "sat C R' r" "\<And>f to. R' f to \<Longrightarrow> \<exists>f'. fin f to = Val f' \<and> R f' to"
  shows "sat C R (on_return fin r)"
proof (cases r)
  case (Some m)
  with assms(1) obtain f x where m: "m = Val (f, x)" by (cases m) auto
  show ?thesis
  proof (cases x)
    case None
    with Some m assms(1) show ?thesis by (simp add: on_return_def)
  next
    case (Some y)
    obtain to err where y: "y = (to, err)" by (cases y)
    with \<open>r = Some m\<close> m Some assms obtain f' where "fin f to = Val f'" "R f' to" by auto
    with \<open>r = Some m\<close> m Some y show ?thesis by (simp add: on_return_def)
  qed
qed (simp add: on_return_def)

definition stays :: "peerCtx \<Rightarrow> fsmState \<Rightarrow> fsm \<Rightarrow> bool" where
  "stays p s f \<longleftrightarrow>
     ready p s f \<and> (s = activeState \<longrightarrow> f_conn f = None) \<and> sess (f_trace f) = Some (s = establishedState)"

definition leaves :: "peerCtx \<Rightarrow> fsmState \<Rightarrow> fsm \<Rightarrow> fsmState \<Rightarrow> bool" where
  "leaves p s f to \<longleftrightarrow> ready p to f \<and> legal s to \<and> sess (f_trace f) = Some False"

lemma ready_easy [simp]: "ready p disabledState f" "ready p idleState f"
  by (simp_all add: ready_def)

lemma legal_easy [simp]:
  "s \<noteq> disabledState \<Longrightarrow> legal s disabledState"
  "legal connectState idleState" "legal activeState idleState" "legal openSentState idleState"
  "legal openConfirmState idleState" "legal establishedState idleState" "legal idleState connectState"
  "legal connectState openSentState" "legal activeState openSentState" "legal activeState connectState"
  "legal openSentState activeState" "legal openSentState openConfirmState"
  "legal openConfirmState establishedState" "legal disabledState idleState"
  "legal disabledState activeState"
  by (auto simp: legal_def split: fsmState.splits)

lemma sendOpen_sat:
  assumes "f_conn f = Some c" "c_out c = []"
  obtains f' to where "sendOpenAndSetHoldTimer p f = Val (f', to)" "to = idleState \<or> to = openSentState"
    "ready p to f'" "sess (f_trace f') = sess (f_trace f)"
proof (cases "openMessage_encode (newOpenMessage (LocalAS (pc_config p)) (opt_holdTime (pc_options p)) (pc_id p)
    (pi_GetCapabilities (pc_plugin p) (f_trace f) (pc_config p)))")
  case (Inl e)
  with assms that show thesis
    by (simp add: sendOpenAndSetHoldTimer_def Let_def sess_append)
next
  case (Inr b)
  have "f_conn (act GetCapabilitiesCalled f) = Some c" using assms by simp
  then obtain c' err where w: "write_conn b (act GetCapabilitiesCalled f) =
      Val ((act GetCapabilitiesCalled f)\<lparr>f_conn := Some c'\<rparr>, err)"
    "c_out c' = (if err = None then c_out c @ [b] else c_out c)" by (rule write_conn_Some)
  have "open_octets p b" using Inr by (auto simp: open_octets_def)
  with Inr w assms that show thesis
    by (cases err)
       (simp_all add: sendOpenAndSetHoldTimer_def Let_def sess_append startReading_def ready_def
         conn_written_def written_def)
qed

lemma idle_sat:
  assumes "sess (f_trace f) = Some False"
  shows "sat (stays p idleState) (leaves p idleState) (idle p f ev)"
  using assms
  by (auto simp: idle_def leaves_def ready_def dialPeer_def sess_append Let_def
      split: event.splits timer_id.splits option.splits)

lemma active_sat:
  assumes "sess (f_trace f) = Some False"
  shows "sat (stays p activeState) (leaves p activeState) (active p f ev)"
  using assms
  by (auto simp: active_def leaves_def ready_def dialPeer_def sess_append
      split: event.splits timer_id.splits option.splits)

lemma got_conn_sat:
  assumes "c_out c = []" "sess (f_trace f) = Some False"
  shows "sat C (leaves p connectState) (got_conn p c f)"
proof -
  have "f_conn (f\<lparr>f_conn := Some c\<rparr>) = Some c" by simp
  from sendOpen_sat [OF this assms(1), of p] obtain f' to where
    "sendOpenAndSetHoldTimer p (f\<lparr>f_conn := Some c\<rparr>) = Val (f', to)" "to = idleState \<or> to = openSentState"
    "ready p to f'" "sess (f_trace f') = sess (f_trace (f\<lparr>f_conn := Some c\<rparr>))" by blast
  with assms(2) show ?thesis by (auto simp: got_conn_def leaves_def)
qed

lemma cancel_dial_Val:
  assumes "f_dial f \<noteq> NoDial"
  obtains f' where "cancel_dial r f = Val f'" "sess (f_trace f') = sess (f_trace f)" "f_ctl f' = f_ctl f"
proof -
  from assms have "\<exists>f'. cancel_dial r f = Val f' \<and> sess (f_trace f') = sess (f_trace f) \<and> f_ctl f' = f_ctl f"
    by (cases "f_dial f"; cases r) (simp_all add: cancel_dial_def recv_dial_def sess_append)
  with that show thesis by blast
qed

lemma connect_sat:
  assumes ready: "connectRetryTimer f \<noteq> None" "f_dial f = Dialing" and se: "sess (f_trace f) = Some False"
    and ev: "good_event ev"
  shows "sat (stays p connectState) (leaves p connectState) (connect p f ev)"
proof (cases ev)
  case (EvClose r)
  from ready(2) have "f_dial f \<noteq> NoDial" by simp
  then obtain f' where "cancel_dial r f = Val f'" "sess (f_trace f') = sess (f_trace f)"
    by (rule cancel_dial_Val)
  with se EvClose show ?thesis by (simp add: connect_def leaves_def)
next
  case (EvDialResult r)
  then show ?thesis
    using ready se ev
    by (cases r) (simp_all add: connect_def recv_dial_def leaves_def sess_append got_conn_sat fresh_result_def)
next
  case (EvConnectRetry r)
  show ?thesis
  proof (cases "recv_timer (connectRetryTimer f)")
    case (Some t)
    then show ?thesis
      using EvConnectRetry ready se ev
      by (cases r) (simp_all add: connect_def recv_dial_def stays_def ready_def dialPeer_def sess_append
          got_conn_sat fresh_result_def)
  qed (simp add: connect_def EvConnectRetry)
qed (simp_all add: connect_def)

section \<open>OpenSent\<close>

lemma openMessage_validate_total: "openMessage_validate m i las ras \<noteq> Fault f"
  by (auto simp: openMessage_validate_def try_bind_Fault_iff validate_caps_total)

lemma validated_holdTime:
  assumes "openMessage_validate m i las ras = ok ()" "o_holdTime m \<noteq> 0"
  shows "3 \<le> unat (o_holdTime m)"
  using assms by (auto simp: openMessage_validate_def word_less_nat_alt split: if_splits)

lemma conn_writtenE:
  assumes "conn_written p s f"
  obtains c where "f_conn f = Some c" "written p s (c_out c)"
  using assms by (auto simp: conn_written_def split: option.splits)

text \<open>What the inner function of \<open>openSent\<close> returns with.\<close>

definition openSent_post :: "peerCtx \<Rightarrow> fsm \<Rightarrow> fsmState \<Rightarrow> bool" where
  "openSent_post p f to \<longleftrightarrow>
     sess (f_trace f) = Some False \<and>
     (to = openConfirmState \<and> ready p openConfirmState f \<or>
      to \<in> {disabledState, idleState} \<and> holdTimer f \<noteq> None \<or>
      to = activeState \<and> holdTimer f \<noteq> None \<and> connectRetryTimer f \<noteq> None)"

lemma negotiated_min:
  assumes "openMessage_validate m (pc_id p) (LocalAS (pc_config p)) (RemoteAS (pc_config p)) = ok ()"
    and "o_holdTime m \<noteq> 0" "good_peer p"
  defines "t \<equiv> min (int (unat (o_holdTime m)) * Second) (opt_holdTime (pc_options p))"
  shows "3 * Second \<le> t"
proof -
  have "3 \<le> int (unat (o_holdTime m))" using validated_holdTime [OF assms(1,2)] by linarith
  then have "3 * Second \<le> int (unat (o_holdTime m)) * Second" by (intro mult_right_mono) (simp_all add: less_imp_le)
  with assms(3) show ?thesis by (simp add: t_def good_peer_def)
qed

lemma openSent_accept:
  assumes v: "openMessage_validate m (pc_id p) (LocalAS (pc_config p)) (RemoteAS (pc_config p)) = ok ()"
    and nz: "o_holdTime m \<noteq> 0" "good_peer p"
    and c: "f_conn f = Some c" "written p openSentState (c_out c)"
    and f: "f_reader f \<noteq> NoReader" "hold_live (holdTimer f)" "sess (f_trace f) = Some False"
  shows "\<exists>f' to err. openSent_open p m f = Val (f', to, err) \<and> openSent_post p f' to"
proof -
  let ?caps = "getCapabilities m" and ?rid = "AddrFrom4 (PutUint32 (bgpID m))"
  let ?f = "act (OnOpenMessageCalled ?rid ?caps) (f\<lparr>remoteID := bgpID m\<rparr>)"
  define L where "L = int (unat (o_holdTime m)) * Second"
  let ?t = "min L (opt_holdTime (pc_options p))"
  have fc: "f_conn ?f = Some c" using c(1) by simp
  have t3: "3 * Second \<le> ?t" using negotiated_min [OF v nz] by (simp add: L_def)
  then have t0: "?t \<noteq> 0" using Second_pos by linarith
  have tt: "(if opt_holdTime (pc_options p) < L then opt_holdTime (pc_options p) else L) = ?t" by (simp add: min_def)
  have ht: "holdTimer f \<noteq> None" using f(2) by (auto simp: hold_live_def split: option.splits)
  show ?thesis
  proof (cases "pi_OnOpenMessage (pc_plugin p) (f_trace f) (pc_config p) ?rid ?caps")
    case (Some n)
    from fc obtain c' e where "write_conn (Notification_encode n) ?f = Val (?f\<lparr>f_conn := Some c'\<rparr>, e)"
      by (rule write_conn_Some)
    with Some v f(3) ht show ?thesis
      by (simp add: openSent_open_def Let_def sendNotification_def openSent_post_def sess_append)
  next
    case None
    from fc obtain c' e where w: "write_conn keepAliveMessage_encode ?f = Val (?f\<lparr>f_conn := Some c'\<rparr>, e)"
      "c_out c' = (if e = None then c_out c @ [keepAliveMessage_encode] else c_out c)"
      by (rule write_conn_Some)
    show ?thesis
    proof (cases e)
      case (Some err)
      with None v w f(3) ht show ?thesis
        by (simp add: openSent_open_def Let_def sendKeepAlive_def openSent_post_def sess_append)
    next
      case e: None
      let ?g = "?f\<lparr>f_conn := Some c', holdTime := ?t, keepAliveInterval := go_quot ?t 3,
        keepAliveTimer := Some (NewTimer (go_quot ?t 3))\<rparr>"
      have "hold_live (holdTimer ?g)" using f(2) by simp
      then obtain t where d: "drainAndResetHoldTimer ?g = Val (?g\<lparr>holdTimer := Some (timer_Reset (holdTime ?g) t)\<rparr>)"
        by (rule drain_live)
      let ?h = "?g\<lparr>holdTimer := Some (timer_Reset (holdTime ?g) t)\<rparr>"
      have "openSent_open p m f = Val (?h, openConfirmState, None)"
        unfolding openSent_open_def v Let_def sendKeepAlive_def L_def [symmetric] tt
        using None w(1) e t0 d by simp
      moreover have "ready p openConfirmState ?h"
        using w(2) e c(2) f(1) v t3
        by (auto simp: ready_def conn_written_def written_def negotiated_def agreed_def L_def)
      ultimately show ?thesis using f(3) by (simp add: openSent_post_def sess_append)
    qed
  qed
qed

lemma openSent_open_post:
  assumes nz: "o_holdTime m \<noteq> 0" "good_peer p"
    and c: "f_conn f = Some c" "written p openSentState (c_out c)"
    and f: "f_reader f \<noteq> NoReader" "hold_live (holdTimer f)" "sess (f_trace f) = Some False"
  shows "\<exists>f' to err. openSent_open p m f = Val (f', to, err) \<and> openSent_post p f' to"
proof (cases "openMessage_validate m (pc_id p) (LocalAS (pc_config p)) (RemoteAS (pc_config p))"
    rule: go_sum_cases)
  case (fail err)
  from c(1) obtain c' where "handleNotificationInErr err f = Val (f\<lparr>f_conn := Some c'\<rparr>)"
    by (rule handleNotificationInErr_Val)
  with fail f show ?thesis
    by (auto simp: openSent_open_def openSent_post_def hold_live_def split: option.splits)
next
  case (ok u)
  then have "openMessage_validate m (pc_id p) (LocalAS (pc_config p)) (RemoteAS (pc_config p)) = ok ()" by simp
  then show ?thesis using assms by (rule openSent_accept)
qed (simp add: openMessage_validate_total)

lemma hold_live_Some: "hold_live t \<Longrightarrow> t \<noteq> None"
  by (cases t) simp_all

lemma recv_timer_Some: "recv_timer t = Some t' \<Longrightarrow> t \<noteq> None"
  by (cases t) (simp_all add: recv_timer_def)

lemma openSent_fin:
  assumes "openSent_post p f to"
  shows "\<exists>f'. openSent_return f to = Val f' \<and> leaves p openSentState f' to"
  using assms by (auto simp: openSent_return_def openSent_post_def leaves_def stop_timer_def ready_def)

lemma openSent_sat:
  assumes nz: "good_event ev" "good_peer p" and r: "ready p openSentState f"
    and se: "sess (f_trace f) = Some False"
  shows "sat (stays p openSentState) (leaves p openSentState) (openSent p f ev)"
  unfolding openSent_def
proof (rule sat_on_return [where R' = "openSent_post p", OF _ openSent_fin])
  from r obtain c where c: "f_conn f = Some c" "written p openSentState (c_out c)"
    by (auto simp: ready_def elim: conn_writtenE)
  from r have f: "f_reader f \<noteq> NoReader" "hold_live (holdTimer f)" by (simp_all add: ready_def)
  then have h: "holdTimer f \<noteq> None" by (simp add: hold_live_Some)
  let ?sat = "sat (stays p openSentState) (openSent_post p)"
  have send: "?sat (send_and_return n to g)" if "f_conn g = Some c" "holdTimer g \<noteq> None" "f_trace g = f_trace f"
    "to = idleState \<or> to = disabledState" for n to g
    using that se by (intro sat_send_and_return [where c = c]) (auto simp: openSent_post_def)
  have read: "\<exists>c'. handleNotificationInErr err (f\<lparr>f_reader := ReaderDone\<rparr>) =
        Val (f\<lparr>f_reader := ReaderDone\<rparr>\<lparr>f_conn := Some c'\<rparr>)" for err
    by (rule handleNotificationInErr_Val [of "f\<lparr>f_reader := ReaderDone\<rparr>" c err]) (use c in auto)
  have msg: "?sat (Some (go_bind (openSent_open p m f) (\<lambda>(f, to, err). Val (f, Some (to, err)))))"
    if "o_holdTime m \<noteq> 0" for m
    using openSent_open_post [OF that nz(2) c f se] by auto
  show "?sat (openSent_select p f ev)"
  proof (cases ev)
    case (EvReadErr err)
    with read [of err] se h show ?thesis
      by (auto simp: openSent_select_def openSent_post_def intro!: sat_from_reader split: option.split)
  qed (use nz(1) c h se in \<open>auto simp: openSent_select_def openSent_post_def
      intro!: sat_from_reader send msg split: timer_id.split option.split message.split\<close>)
qed

section \<open>OpenConfirm and Established\<close>

text \<open>What the inner functions of \<open>openConfirm\<close> and \<open>established\<close> return with.\<close>

definition session_post :: "peerCtx \<Rightarrow> fsmState \<Rightarrow> fsm \<Rightarrow> fsmState \<Rightarrow> bool" where
  "session_post p s f to \<longleftrightarrow>
     sess (f_trace f) = Some (s = establishedState) \<and>
     (s = openConfirmState \<and> to = establishedState \<and> ready p establishedState f \<or>
      to \<in> {disabledState, idleState} \<and> holdTimer f \<noteq> None \<and> keepAliveTimer f \<noteq> None)"

abbreviation in_session :: "peerCtx \<Rightarrow> fsmState \<Rightarrow> fsm \<Rightarrow> bool" where
  "in_session p s f \<equiv> s \<in> {openConfirmState, establishedState} \<and> ready p s f \<and>
     sess (f_trace f) = Some (s = establishedState)"

lemma in_session_conn:
  assumes "in_session p s f"
  obtains c where "f_conn f = Some c" "written p s (c_out c)" "hold_live (holdTimer f)"
    "holdTimer f \<noteq> None" "keepAliveTimer f \<noteq> None" "f_reader f \<noteq> NoReader" "negotiated p f" "holdTime f \<noteq> 0"
proof -
  have "holdTime f \<noteq> 0" if "negotiated p f"
    using that Second_pos(1) by (auto simp: negotiated_def agreed_def simp del: Second_pos)
  with assms that show thesis
    by (auto simp: ready_def hold_live_Some elim!: conn_writtenE)
qed

lemma session_send:
  assumes "f_conn f = Some c" "holdTimer f \<noteq> None" "keepAliveTimer f \<noteq> None"
    "sess (f_trace f) = Some (s = establishedState)" "to = idleState \<or> to = disabledState"
  shows "sat C (session_post p s) (send_and_return n to f)"
  using assms by (intro sat_send_and_return [where c = c]) (auto simp: session_post_def)

lemma session_event_sat:
  assumes "in_session p s f"
  shows "sat C (session_post p s) (session_event msg f ev)"
proof -
  from assms obtain c where c: "f_conn f = Some c" "holdTimer f \<noteq> None" "keepAliveTimer f \<noteq> None"
    by (rule in_session_conn)
  have se: "sess (f_trace f) = Some (s = establishedState)" using assms by blast
  show ?thesis
  proof (cases ev)
    case (EvReadErr err)
    have "f_conn (f\<lparr>f_reader := ReaderDone\<rparr>) = Some c" using c by simp
    then obtain c' where "handleNotificationInErr err (f\<lparr>f_reader := ReaderDone\<rparr>) =
        Val (f\<lparr>f_reader := ReaderDone\<rparr>\<lparr>f_conn := Some c'\<rparr>)" by (rule handleNotificationInErr_Val)
    then show ?thesis using c se EvReadErr
      by (simp add: session_event_def session_post_def from_reader_def)
  qed (use c se in \<open>auto simp: session_event_def intro!: session_send split: timer_id.split option.split\<close>)
qed

lemma keepAlive_sat:
  assumes s: "in_session p s f" and t: "recv_timer (keepAliveTimer f) = Some t"
    and reset: "\<And>f. holdTime f \<noteq> 0 \<Longrightarrow> reset f = reset_keepAlive f"
  shows "sat (stays p s) (session_post p s)
    (Some (go_bind (sendKeepAlive (f\<lparr>keepAliveTimer := Some t\<rparr>)) (\<lambda>(f, err).
       case err of
         Some err \<Rightarrow> Val (f, Some (idleState, Some (WrapErr msg err)))
       | None \<Rightarrow> Val (reset f, None))))"
proof -
  from s obtain c where c: "f_conn f = Some c" "written p s (c_out c)" "hold_live (holdTimer f)"
    "holdTimer f \<noteq> None" "f_reader f \<noteq> NoReader" "negotiated p f" "holdTime f \<noteq> 0"
    by (rule in_session_conn)
  have "f_conn (f\<lparr>keepAliveTimer := Some t\<rparr>) = Some c" using c by simp
  then obtain c' e where w: "write_conn keepAliveMessage_encode (f\<lparr>keepAliveTimer := Some t\<rparr>) =
      Val (f\<lparr>keepAliveTimer := Some t\<rparr>\<lparr>f_conn := Some c'\<rparr>, e)"
    "c_out c' = (if e = None then c_out c @ [keepAliveMessage_encode] else c_out c)" by (rule write_conn_Some)
  show ?thesis
  proof (cases e)
    case (Some err)
    with w c s show ?thesis by (auto simp: sendKeepAlive_def session_post_def)
  next
    case None
    have "written p s (c_out c @ [keepAliveMessage_encode])"
      using s c(2) by (auto simp: written_def)
    with None w c s show ?thesis
      by (auto simp: sendKeepAlive_def stays_def ready_def conn_written_def reset reset_keepAlive_def negotiated_def agreed_def)
  qed
qed

lemma session_drain:
  assumes "in_session p s f"
  obtains t where "drainAndResetHoldTimer f = Val (f\<lparr>holdTimer := Some t\<rparr>)"
    "in_session p s (f\<lparr>holdTimer := Some t\<rparr>)"
proof -
  from assms have "hold_live (holdTimer f)" by (rule in_session_conn)
  then obtain t where "drainAndResetHoldTimer f = Val (f\<lparr>holdTimer := Some (timer_Reset (holdTime f) t)\<rparr>)"
    by (rule drain_live)
  with assms that show thesis by (auto simp: ready_def conn_written_def negotiated_def agreed_def)
qed

lemma written_mono: "written p openConfirmState out \<Longrightarrow> written p establishedState out"
  by (auto simp: written_def)

lemma end_session_fin:
  assumes "session_post p s f to" "to \<noteq> establishedState"
  shows "\<exists>f'. end_session f = Val f' \<and> sess (f_trace f') = sess (f_trace f) \<and> to \<in> {disabledState, idleState}"
  using assms by (auto simp: session_post_def end_session_def stop_timer_def)

lemma openConfirm_sat:
  assumes s: "in_session p openConfirmState f"
  shows "sat (stays p openConfirmState) (leaves p openConfirmState) (openConfirm p f ev)"
  unfolding openConfirm_def
proof (rule sat_on_return [where R' = "session_post p openConfirmState"])
  fix f to assume "session_post p openConfirmState f to"
  then show "\<exists>f'. openConfirm_return f to = Val f' \<and> leaves p openConfirmState f' to"
    using end_session_fin [of p openConfirmState f to]
    by (auto simp: openConfirm_return_def leaves_def session_post_def)
next
  from s obtain c where c: "f_conn f = Some c" "holdTimer f \<noteq> None" "keepAliveTimer f \<noteq> None"
    by (rule in_session_conn)
  have ka: "sat (stays p openConfirmState) (session_post p openConfirmState)
    (Some (go_bind (drainAndResetHoldTimer f) (\<lambda>f. Val (f, Some (establishedState, None)))))"
  proof -
    from s obtain t where t: "drainAndResetHoldTimer f = Val (f\<lparr>holdTimer := Some t\<rparr>)"
      "in_session p openConfirmState (f\<lparr>holdTimer := Some t\<rparr>)" by (rule session_drain)
    from t(2) have "ready p establishedState (f\<lparr>holdTimer := Some t\<rparr>)"
      by (auto simp: ready_def conn_written_def intro: written_mono split: option.splits)
    with t show ?thesis by (simp add: session_post_def)
  qed
  show "sat (stays p openConfirmState) (session_post p openConfirmState) (openConfirm_select p f ev)"
    using s c session_event_sat [OF s, of "stays p openConfirmState" "''reader error: ''" ev]
    by (auto simp: openConfirm_select_def session_post_def split: event.split timer_id.split option.split message.split
        intro!: sat_from_reader session_send keepAlive_sat ka)
qed

lemma drain_if_nonzero_sat:
  assumes "in_session p establishedState f"
  shows "sat (stays p establishedState) R (drain_if_nonzero f)"
proof -
  from assms obtain t where "drainAndResetHoldTimer f = Val (f\<lparr>holdTimer := Some t\<rparr>)"
    "in_session p establishedState (f\<lparr>holdTimer := Some t\<rparr>)" by (rule session_drain)
  moreover have "holdTime f \<noteq> 0" using assms by (rule in_session_conn)
  ultimately show ?thesis by (simp add: drain_if_nonzero_def stays_def)
qed

lemma WriteUpdate_sat:
  assumes s: "in_session p establishedState f"
  shows "sat (stays p establishedState) R (Some (go_bind (WriteUpdate b f) (\<lambda>(f, _). Val (f, None))))"
proof (cases "f_ctl f = Running establishedState")
  case True
  from s obtain c where c: "f_conn f = Some c" "written p establishedState (c_out c)" "holdTime f \<noteq> 0"
    by (rule in_session_conn)
  from c(1) obtain c' e where w: "write_conn (prependHeader b updateMessageType) f = Val (f\<lparr>f_conn := Some c'\<rparr>, e)"
    "c_out c' = (if e = None then c_out c @ [prependHeader b updateMessageType] else c_out c)"
    by (rule write_conn_Some)
  have "update_octets (prependHeader b updateMessageType)" by (auto simp: update_octets_def)
  with w(2) c(2) have "written p establishedState (c_out c')" by (auto simp: written_def)
  with True w(1) c(3) s show ?thesis
    by (auto simp: WriteUpdate_def resetKATimer_def reset_keepAlive_def stays_def ready_def
        conn_written_def negotiated_def agreed_def)
qed (use s in \<open>simp add: WriteUpdate_def stays_def\<close>)

lemma established_sat:
  assumes s: "in_session p establishedState f"
  shows "sat (stays p establishedState) (leaves p establishedState) (established p f ev)"
  unfolding established_def
proof (rule sat_on_return [where R' = "session_post p establishedState"])
  fix f to assume "session_post p establishedState f to"
  then show "\<exists>f'. established_return f to = Val f' \<and> leaves p establishedState f' to"
    using end_session_fin [of p establishedState f to]
    by (auto simp: established_return_def leaves_def session_post_def sess_append)
next
  let ?sat = "sat (stays p establishedState) (session_post p establishedState)"
  from s obtain c where c: "f_conn f = Some c" "holdTimer f \<noteq> None" "keepAliveTimer f \<noteq> None"
    by (rule in_session_conn)
  have handled: "in_session p establishedState (act (HandlerCalled b) f)" for b
    using s by (simp add: sess_append ready_def conn_written_def negotiated_def agreed_def)
  have upd: "?sat (case f_handler f of
       None \<Rightarrow> drain_if_nonzero f
     | Some handler \<Rightarrow>
         let n = handler (f_trace f) b; f = act (HandlerCalled b) f in
         (case n of Some n \<Rightarrow> send_and_return n idleState f | None \<Rightarrow> drain_if_nonzero f))" for b
    using c s handled [of b]
    by (auto simp: Let_def split: option.split intro!: drain_if_nonzero_sat session_send)
  show "?sat (established_select p f ev)"
  proof (cases ev)
    case (EvMsg m)
    show ?thesis
    proof (cases m)
      case (UpdateMsg b)
      with EvMsg upd [of b] show ?thesis by (simp add: established_select_def from_reader_def)
    qed (use EvMsg c s in \<open>auto simp: established_select_def session_post_def
           intro!: sat_from_reader session_send drain_if_nonzero_sat\<close>)
  next
    case (EvTimer i)
    then show ?thesis
      using s session_event_sat [OF s, of "stays p establishedState" "''error from reader: ''" ev]
      by (auto simp: established_select_def resetKATimer_def split: timer_id.split option.split
          intro!: keepAlive_sat)
  qed (use s session_event_sat [OF s, of "stays p establishedState" "''error from reader: ''" ev]
       WriteUpdate_sat [OF s] in \<open>auto simp: established_select_def\<close>)
qed

section \<open>The run loop\<close>

lemma ready_ctl [simp]: "ready p s (f\<lparr>f_ctl := x\<rparr>) = ready p s f"
  by (cases s) (simp_all add: ready_def conn_written_def negotiated_def agreed_def)

lemma stop_opt_armed: "case stop_opt t of None \<Rightarrow> True | Some t \<Rightarrow> tm_armed t = None"
  by (cases t) (simp_all add: stop_opt_def timer_Stop_def)

lemma cleanup_inv:
  assumes "sess (f_trace f) = Some False"
  shows "\<exists>f'. go_bind (cleanup r f) (\<lambda>f. Val (f\<lparr>f_ctl := Done\<rparr>)) = Val f' \<and> fsm_inv p f' \<and> f_ctl f' = Done"
proof -
  obtain f' where f': "(if f_dial f \<noteq> NoDial then cancel_dial r f else Val f) = Val f'"
    "sess (f_trace f') = Some False"
    using assms by (cases "f_dial f = NoDial") (auto elim: cancel_dial_Val [of f r])
  have "tm_armed (fst (timer_Stop t)) = None" for t by (simp add: timer_Stop_def)
  with f' show ?thesis
    by (simp add: cleanup_def Let_def fsm_inv_def released_def stop_opt_armed)
qed

lemma enter_select_inv:
  assumes "stays p s f" "s \<noteq> disabledState"
  shows "\<exists>f'. enter_select s f = Val f' \<and> fsm_inv p f'"
proof -
  have "enter_select s f = Val (f\<lparr>f_ctl := Running s\<rparr>)"
    using assms
    by (cases s) (auto simp: stays_def enter_select_def ready_def conn_written_def dest!: hold_live_Some)
  with assms show ?thesis by (simp add: stays_def fsm_inv_def)
qed

lemma next_iteration_inv:
  assumes "leaves p s f to" "s \<noteq> disabledState"
  shows "fsm_inv p (next_iteration s to err f)"
  using assms by (cases err) (simp_all add: next_iteration_def fsm_inv_def leaves_def newStateTransition_def)

lemma active_conn_inv:
  assumes "ready p activeState f" "f_conn f \<noteq> None" "sess (f_trace f) = Some False"
  shows "\<exists>f'. go_bind (sendOpenAndSetHoldTimer p f) (\<lambda>(f, to). Val (next_iteration activeState to None f)) = Val f'
    \<and> fsm_inv p f'"
proof -
  from assms(1,2) obtain c where "f_conn f = Some c" "c_out c = []"
    by (auto simp: ready_def conn_written_def written_def)
  then obtain f' to where s: "sendOpenAndSetHoldTimer p f = Val (f', to)" "to = idleState \<or> to = openSentState"
    "ready p to f'" "sess (f_trace f') = sess (f_trace f)" by (rule sendOpen_sat)
  with assms(3) have "leaves p activeState f' to" by (auto simp: leaves_def)
  from next_iteration_inv [OF this] s(1) show ?thesis by simp
qed

lemma enter_disabled_inv:
  assumes "sess (f_trace f) = Some False"
  shows "\<exists>f'. enter_state p r d (newStateTransition s disabledState) f = Val f' \<and> fsm_inv p f' \<and>
    f_ctl f' = Done"
proof (cases "f_conn f")
  case None
  with cleanup_inv [OF assms] show ?thesis by (simp add: enter_state_def newStateTransition_def)
next
  case (Some c)
  then obtain c' e where "write_conn (Notification_encode cease) f = Val (f\<lparr>f_conn := Some c'\<rparr>, e)"
    by (rule write_conn_Some)
  with cleanup_inv [of f] cleanup_inv [of "f\<lparr>f_conn := Some c'\<rparr>"] assms show ?thesis
    by (simp add: enter_state_def newStateTransition_def sendNotification_def)
qed

lemma enter_state_inv:
  assumes "ready p (tr_to t) f" "sess (f_trace f) = Some False"
  shows "\<exists>f'. enter_state p r (tr_to t) t f = Val f' \<and> fsm_inv p f'"
proof -
  have sel: "\<exists>f'. enter_select s f = Val f' \<and> fsm_inv p f'" if "tr_to t = s" "s \<noteq> disabledState"
    "s \<noteq> establishedState" "s = activeState \<Longrightarrow> f_conn f = None" for s
    using that assms by (intro enter_select_inv) (simp_all add: stays_def)
  let ?e = "act OnEstablishedCalled f\<lparr>f_handler := pi_OnEstablished (pc_plugin p) (f_trace f) (pc_config p)\<rparr>"
  have "\<exists>f'. enter_select establishedState ?e = Val f' \<and> fsm_inv p f'" if "tr_to t = establishedState"
    using that assms by (intro enter_select_inv) (simp_all add: stays_def sess_append ready_def conn_written_def negotiated_def agreed_def)
  moreover have "\<exists>f'. go_bind (cleanup r f) (\<lambda>f. Val (f\<lparr>f_ctl := Done\<rparr>)) = Val f' \<and> fsm_inv p f'"
    using cleanup_inv [OF assms(2)] by blast
  ultimately show ?thesis using sel active_conn_inv [of p f] assms
    by (cases "tr_to t") (simp_all add: enter_state_def Let_def)
qed

lemma state_event_sat:
  assumes "fsm_inv p f" "f_ctl f = Running s" "good_peer p" "good_event ev"
  shows "sat (stays p s) (leaves p s) (state_event p s f ev)"
proof -
  have "s \<noteq> disabledState" "ready p s f" "sess (f_trace f) = Some (s = establishedState)"
    using assms(1,2) by (simp_all add: fsm_inv_def)
  then show ?thesis
    using assms(3,4)
    by (cases s) (auto simp: state_event_def ready_def intro!: idle_sat connect_sat active_sat openSent_sat
        openConfirm_sat established_sat)
qed

lemma expire_live: "hold_live t \<Longrightarrow> hold_live (expire_opt t)"
  by (cases t) (auto simp: hold_live_def expire_opt_def timer_expire_def)

lemma expire_None [simp]: "expire_opt t = None \<longleftrightarrow> t = None"
  by (simp add: expire_opt_def)

lemma expire_unarmed:
  "(case t of None \<Rightarrow> True | Some t \<Rightarrow> tm_armed t = None) \<Longrightarrow> expire_opt t = t"
  by (cases t) (simp_all add: expire_opt_def)

text \<open>What the condition of a state depends on.\<close>

lemma ready_cong:
  assumes "ready p s f" "map_option c_out (f_conn g) = map_option c_out (f_conn f)"
    "connectRetryTimer g = None \<longleftrightarrow> connectRetryTimer f = None" "f_dial g = f_dial f" "f_reader g = f_reader f"
    "hold_live (holdTimer f) \<Longrightarrow> hold_live (holdTimer g)" "keepAliveTimer g = None \<longleftrightarrow> keepAliveTimer f = None"
    "remoteID g = remoteID f" "holdTime g = holdTime f" "keepAliveInterval g = keepAliveInterval f"
  shows "ready p s g"
proof -
  have c: "conn_written p t g \<longleftrightarrow> conn_written p t f" "f_conn g = None \<longleftrightarrow> f_conn f = None" for t
    using assms(2) by (cases "f_conn f"; cases "f_conn g"; simp add: conn_written_def)+
  have n: "negotiated p g \<longleftrightarrow> negotiated p f" using assms(8-10) by (simp add: negotiated_def agreed_def)
  show ?thesis
    using assms(1,3-7) by (cases s) (simp_all add: ready_def c n)
qed

text \<open>Timers and failing connections leave what the states rely on.\<close>

lemma ambient_frame:
  assumes "ambient_event f ev = Some f'"
  shows "f_ctl f' = f_ctl f" "f_trace f' = f_trace f" "f_conn f' = None \<longleftrightarrow> f_conn f = None"
    "ready p s f \<Longrightarrow> ready p s f'"
proof -
  have out: "map_option c_out (map_option (\<lambda>c. c\<lparr>c_broken := True\<rparr>) c) = map_option c_out c" for c :: "conn option"
    by (cases c) simp_all
  show "ready p s f'" if "ready p s f"
    using assms by (cases ev) (auto simp: ambient_event_def out expire_live intro!: ready_cong [OF that]
        split: timer_id.splits)
qed (use assms in \<open>auto simp: ambient_event_def split: event.splits timer_id.splits\<close>)

lemma ambient_inv:
  assumes "fsm_inv p f" "ambient_event f ev = Some f'"
  shows "fsm_inv p f'"
proof (cases "f_ctl f")
  case Done
  with assms show ?thesis
    by (auto simp: fsm_inv_def ambient_event_def released_def expire_unarmed
        split: event.splits timer_id.splits)
qed (use assms ambient_frame [OF assms(2)] in \<open>auto simp: fsm_inv_def\<close>)

lemma managed_cases:
  assumes "managed_step p f ev = Some r" "ambient_event f ev = None"
  obtains (Sent) t where "f_ctl f = Sending t" "r = Val (f\<lparr>f_ctl := Awaiting t\<rparr>)"
  | (Close) t d where "f_ctl f = Sending t \<or> f_ctl f = Awaiting t"
      "r = enter_state p d (tr_to t) (newStateTransition (tr_from t) disabledState) f"
  | (Reply) t d where "f_ctl f = Awaiting t" "r = enter_state p d (tr_to t) t f"
  | (Taken) s d e where "f_ctl f = Reporting s d e" "r = Val (f\<lparr>f_ctl := Sending (newStateTransition s d)\<rparr>)"
  | (Dropped) s d e where "f_ctl f = Reporting s d e"
      "r = Val (f\<lparr>f_ctl := Sending (newStateTransition s disabledState)\<rparr>)"
  | (Event) s m where "f_ctl f = Running s" "state_event p s f ev = Some m"
      "r = go_bind m (\<lambda>(f, x). case x of None \<Rightarrow> enter_select s f
         | Some (desired, err) \<Rightarrow> Val (next_iteration s desired err f))"
proof (cases "f_ctl f")
  case (Running s)
  then obtain m where "state_event p s f ev = Some m"
      "r = go_bind m (\<lambda>(f, x). case x of None \<Rightarrow> enter_select s f
         | Some (desired, err) \<Rightarrow> Val (next_iteration s desired err f))"
    using assms by (cases "state_event p s f ev") (simp_all add: managed_step_def fsm_step_def)
  then show thesis by (rule that(6) [OF Running])
next
  case (Reporting s d e)
  then have "r = Val (f\<lparr>f_ctl := Sending (newStateTransition s d)\<rparr>) \<or>
    r = Val (f\<lparr>f_ctl := Sending (newStateTransition s disabledState)\<rparr>)"
    using assms by (cases ev) (simp_all add: managed_step_def fsm_step_def)
  then show thesis using that(4) [OF Reporting] that(5) [OF Reporting] by fast
next
  case (Awaiting t)
  then have "(\<exists>d. r = enter_state p d (tr_to t) t f) \<or>
    (\<exists>d. r = enter_state p d (tr_to t) (newStateTransition (tr_from t) disabledState) f)"
    using assms by (cases ev) (auto simp: managed_step_def fsm_step_def split: if_splits)
  then show thesis using that(2) [OF disjI2, OF Awaiting] that(3) [OF Awaiting] by fast
next
  case (Sending t)
  then have "r = Val (f\<lparr>f_ctl := Awaiting t\<rparr>) \<or>
    (\<exists>d. r = enter_state p d (tr_to t) (newStateTransition (tr_from t) disabledState) f)"
    using assms by (cases ev) (auto simp: managed_step_def fsm_step_def)
  then show thesis using that(1) [OF Sending] that(2) [OF disjI1, OF Sending] by fast
next
  case Done
  then have "managed_step p f ev = None" using assms(2) by (simp add: managed_step_def fsm_step_def)
  with assms(1) show thesis by simp
qed

lemma event_inv:
  assumes "sat (stays p s) (leaves p s) (Some m)" "s \<noteq> disabledState"
  shows "\<exists>f'. go_bind m (\<lambda>(f, x). case x of None \<Rightarrow> enter_select s f
     | Some (desired, err) \<Rightarrow> Val (next_iteration s desired err f)) = Val f' \<and> fsm_inv p f'"
proof (cases m)
  case (Val y)
  obtain g x where y: "y = (g, x)" by (cases y)
  show ?thesis
  proof (cases x)
    case None
    with Val y assms enter_select_inv [of p s g] show ?thesis by simp
  next
    case (Some z)
    with Val y assms next_iteration_inv [of p s g "fst z" "snd z"] show ?thesis by (cases z) simp
  qed
qed (use assms in simp)

lemma fsm_step_inv:
  assumes inv: "fsm_inv p f" and good: "good_peer p" "good_event ev"
    and step: "managed_step p f ev = Some r"
  shows "\<exists>f'. r = Val f' \<and> fsm_inv p f'"
proof (cases "ambient_event f ev")
  case (Some f')
  with step have "r = Val f'"
    by (cases "f_ctl f"; cases ev) (simp_all add: managed_step_def fsm_step_def ambient_event_def)
  with ambient_inv [OF inv Some] show ?thesis by simp
next
  case None
  from step None show ?thesis
  proof (cases rule: managed_cases)
    case (Close t d)
    with inv have "sess (f_trace f) = Some False" by (auto simp: fsm_inv_def)
    with Close(2) show ?thesis using enter_disabled_inv by blast
  next
    case (Reply t d)
    with inv have "ready p (tr_to t) f" "sess (f_trace f) = Some False" by (simp_all add: fsm_inv_def)
    with Reply(2) show ?thesis by (simp add: enter_state_inv)
  next
    case (Event s m)
    have "sat (stays p s) (leaves p s) (Some m)"
      using state_event_sat [OF inv Event(1) good] Event(2) by simp
    moreover have "s \<noteq> disabledState" using inv Event(1) by (simp add: fsm_inv_def)
    ultimately show ?thesis unfolding Event(3) by (rule event_inv)
  qed (use inv in \<open>simp_all add: fsm_inv_def newStateTransition_def\<close>)
qed

text \<open>A machine starts without a connection or with an accepted one that is still unused.\<close>

definition fsm_start :: "fsm \<Rightarrow> bool" where
  "fsm_start f \<longleftrightarrow> (\<exists>c. f = newFSM c \<and> (case c of None \<Rightarrow> True | Some c \<Rightarrow> c_out c = []))"

lemma fsm_start_inv: "fsm_start f \<Longrightarrow> fsm_inv p f"
  by (auto simp: fsm_start_def newFSM_def fsm_inv_def newStateTransition_def ready_def conn_written_def
      written_def sess_def split: option.splits)

abbreviation fsm_reach :: "peerCtx \<Rightarrow> fsm \<Rightarrow> bool" where
  "fsm_reach p \<equiv> reach (\<lambda>f. good_peer p \<and> fsm_start f) good_event (managed_step p)"

interpretation machine: go_safe "\<lambda>f. good_peer p \<and> fsm_start f" good_event "managed_step p"
  "\<lambda>f. good_peer p \<and> fsm_inv p f" for p
  by unfold_locales (auto simp: fsm_start_inv dest: fsm_step_inv)

end
