(* ===== verification/FsmProps.thy ===== *)
theory FsmProps
  imports FsmInv
begin

text \<open>
  The properties of the state machine, read off its invariant: it does not fault, what an
  established session is, how the plugin is called, which transitions it asks for, that it can
  always be stopped, and what a hold time of zero does to it.
\<close>

section \<open>Stopping\<close>

definition rank :: "control \<Rightarrow> nat" where
  "rank c = (case c of Done \<Rightarrow> 0 | Sending t \<Rightarrow> 1 | Awaiting t \<Rightarrow> 1 | Reporting s d e \<Rightarrow> 2 | Running s \<Rightarrow> 3)"

lemma close_returns:
  assumes "s \<noteq> disabledState"
  obtains m where "state_event p s f (EvClose r) = Some m" "\<forall>g. m \<noteq> Val (g, None)"
proof -
  have "\<exists>m. state_event p s f (EvClose r) = Some m \<and> (\<forall>g. m \<noteq> Val (g, None))"
    using assms
    by (cases s) (auto simp: state_event_def idle_def connect_def active_def openSent_def openSent_select_def
        openConfirm_def openConfirm_select_def established_def established_select_def session_event_def
        returns_def send_and_return_def on_return_def go_bind_Val_iff)
  with that show thesis by blast
qed

lemma cleanup_trace:
  "go_bind (cleanup r f) (\<lambda>f. Val (f\<lparr>f_ctl := Done\<rparr>)) = Val f' \<Longrightarrow> set (f_trace f) \<subseteq> set (f_trace f')"
  by (auto simp: cleanup_def go_bind_Val_iff cancel_dial_def recv_dial_def cleanupConnAndReader_def Let_def
      split: if_splits dialState.splits dialResult.splits option.splits)

lemma enter_disabled_trace:
  assumes "enter_state p r d (newStateTransition s disabledState) f = Val f'"
  shows "set (f_trace f) \<subseteq> set (f_trace f')"
proof -
  have w: "f_trace g = f_trace f" if "write_conn b f = Val (g, e)" for b g e
    using that by (auto simp: write_conn_def split: option.splits prod.splits)
  obtain g where "f_trace g = f_trace f" "go_bind (cleanup r g) (\<lambda>f. Val (f\<lparr>f_ctl := Done\<rparr>)) = Val f'"
    using assms
    by (auto simp: enter_state_def newStateTransition_def sendNotification_def go_bind_Val_iff split: if_splits dest: w)
  then show ?thesis using cleanup_trace [of r g f'] by simp
qed

lemma close_step_waiting:
  assumes inv: "fsm_inv p f" and c: "rank (f_ctl f) \<in> {1, 2}"
  shows "\<exists>f'. managed_step p f (EvClose r) = Some (Val f') \<and> fsm_inv p f' \<and> rank (f_ctl f') < rank (f_ctl f) \<and>
    set (f_trace f) \<subseteq> set (f_trace f')"
proof -
  have enter: ?thesis if "f_ctl f = Sending t \<or> f_ctl f = Awaiting t" for t
  proof -
    have se: "sess (f_trace f) = Some False" using that inv by (auto simp: fsm_inv_def)
    from enter_disabled_inv [OF se, of p r "tr_to t" "tr_from t"] obtain f' where
      "enter_state p r (tr_to t) (newStateTransition (tr_from t) disabledState) f = Val f'" "fsm_inv p f'" "f_ctl f' = Done"
      by blast
    with enter_disabled_trace [OF this(1)] that show ?thesis
      by (auto simp: managed_step_def fsm_step_def ambient_event_def rank_def)
  qed
  show ?thesis
  proof (cases "f_ctl f")
    case (Reporting s d e)
    with inv show ?thesis
      by (simp add: managed_step_def fsm_step_def ambient_event_def rank_def fsm_inv_def newStateTransition_def)
  qed (use c enter in \<open>auto simp: rank_def\<close>)
qed

lemma close_run_waiting:
  assumes "fsm_inv p f" "rank (f_ctl f) < 3"
  shows "\<exists>k f'. k \<le> rank (f_ctl f) \<and>
    run_events (managed_step p) f (replicate k (EvClose r)) = Some (Val f') \<and> f_ctl f' = Done \<and> fsm_inv p f' \<and>
    set (f_trace f) \<subseteq> set (f_trace f')"
  using assms
proof (induction "rank (f_ctl f)" arbitrary: f rule: less_induct)
  case less
  show ?case
  proof (cases "f_ctl f = Done")
    case True
    with less.prems show ?thesis by (intro exI [of _ 0]) simp
  next
    case False
    then have "rank (f_ctl f) \<in> {1, 2}" using less.prems(2) by (cases "f_ctl f") (simp_all add: rank_def)
    from close_step_waiting [OF less.prems(1) this] obtain g where g: "managed_step p f (EvClose r) = Some (Val g)"
      "fsm_inv p g" "rank (f_ctl g) < rank (f_ctl f)" "set (f_trace f) \<subseteq> set (f_trace g)" by blast
    from less.hyps [OF g(3,2)] g(3) less.prems(2) obtain k f' where "k \<le> rank (f_ctl g)"
      "run_events (managed_step p) g (replicate k (EvClose r)) = Some (Val f')" "f_ctl f' = Done" "fsm_inv p f'"
      "set (f_trace g) \<subseteq> set (f_trace f')" by auto
    with g(1,3,4) show ?thesis by (intro exI [of _ "Suc k"]) auto
  qed
qed

text \<open>The connection of a session is closed with a CEASE as the last message on it.\<close>

definition ceased :: "conn \<Rightarrow> conn" where
  "ceased c = c\<lparr>c_out := c_out c @ [Notification_encode cease], c_closed := True\<rparr>"

lemma close_session:
  assumes s: "openSentState \<le> s" and c: "f_conn f = Some c" "\<not> c_broken c" "\<not> c_closed c"
    and m: "state_event p s f (EvClose r) = Some (Val (g, x))"
  shows "ConnClosed (ceased c) \<in> set (f_trace g)"
proof -
  have w: "sendNotification cease f = Val (f\<lparr>f_conn := Some (c\<lparr>c_out := c_out c @ [Notification_encode cease]\<rparr>)\<rparr>, None)"
    using c by (simp add: sendNotification_def write_conn_def conn_Write_def)
  from s have "s = openSentState \<or> s = openConfirmState \<or> s = establishedState"
    by (cases s) (simp_all add: less_eq_fsmState_def)
  with m w show ?thesis
    by (auto simp: state_event_def openSent_def openSent_select_def openSent_return_def openConfirm_def
        openConfirm_select_def openConfirm_return_def established_def established_select_def established_return_def
        session_event_def send_and_return_def on_return_def go_bind_Val_iff Let_def end_session_def
        cleanupConnAndReader_def ceased_def conn_Close_def)
qed

lemma close_running:
  assumes inv: "fsm_inv p f" and good: "good_peer p" and s: "f_ctl f = Running s"
  obtains f' where "managed_step p f (EvClose r) = Some (Val f')" "fsm_inv p f'" "rank (f_ctl f') \<le> 2"
    "\<forall>c. openSentState \<le> s \<and> f_conn f = Some c \<and> \<not> c_broken c \<and> \<not> c_closed c \<longrightarrow>
       ConnClosed (ceased c) \<in> set (f_trace f')"
proof -
  have d: "s \<noteq> disabledState" using s inv by (simp add: fsm_inv_def)
  then obtain m where m: "state_event p s f (EvClose r) = Some m" "\<forall>g. m \<noteq> Val (g, None)"
    by (rule close_returns [of s p f r])
  have "sat (stays p s) (leaves p s) (Some m)"
    using state_event_sat [OF inv s good, of "EvClose r"] m(1) by simp
  with m(2) obtain g to err where g: "m = Val (g, Some (to, err))" "leaves p s g to"
    by (auto simp: sat_def split: go.splits option.splits)
  show thesis
  proof (rule that [of "next_iteration s to err g"])
    show "managed_step p f (EvClose r) = Some (Val (next_iteration s to err g))"
      using s m(1) g(1) by (simp add: managed_step_def fsm_step_def ambient_event_def)
    show "rank (f_ctl (next_iteration s to err g)) \<le> 2"
      by (cases err) (simp_all add: next_iteration_def rank_def)
    show "\<forall>c. openSentState \<le> s \<and> f_conn f = Some c \<and> \<not> c_broken c \<and> \<not> c_closed c \<longrightarrow>
       ConnClosed (ceased c) \<in> set (f_trace (next_iteration s to err g))"
      using close_session [of s f _ p r g "Some (to, err)"] m(1) g(1) by (simp add: next_iteration_def)
  qed (rule next_iteration_inv [OF g(2) d])
qed

lemma close_run:
  assumes inv: "fsm_inv p f" and good: "good_peer p"
  shows "\<exists>k\<le>3. \<exists>f'. run_events (managed_step p) f (replicate k (EvClose r)) = Some (Val f') \<and>
    f_ctl f' = Done \<and> fsm_inv p f' \<and>
    (\<forall>s c. f_ctl f = Running s \<and> openSentState \<le> s \<and> f_conn f = Some c \<and> \<not> c_broken c \<and> \<not> c_closed c \<longrightarrow>
       ConnClosed (ceased c) \<in> set (f_trace f'))"
proof (cases "\<exists>s. f_ctl f = Running s")
  case True
  then obtain s where s: "f_ctl f = Running s" by blast
  obtain g where g: "managed_step p f (EvClose r) = Some (Val g)" "fsm_inv p g" "rank (f_ctl g) \<le> 2"
    "\<forall>c. openSentState \<le> s \<and> f_conn f = Some c \<and> \<not> c_broken c \<and> \<not> c_closed c \<longrightarrow>
       ConnClosed (ceased c) \<in> set (f_trace g)"
    by (rule close_running [OF inv good s])
  from close_run_waiting [OF g(2), of r] g(3) obtain k f' where "k \<le> rank (f_ctl g)"
    "run_events (managed_step p) g (replicate k (EvClose r)) = Some (Val f')" "f_ctl f' = Done" "fsm_inv p f'"
    "set (f_trace g) \<subseteq> set (f_trace f')" by auto
  with g s show ?thesis by (intro exI [of _ "Suc k"]) auto
next
  case False
  then have "rank (f_ctl f) < 3" by (cases "f_ctl f") (simp_all add: rank_def)
  from close_run_waiting [OF inv this, of r] \<open>rank (f_ctl f) < 3\<close> False show ?thesis
    by (meson le_less_trans less_imp_le)
qed

section \<open>The OPEN of a session\<close>

text \<open>The OPEN messages a machine has been handed in a run.\<close>

fun opens :: "event list \<Rightarrow> openMessage list" where
  "opens [] = []"
| "opens (EvMsg (OpenMsg m) # es) = m # opens es"
| "opens (_ # es) = opens es"

lemma opens_append: "opens (es @ es') = opens es @ opens es'"
  by (induction es rule: opens.induct) simp_all

text \<open>The machine is in a state that follows on OpenSent, or on the way into one.\<close>

fun beyond :: "control \<Rightarrow> bool" where
  "beyond (Sending t) \<longleftrightarrow> tr_to t \<in> {openConfirmState, establishedState}"
| "beyond (Awaiting t) \<longleftrightarrow> tr_to t \<in> {openConfirmState, establishedState}"
| "beyond (Running s) \<longleftrightarrow> s \<in> {openConfirmState, establishedState}"
| "beyond (Reporting s d e) \<longleftrightarrow> d \<in> {openConfirmState, establishedState}"
| "beyond Done \<longleftrightarrow> False"

definition follows_open :: "peerCtx \<Rightarrow> openMessage list \<Rightarrow> fsm \<Rightarrow> bool" where
  "follows_open p os f \<longleftrightarrow> (beyond (f_ctl f) \<longrightarrow> os \<noteq> [] \<and> agreed p (last os) f)"

definition terms :: "fsm \<Rightarrow> u32 \<times> duration \<times> duration" where
  "terms f = (remoteID f, holdTime f, keepAliveInterval f)"

lemma agreed_terms: "terms g = terms f \<Longrightarrow> agreed p m g = agreed p m f"
  by (simp add: terms_def agreed_def)

lemma terms_simps [simp]:
  "terms (f\<lparr>f_conn := c\<rparr>) = terms f" "terms (f\<lparr>f_ctl := x\<rparr>) = terms f" "terms (f\<lparr>f_handler := h\<rparr>) = terms f"
  "terms (f\<lparr>holdTimer := t\<rparr>) = terms f" "terms (f\<lparr>keepAliveTimer := t\<rparr>) = terms f"
  "terms (f\<lparr>f_reader := r\<rparr>) = terms f" "terms (act a f) = terms f" "terms (reset_keepAlive f) = terms f"
  by (simp_all add: terms_def reset_keepAlive_def)

lemma write_conn_terms: "write_conn b f = Val (g, e) \<Longrightarrow> terms g = terms f"
  by (auto simp: write_conn_def split: option.splits prod.splits)

lemma drain_terms: "drainAndResetHoldTimer f = Val g \<Longrightarrow> terms g = terms f"
  by (auto simp: drainAndResetHoldTimer_def split: option.splits prod.splits if_splits)

lemma enter_select_terms: "enter_select s f = Val g \<Longrightarrow> terms g = terms f"
  by (auto simp: enter_select_def split: if_splits)

lemmas stay_terms = write_conn_terms drain_terms enter_select_terms

lemma openConfirm_keeps:
  assumes "openConfirm p f ev = Some (Val (g, x))" "x = None \<or> x = Some (establishedState, err)"
  shows "terms g = terms f \<and> opens [ev] = []"
  using assms
  by (cases ev)
     (auto simp: openConfirm_def openConfirm_select_def session_event_def on_return_def openConfirm_return_def
       go_bind_Val_iff sendKeepAlive_def send_and_return_def returns_def from_reader_def
       dest!: stay_terms split: option.splits prod.splits if_splits timer_id.splits message.splits)

lemma drain_if_nonzero_keeps: "drain_if_nonzero f = Some (Val (g, x)) \<Longrightarrow> terms g = terms f"
  by (auto simp: drain_if_nonzero_def continues_def go_bind_Val_iff dest!: stay_terms split: if_splits)

lemma WriteUpdate_terms: "WriteUpdate b f = Val (g, e) \<Longrightarrow> terms g = terms f"
  by (auto simp: WriteUpdate_def go_bind_Val_iff resetKATimer_def dest!: stay_terms split: if_splits)

lemma established_keeps:
  assumes "established p f ev = Some (Val (g, None))"
  shows "terms g = terms f \<and> opens [ev] = []"
  using assms
  by (cases ev)
     (auto simp: established_def established_select_def session_event_def on_return_def established_return_def
       go_bind_Val_iff sendKeepAlive_def send_and_return_def returns_def from_reader_def resetKATimer_def Let_def
       dest!: stay_terms drain_if_nonzero_keeps WriteUpdate_terms
       split: option.splits prod.splits if_splits timer_id.splits message.splits)

lemma openSent_open_terms:
  assumes "openSent_open p m f = Val (g, openConfirmState, err)"
  defines "h \<equiv> min (int (unat (o_holdTime m)) * Second) (opt_holdTime (pc_options p))"
  shows "openMessage_validate m (pc_id p) (LocalAS (pc_config p)) (RemoteAS (pc_config p)) = ok ()"
    "terms g = (bgpID m, h, if h = 0 then keepAliveInterval f else go_quot h 3)"
proof -
  let ?rid = "AddrFrom4 (PutUint32 (bgpID m))"
  let ?f = "act (OnOpenMessageCalled ?rid (getCapabilities m)) (f\<lparr>remoteID := bgpID m\<rparr>)"
  show v: "openMessage_validate m (pc_id p) (LocalAS (pc_config p)) (RemoteAS (pc_config p)) = ok ()"
    using assms(1)
    by (cases "openMessage_validate m (pc_id p) (LocalAS (pc_config p)) (RemoteAS (pc_config p))" rule: go_sum_cases)
       (simp_all add: openSent_open_def go_bind_Val_iff)
  note eq = assms(1) [unfolded openSent_open_def v Let_def, simplified]
  from eq have n: "pi_OnOpenMessage (pc_plugin p) (f_trace f) (pc_config p) ?rid (getCapabilities m) = None"
    by (cases "pi_OnOpenMessage (pc_plugin p) (f_trace f) (pc_config p) ?rid (getCapabilities m)")
       (auto simp: go_bind_Val_iff)
  from eq n obtain k e where k: "write_conn keepAliveMessage_encode ?f = Val (k, e)"
    by (auto simp: go_bind_Val_iff sendKeepAlive_def)
  with eq n have e: "e = None" by (cases e) (auto simp: sendKeepAlive_def)
  have t: "terms k = (bgpID m, holdTime f, keepAliveInterval f)"
    using write_conn_terms [OF k] by (simp add: terms_def)
  have m: "(if opt_holdTime (pc_options p) < L then opt_holdTime (pc_options p) else L) =
    min L (opt_holdTime (pc_options p))" for L by simp
  from eq n k e t show "terms g = (bgpID m, h, if h = 0 then keepAliveInterval f else go_quot h 3)"
    unfolding m h_def
    by (auto simp: sendKeepAlive_def m terms_def go_bind_Val_iff dest!: drain_terms split: if_splits)
qed

lemma openSent_agrees:
  assumes "openSent p f ev = Some (Val (g, Some (openConfirmState, err)))" "good_peer p" "good_event ev"
  obtains m where "opens [ev] = [m]" "agreed p m g"
proof -
  obtain m where m: "ev = EvMsg (OpenMsg m)" "openSent_open p m f = Val (g, openConfirmState, err)"
    using assms(1)
    by (cases ev)
       (auto simp: openSent_def openSent_select_def on_return_def openSent_return_def go_bind_Val_iff
         send_and_return_def returns_def from_reader_def
         split: option.splits prod.splits if_splits timer_id.splits message.splits)
  define h where "h = min (int (unat (o_holdTime m)) * Second) (opt_holdTime (pc_options p))"
  note op = openSent_open_terms [OF m(2), folded h_def]
  have h3: "3 * Second \<le> h" using negotiated_min [OF op(1)] m(1) assms(2,3) by (simp add: h_def)
  then have "h \<noteq> 0" using Second_pos by linarith
  with op(2) have "remoteID g = bgpID m" "holdTime g = h" "keepAliveInterval g = go_quot h 3"
    by (simp_all add: terms_def)
  with op(1) h3 have "agreed p m g" unfolding agreed_def h_def [symmetric] by simp
  with m(1) show thesis by (intro that) simp_all
qed

lemma follows_enter:
  assumes "enter_state p r (tr_to t) t f = Val g" "beyond (f_ctl g)"
  shows "tr_to t \<in> {openConfirmState, establishedState} \<and> terms g = terms f"
  using assms
  by (cases "tr_to t")
     (auto simp: enter_state_def go_bind_Val_iff Let_def next_iteration_def newStateTransition_def
       sendOpenAndSetHoldTimer_def enter_select_def split: if_splits sum.splits option.splits prod.splits)

lemma enter_disabled_ctl: "Val g = enter_state p d b (newStateTransition s disabledState) f \<Longrightarrow> f_ctl g = Done"
  by (drule sym) (auto simp: enter_state_def newStateTransition_def go_bind_Val_iff)

lemma stays_beyond:
  assumes "state_event p s f ev = Some (Val (g, None))" "s \<in> {openConfirmState, establishedState}"
  shows "terms g = terms f \<and> opens [ev] = []"
proof (cases "s = establishedState")
  case True
  with assms show ?thesis by (intro established_keeps [of p]) (simp add: state_event_def)
next
  case False
  with assms show ?thesis by (intro openConfirm_keeps [of p _ _ _ None]) (simp_all add: state_event_def)
qed

lemma follows_event:
  assumes inv: "fsm_inv p f" "f_ctl f = Running s" and good: "good_peer p" "good_event ev"
    and o: "follows_open p os f" and m: "state_event p s f ev = Some (Val (g, x))"
    and t: "case x of None \<Rightarrow> s \<in> {openConfirmState, establishedState}
      | Some (to, err) \<Rightarrow> to \<in> {openConfirmState, establishedState}"
  shows "os @ opens [ev] \<noteq> [] \<and> agreed p (last (os @ opens [ev])) g"
proof -
  have keeps: ?thesis if "s \<in> {openConfirmState, establishedState}" "terms g = terms f \<and> opens [ev] = []"
    using that o inv(2) agreed_terms [of g f p] by (simp add: follows_open_def)
  show ?thesis
  proof (cases x)
    case None
    then have s: "s \<in> {openConfirmState, establishedState}" using t by simp
    show ?thesis by (rule keeps [OF s stays_beyond [OF m [unfolded None] s]])
  next
    case (Some y)
    obtain to err where y: "x = Some (to, err)" using Some by (cases y) simp
    have "legal s to" using state_event_sat [OF inv good] m y by (simp add: leaves_def)
    with t y consider "s = openSentState" "to = openConfirmState" | "s = openConfirmState" "to = establishedState"
      by (cases s) (auto simp: legal_def)
    then show ?thesis
    proof cases
      case 1
      with m y have "openSent p f ev = Some (Val (g, Some (openConfirmState, err)))" by (simp add: state_event_def)
      then obtain a where "opens [ev] = [a]" "agreed p a g" using good by (rule openSent_agrees)
      then show ?thesis by simp
    next
      case 2
      with m have "openConfirm p f ev = Some (Val (g, x))" by (simp add: state_event_def)
      from openConfirm_keeps [OF this, of err] y 2 show ?thesis by (intro keeps) simp_all
    qed
  qed
qed

lemma msg_running: "managed_step p f ev = Some r \<Longrightarrow> opens [ev] \<noteq> [] \<Longrightarrow> \<exists>s. f_ctl f = Running s"
  by (cases ev; cases "f_ctl f") (auto simp: managed_step_def fsm_step_def ambient_event_def)

lemma ambient_terms: "ambient_event f ev = Some g \<Longrightarrow> terms g = terms f \<and> opens [ev] = []"
  by (auto simp: ambient_event_def terms_def split: event.splits timer_id.splits)

lemma follows_step:
  assumes inv: "fsm_inv p f" and good: "good_peer p" "good_event ev"
    and o: "follows_open p os f" and step: "managed_step p f ev = Some (Val g)"
  shows "follows_open p (os @ opens [ev]) g"
proof (cases "ambient_event f ev")
  case (Some h)
  with step have "g = h" by (cases "f_ctl f"; cases ev) (simp_all add: managed_step_def fsm_step_def ambient_event_def)
  with ambient_terms [OF Some] ambient_frame(1) [OF Some] o agreed_terms [of h f p] show ?thesis
    by (simp add: follows_open_def)
next
  case None
  have quiet: "opens [ev] = []" if "\<nexists>s. f_ctl f = Running s" using msg_running [OF step] that by blast
  from step None show ?thesis
  proof (cases rule: managed_cases)
    case (Close t d)
    then have "f_ctl g = Done" by (auto dest: enter_disabled_ctl)
    then show ?thesis by (simp add: follows_open_def)
  next
    case (Reply t d)
    with follows_enter [of p d t f g] o quiet agreed_terms [of g f p] show ?thesis by (auto simp: follows_open_def)
  next
    case (Event s m)
    from Event(3) [symmetric] obtain h x where x: "m = Val (h, x)"
      "(case x of None \<Rightarrow> enter_select s h | Some (to, err) \<Rightarrow> Val (next_iteration s to err h)) = Val g"
      by (auto simp: go_bind_Val_iff)
    from x(2) have g: "terms g = terms h"
      "beyond (f_ctl g) \<longleftrightarrow> (case x of None \<Rightarrow> s \<in> {openConfirmState, establishedState}
        | Some (to, err) \<Rightarrow> to \<in> {openConfirmState, establishedState})"
      by (auto simp: next_iteration_def newStateTransition_def enter_select_def split: option.splits if_splits)
    from follows_event [OF inv Event(1) good o, of h x] Event(2) x(1) g agreed_terms [of g h p] show ?thesis
      by (simp add: follows_open_def)
  qed (use o quiet in \<open>auto simp: follows_open_def newStateTransition_def agreed_def\<close>)
qed

lemma follows_run:
  "fsm_inv p f \<Longrightarrow> good_peer p \<Longrightarrow> list_all good_event es \<Longrightarrow> follows_open p os f \<Longrightarrow>
   run_events (managed_step p) f es = Some (Val g) \<Longrightarrow> follows_open p (os @ opens es) g"
proof (induction es arbitrary: f os)
  case (Cons ev es)
  from Cons.prems(5) obtain h where h: "managed_step p f ev = Some (Val h)"
    "run_events (managed_step p) h es = Some (Val g)" by (auto split: option.splits go.splits)
  from Cons.prems(3) have good: "good_event ev" "list_all good_event es" by simp_all
  have "fsm_inv p h" using fsm_step_inv [OF Cons.prems(1,2) good(1) h(1)] by simp
  from Cons.IH [OF this Cons.prems(2) good(2) follows_step [OF Cons.prems(1,2) good(1) Cons.prems(4) h(1)] h(2)]
  show ?case using opens_append [of "[ev]" es] by simp
qed simp

lemma follows_start:
  assumes "good_peer p" "fsm_start f" "list_all good_event es" "run_events (managed_step p) f es = Some (Val g)"
  shows "follows_open p (opens es) g"
proof -
  have "follows_open p [] f" using assms(2) by (auto simp: fsm_start_def newFSM_def newStateTransition_def follows_open_def split: if_splits)
  from follows_run [OF fsm_start_inv [OF assms(2)] assms(1,3) this assms(4)] show ?thesis by simp
qed

section \<open>Dropped connections\<close>

text \<open>
  The connections that a cancelled dial delivered and that nobody closed, and the one that is
  lost if the machine stops while its dial ends with the result \<open>r\<close>.
\<close>

fun drops :: "action list \<Rightarrow> conn list" where
  "drops [] = []"
| "drops (DialDropped c # tr) = c # drops tr"
| "drops (_ # tr) = drops tr"

definition lost :: "dialResult \<Rightarrow> fsm \<Rightarrow> conn list" where
  "lost r f = (case r of DialConn c \<Rightarrow> if f_ctl f \<noteq> Done \<and> f_dial f = Dialing then [c] else [] | _ \<Rightarrow> [])"

lemma drops_append [simp]: "drops (tr @ tr') = drops tr @ drops tr'"
  by (induction tr rule: drops.induct) simp_all

definition dial_view :: "fsm \<Rightarrow> dialState \<times> conn list" where
  "dial_view f = (f_dial f, drops (f_trace f))"

lemma dial_view_simps [simp]:
  "dial_view (f\<lparr>f_conn := c\<rparr>) = dial_view f" "dial_view (f\<lparr>f_ctl := x\<rparr>) = dial_view f"
  "dial_view (f\<lparr>holdTimer := t\<rparr>) = dial_view f" "dial_view (f\<lparr>keepAliveTimer := t\<rparr>) = dial_view f"
  "dial_view (f\<lparr>connectRetryTimer := t\<rparr>) = dial_view f" "dial_view (f\<lparr>idleHoldTimer := i\<rparr>) = dial_view f"
  "dial_view (f\<lparr>f_reader := r\<rparr>) = dial_view f" "dial_view (cleanupConnAndReader f) = dial_view f"
  "dial_view (act OnCloseCalled f) = dial_view f" "dial_view (next_iteration s to err f) = dial_view f"
  by (simp_all add: dial_view_def cleanupConnAndReader_def Let_def next_iteration_def split: option.split)

lemma write_conn_dial: "write_conn b f = Val (g, e) \<Longrightarrow> dial_view g = dial_view f"
  by (auto simp: write_conn_def split: option.splits prod.splits)

lemma cancel_dial_drops:
  "cancel_dial r f = Val g \<Longrightarrow> f_ctl f \<noteq> Done \<Longrightarrow> f_ctl g = f_ctl f \<and>
   drops (f_trace g) = drops (f_trace f) @ lost r f \<and> lost r g = []"
  by (auto simp: cancel_dial_def recv_dial_def lost_def go_bind_Val_iff split: dialState.splits dialResult.splits)

lemma lost_view: "dial_view g = dial_view f \<Longrightarrow> f_ctl g \<noteq> Done \<Longrightarrow> f_ctl f \<noteq> Done \<Longrightarrow>
  drops (f_trace g) = drops (f_trace f) \<and> lost r g = lost r f"
  by (simp add: dial_view_def lost_def split: dialResult.split)

lemma enter_disabled_drops:
  assumes "enter_state p r b (newStateTransition s disabledState) f = Val g" "f_ctl f \<noteq> Done"
  shows "f_ctl g = Done \<and> drops (f_trace g) = drops (f_trace f) @ lost r f"
proof -
  have w: "dial_view h = dial_view f \<and> f_ctl h = f_ctl f" if "sendNotification cease f = Val (h, e)" for h e
    using that write_conn_dial [of _ f h e]
    by (auto simp: sendNotification_def write_conn_def split: option.splits prod.splits)
  from assms(1) obtain h where h: "dial_view h = dial_view f" "f_ctl h = f_ctl f"
    "go_bind (cleanup r h) (\<lambda>f. Val (f\<lparr>f_ctl := Done\<rparr>)) = Val g"
    by (auto simp: enter_state_def newStateTransition_def go_bind_Val_iff dest: w split: if_splits)
  from h(3) obtain k where k: "(if f_dial h \<noteq> NoDial then cancel_dial r h else Val h) = Val k"
    "f_ctl g = Done" "dial_view g = dial_view k"
    by (auto simp: cleanup_def go_bind_Val_iff Let_def)
  have "drops (f_trace k) = drops (f_trace h) @ lost r h"
    using k(1) cancel_dial_drops [of r h k] assms(2) h(2)
    by (auto simp: lost_def split: if_splits dialResult.split)
  with k(2,3) h(1,2) lost_view [of h f r] assms(2) show ?thesis by (simp add: dial_view_def)
qed

lemma state_close_view:
  assumes "state_event p s f (EvClose r) = Some (Val (g, x))" "s \<noteq> connectState"
  shows "dial_view g = dial_view f"
  using assms
  by (cases s)
     (auto simp: state_event_def idle_def active_def openSent_def openSent_select_def openConfirm_def
       openConfirm_select_def established_def established_select_def session_event_def returns_def
       send_and_return_def on_return_def go_bind_Val_iff openSent_return_def openConfirm_return_def
       established_return_def end_session_def Let_def sendNotification_def dest!: write_conn_dial split: if_splits)

lemma state_close_drops:
  assumes "state_event p s f (EvClose r) = Some (Val (g, x))" "f_ctl f = Running s"
  shows "drops (f_trace g) @ (case r of DialConn c \<Rightarrow> if f_dial g = Dialing then [c] else [] | _ \<Rightarrow> []) =
    drops (f_trace f) @ lost r f"
proof (cases "s = connectState")
  case True
  with assms(1) obtain h where h: "cancel_dial r f = Val h" "g = h\<lparr>connectRetryTimer := stop_opt (connectRetryTimer h)\<rparr>"
    by (auto simp: state_event_def connect_def go_bind_Val_iff)
  with cancel_dial_drops [OF h(1)] assms(2) show ?thesis by (auto simp: lost_def split: dialResult.splits if_splits)
next
  case False
  from state_close_view [OF assms(1) False] assms(2) show ?thesis
    by (simp add: dial_view_def lost_def split: dialResult.split)
qed

lemma close_drops:
  assumes "managed_step p f (EvClose r) = Some (Val g)"
  shows "drops (f_trace g) @ lost r g = drops (f_trace f) @ lost r f"
proof -
  have step: "fsm_step p f (EvClose r) = Some (Val g)" "ambient_event f (EvClose r) = None"
    using assms by (auto simp: managed_step_def ambient_event_def split: control.splits)
  show ?thesis
  proof (cases "f_ctl f")
    case (Running s)
    with step obtain m where m: "state_event p s f (EvClose r) = Some m" by (auto simp: fsm_step_def split: option.splits)
    with Running step have "go_bind m (\<lambda>(f, x). case x of None \<Rightarrow> enter_select s f
      | Some (to, err) \<Rightarrow> Val (next_iteration s to err f)) = Val g" by (simp add: fsm_step_def)
    then obtain h x where x: "m = Val (h, x)"
      "(case x of None \<Rightarrow> enter_select s h | Some (to, err) \<Rightarrow> Val (next_iteration s to err h)) = Val g"
      by (auto simp: go_bind_Val_iff)
    from x(2) have "f_trace g = f_trace h \<and> f_dial g = f_dial h \<and> f_ctl g \<noteq> Done"
      by (auto simp: next_iteration_def enter_select_def split: option.splits if_splits)
    moreover from this have "lost r g = (case r of DialConn c \<Rightarrow> if f_dial h = Dialing then [c] else [] | _ \<Rightarrow> [])"
      by (simp add: lost_def cong: dialResult.case_cong)
    ultimately show ?thesis using state_close_drops [of p s f r h x] m x(1) Running by simp
  next
    case (Sending t)
    with step have "enter_state p r (tr_to t) (newStateTransition (tr_from t) disabledState) f = Val g"
      by (simp add: fsm_step_def)
    with enter_disabled_drops [OF this] Sending show ?thesis by (simp add: lost_def split: dialResult.split)
  next
    case (Awaiting t)
    with step have "enter_state p r (tr_to t) (newStateTransition (tr_from t) disabledState) f = Val g"
      by (simp add: fsm_step_def)
    with enter_disabled_drops [OF this] Awaiting show ?thesis by (simp add: lost_def split: dialResult.split)
  next
    case (Reporting s d e)
    with step have "g = f\<lparr>f_ctl := Sending (newStateTransition s disabledState)\<rparr>" by (simp add: fsm_step_def)
    with Reporting show ?thesis by (simp add: lost_def split: dialResult.split)
  qed (use step in \<open>simp add: fsm_step_def\<close>)
qed

lemma close_run_drops:
  "run_events (managed_step p) f (replicate k (EvClose r)) = Some (Val g) \<Longrightarrow>
   drops (f_trace g) @ lost r g = drops (f_trace f) @ lost r f"
proof (induction k arbitrary: f)
  case (Suc k)
  then obtain h where "managed_step p f (EvClose r) = Some (Val h)"
    "run_events (managed_step p) h (replicate k (EvClose r)) = Some (Val g)" by (auto split: option.splits go.splits)
  with Suc.IH close_drops show ?case by metis
qed simp

section \<open>A peer to run the machine for\<close>

definition example_peer :: peerCtx where
  "example_peer =
     \<lparr>pc_config = \<lparr>RemoteAddress = AddrFrom4 [192, 0, 2, 2], LocalAS = 65001, RemoteAS = 65002\<rparr>,
      pc_id = 3221225985,
      pc_plugin = \<lparr>pi_GetCapabilities = \<lambda>_ _. [], pi_OnOpenMessage = \<lambda>_ _ _ _. None,
        pi_OnEstablished = \<lambda>_ _. Some (\<lambda>_ _. None)\<rparr>,
      pc_options = defaultPeerOptions\<rparr>"

definition example_conn :: conn where
  "example_conn = \<lparr>c_out = [], c_broken = False, c_closed = False\<rparr>"

definition example_open :: "duration \<Rightarrow> openMessage" where
  "example_open d = newOpenMessage 65002 d 3221225986 []"

text \<open>From start to a dialled connection on which an OPEN has been sent.\<close>

definition asked :: "fsmState \<Rightarrow> fsmState \<Rightarrow> event list" where
  "asked s t = [EvSent, EvReply (newStateTransition s t) (DialErr (PlainErr ''operation was canceled''))]"

definition run_to_connect :: "event list" where
  "run_to_connect =
     asked disabledState idleState @ [EvExpire IdleHoldT, EvTimer IdleHoldT] @ asked idleState connectState"

definition run_to_openSent :: "event list" where
  "run_to_openSent =
     run_to_connect @ [EvDialResult (DialConn example_conn)] @
     asked connectState openSentState"

definition run_to_established :: "event list" where
  "run_to_established =
     run_to_openSent @ [EvMsg (OpenMsg (example_open (90 * Second)))] @
     asked openSentState openConfirmState @ [EvMsg KeepAliveMsg] @
     asked openConfirmState establishedState"

definition run_example :: "event list \<Rightarrow> fsm go option" where
  "run_example es = run_events (managed_step example_peer) (newFSM None) es"

lemma run_example_openSent:
  "case run_example run_to_openSent of
     Some (Val f) \<Rightarrow>
       f_ctl f = Running openSentState \<and> f_reader f = ReaderRunning \<and> keepAliveTimer f = None \<and>
       (case f_conn f of Some c \<Rightarrow> \<not> c_broken c \<and> \<not> c_closed c | None \<Rightarrow> False)
   | _ \<Rightarrow> False"
  by code_simp

lemma example_open_valid:
  "openMessage_validate (example_open 0) (pc_id example_peer) (LocalAS (pc_config example_peer))
     (RemoteAS (pc_config example_peer)) = ok ()"
  "o_holdTime (example_open 0) = 0" "0 \<le> opt_holdTime (pc_options example_peer)"
  by code_simp+

lemma run_example_established:
  "case run_example run_to_established of Some (Val f) \<Rightarrow> f_ctl f = Running establishedState | _ \<Rightarrow> False"
  by code_simp

lemma run_events_append:
  "run_events step s (es @ es') =
     (case run_events step s es of Some (Val t) \<Rightarrow> run_events step t es' | r \<Rightarrow> r)"
  by (induction step s es rule: run_events.induct) (auto split: option.splits go.splits)

lemma example_good: "good_peer example_peer"
  by (simp add: good_peer_def example_peer_def defaultPeerOptions_def DefaultHoldTimeSeconds_def)

lemma example_reach: "fsm_reach example_peer (newFSM None)"
  using example_good by (auto intro!: reach_init simp: fsm_start_def)

lemma run_to_established_good: "list_all good_event run_to_established"
  by code_simp

lemma example_established:
  obtains f where "fsm_reach example_peer f" "f_ctl f = Running establishedState"
proof -
  from run_example_established obtain f where f: "run_example run_to_established = Some (Val f)"
    "f_ctl f = Running establishedState" by (auto split: option.splits go.splits)
  have "fsm_reach example_peer f"
    using run_events_reach [OF example_reach run_to_established_good] f(1) by (simp add: run_example_def)
  with f(2) that show thesis by blast
qed

section \<open>Properties\<close>

text \<open>The invariant read off for single steps.\<close>

lemma fsm_never_faults:
  assumes "fsm_reach p f" "good_event ev"
  shows "managed_step p f ev \<noteq> Some (Fault e)"
  using assms by (rule machine.reach_safe)

lemma transitions_legal:
  assumes "fsm_reach p f" "f_ctl f = Sending t"
  shows "legal (tr_from t) (tr_to t)"
  using machine.reach_inv [OF assms(1)] assms(2) by (simp add: fsm_inv_def)

text \<open>
  C2. In the Established state the last OPEN the machine has been handed has passed validation
  against our identifier and the two configured AS numbers; the remote identifier is the one it
  carries, the hold time is the smaller of its proposal and the configured one and is at least
  three seconds, the keepalive interval is a third of it, and both timers exist, the hold timer
  being armed or due; the connection has carried our OPEN, then a KEEPALIVE, then nothing but
  KEEPALIVE and UPDATE messages.
\<close>

theorem established_session:
  assumes "good_peer p" "fsm_start f0" "list_all good_event es"
    and "run_events (managed_step p) f0 es = Some (Val f)" "f_ctl f = Running establishedState"
  shows "\<exists>os m c b ks. opens es = os @ [m] \<and>
    openMessage_validate m (pc_id p) (LocalAS (pc_config p)) (RemoteAS (pc_config p)) = ok () \<and>
    remoteID f = bgpID m \<and>
    holdTime f = min (int (unat (o_holdTime m)) * Second) (opt_holdTime (pc_options p)) \<and>
    3 * Second \<le> holdTime f \<and> keepAliveInterval f = go_quot (holdTime f) 3 \<and>
    hold_live (holdTimer f) \<and> keepAliveTimer f \<noteq> None \<and>
    f_conn f = Some c \<and> c_out c = b # keepAliveMessage_encode # ks \<and> open_octets p b \<and>
    set ks \<subseteq> insert keepAliveMessage_encode {b. update_octets b}"
proof -
  have "fsm_reach p f0" using assms(1,2) by (simp add: reach_init)
  from run_events_reach [OF this assms(3,4)] have "ready p establishedState f"
    using machine.reach_inv [of p f] assms(5) by (simp add: fsm_inv_def)
  then obtain c where c: "f_conn f = Some c" "written p establishedState (c_out c)"
    and t: "hold_live (holdTimer f)" "keepAliveTimer f \<noteq> None" by (auto simp: ready_def elim!: conn_writtenE)
  from c(2) obtain b ks where w: "c_out c = b # keepAliveMessage_encode # ks" "open_octets p b"
    "set ks \<subseteq> insert keepAliveMessage_encode {b. update_octets b}" by (auto simp: written_def)
  have "follows_open p (opens es) f" by (rule follows_start [OF assms(1-4)])
  then have "opens es \<noteq> []" "agreed p (last (opens es)) f" using assms(5) by (simp_all add: follows_open_def)
  then obtain os m where "opens es = os @ [m]" "agreed p m f" by (metis append_butlast_last_id)
  with c(1) t w show ?thesis unfolding agreed_def by blast
qed

theorem established_session_witness:
  "\<exists>f. run_example run_to_established = Some (Val f) \<and> f_ctl f = Running establishedState \<and>
     openMessage_validate (example_open (90 * Second)) (pc_id example_peer) 65001 65002 = ok () \<and>
     remoteID f = 3221225986 \<and> holdTime f = 90 * Second \<and> keepAliveInterval f = go_quot (90 * Second) 3"
proof -
  from run_example_established obtain f where f: "run_example run_to_established = Some (Val f)"
    "f_ctl f = Running establishedState" by (auto split: option.splits go.splits)
  have o: "opens run_to_established = [example_open (90 * Second)]"
    "bgpID (example_open (90 * Second)) = 3221225986"
    "min (int (unat (o_holdTime (example_open (90 * Second)))) * Second) (opt_holdTime (pc_options example_peer)) = 90 * Second"
    "LocalAS (pc_config example_peer) = 65001" "RemoteAS (pc_config example_peer) = 65002"
    by code_simp+
  have "fsm_start (newFSM None)" by (auto simp: fsm_start_def)
  from established_session [OF example_good this run_to_established_good f(1) [unfolded run_example_def] f(2)] f o
  show ?thesis by auto
qed

text \<open>
  C7. The callbacks of a plugin are bracketed: OnEstablished and OnClose alternate, starting with
  OnEstablished, the UPDATE handler is called only in between, and a session is open exactly
  while the machine waits in the Established state.
\<close>

theorem callbacks_bracketed:
  assumes "fsm_reach p f"
  shows "sess (f_trace f) = Some (f_ctl f = Running establishedState)"
  using machine.reach_inv [OF assms] by (cases "f_ctl f") (simp_all add: fsm_inv_def)

theorem callbacks_bracketed_witness:
  "\<exists>f. fsm_reach example_peer f \<and> f_ctl f = Running establishedState \<and> sess (f_trace f) = Some True"
  by (rule example_established) (use callbacks_bracketed in auto)



text \<open>
  C40. A hold time of zero is negotiated without a keepalive timer, and the state that is entered
  next waits on it: on the first session of a machine, an acceptable OPEN with hold time zero
  makes it panic.
\<close>

theorem hold_time_zero_faults:
  assumes "f_ctl f = Running openSentState" "f_reader f = ReaderRunning" "keepAliveTimer f = None"
    and "f_conn f = Some c" "\<not> c_broken c" "\<not> c_closed c" "0 \<le> opt_holdTime (pc_options p)"
    and "openMessage_validate m (pc_id p) (LocalAS (pc_config p)) (RemoteAS (pc_config p)) = ok ()"
    and "o_holdTime m = 0"
    and "pi_OnOpenMessage (pc_plugin p) (f_trace f) (pc_config p) (AddrFrom4 (PutUint32 (bgpID m)))
      (getCapabilities m) = None"
  shows "run_events (managed_step p) f
    [EvMsg (OpenMsg m), EvSent, EvReply (newStateTransition openSentState openConfirmState) r] =
    Some (Fault NilDereference)"
  using assms
  by (simp add: managed_step_def fsm_step_def ambient_event_def state_event_def openSent_def openSent_select_def
      from_reader_def openSent_open_def Let_def sendKeepAlive_def write_conn_def conn_Write_def on_return_def
      openSent_return_def next_iteration_def enter_state_def newStateTransition_def enter_select_def)

theorem hold_time_zero_faults_witness:
  "run_example (run_to_openSent @ [EvMsg (OpenMsg (example_open 0)), EvSent,
     EvReply (newStateTransition openSentState openConfirmState) (DialErr (PlainErr ''canceled''))]) =
   Some (Fault NilDereference)"
proof -
  from run_example_openSent obtain f c where f: "run_example run_to_openSent = Some (Val f)"
    "f_ctl f = Running openSentState" "f_reader f = ReaderRunning" "keepAliveTimer f = None"
    "f_conn f = Some c" "\<not> c_broken c" "\<not> c_closed c" by (auto split: option.splits go.splits)
  have "pi_OnOpenMessage (pc_plugin example_peer) (f_trace f) (pc_config example_peer)
      (AddrFrom4 (PutUint32 (bgpID (example_open 0)))) (getCapabilities (example_open 0)) = None"
    by (simp add: example_peer_def)
  from hold_time_zero_faults [OF f(2-7) example_open_valid(3,1,2) this] f(1) show ?thesis
    by (simp add: run_example_def run_events_append)
qed

end
