(* ===== verification/Peer.thy ===== *)
theory Peer
  imports FsmProps
begin

text \<open>
  The manager of a peer (\<open>peer.go\<close>): two state machines, one for the connection we dial and one
  for a connection the peer opens, the transitions they ask for, the resolution of collisions
  between them, and the damping of a peer after protocol errors.
\<close>

section \<open>The record\<close>

datatype side = Out | In

definition other :: "side \<Rightarrow> side" where
  "other i = (if i = Out then In else Out)"

definition errorAmnesiaTime :: duration where "errorAmnesiaTime = Second * 300"
definition errorDelayMinTime :: duration where "errorDelayMinTime = Second * 60"
definition errorDelayMaxTime :: duration where "errorDelayMaxTime = Second * 300"

text \<open>
  The channels of a machine are part of it: \<open>Sending\<close> and \<open>Reporting\<close> machines offer a value on
  their transition and error channel. \<open>closing\<close> and \<open>stopped\<close> say whether \<open>closeCh\<close> and \<open>doneCh\<close>
  are closed, \<open>running\<close> whether the manager has been started. Inbound connections the manager has
  closed and the machines it has stopped are kept as a history.
\<close>

record peer =
  ctx :: peerCtx
  fsms :: "side \<Rightarrow> fsm option"
  fsmStates :: "side \<Rightarrow> fsmState"
  lastProtoError :: "int option"
  startupDelay :: duration
  startupDelayTimer :: timer
  inHoldDown :: bool
  closing :: bool
  running :: bool
  stopped :: bool
  refused :: "conn list"
  ended :: "(side \<times> fsm) list"

definition newPeer :: "peerCtx \<Rightarrow> peer" where
  "newPeer c =
     \<lparr>ctx = c, fsms = (\<lambda>i. None), fsmStates = (\<lambda>i. disabledState), lastProtoError = None,
      startupDelay = 0, startupDelayTimer = the (recv_timer (Some (timer_expire (NewTimer 0)))),
      inHoldDown = False, closing = False, running = False, stopped = False, refused = [], ended = []\<rparr>"

section \<open>Talking to the machines\<close>

text \<open>Sequencing of steps that may fault or may not be possible.\<close>

definition pbind :: "'a go option \<Rightarrow> ('a \<Rightarrow> 'b go option) \<Rightarrow> 'b go option" where
  "pbind m k = (case m of None \<Rightarrow> None | Some (Fault e) \<Rightarrow> Some (Fault e) | Some (Val x) \<Rightarrow> k x)"

text \<open>
  \<open>f.stop()\<close>: what the machine does between the close of its channel and its end is a list of
  events, none of which is an exchange with the manager, who waits.
\<close>

fun exchange :: "event \<Rightarrow> bool" where
  "exchange EvSent \<longleftrightarrow> True"
| "exchange (EvReply t r) \<longleftrightarrow> True"
| "exchange EvErrTaken \<longleftrightarrow> True"
| "exchange _ \<longleftrightarrow> False"

fun is_close :: "event \<Rightarrow> bool" where
  "is_close (EvClose r) \<longleftrightarrow> True"
| "is_close _ \<longleftrightarrow> False"

definition fsm_stop :: "peerCtx \<Rightarrow> event list \<Rightarrow> fsm \<Rightarrow> fsm go option" where
  "fsm_stop c es f =
     (if list_all (\<lambda>e. \<not> exchange e) es
      then pbind (run_events (fsm_step c) f es) (\<lambda>f. if f_ctl f = Done then Some (Val f) else None)
      else None)"

definition disableFSM :: "event list \<Rightarrow> side \<Rightarrow> peer \<Rightarrow> peer go option" where
  "disableFSM es i p =
     (case fsms p i of
        None \<Rightarrow> Some (Val p)
      | Some f \<Rightarrow>
          pbind (fsm_stop (ctx p) es f) (\<lambda>f.
          Some (Val (p\<lparr>fsms := (fsms p)(i := None), fsmStates := (fsmStates p)(i := disabledState),
                       ended := ended p @ [(i, f)]\<rparr>))))"

text \<open>
  The \<open>select\<close> between a closed \<open>closeCh\<close> and the machine receiving the transition. The machine
  goes on to the state the transition leads to; the dial result is the one it may wait for on
  the way.
\<close>

datatype send_choice = SendClosed | SendTo dialResult

definition sendTransitionToFSM :: "send_choice \<Rightarrow> side \<Rightarrow> stateTransition \<Rightarrow> peer \<Rightarrow> peer go option" where
  "sendTransitionToFSM ch i t p =
     (case ch of
        SendClosed \<Rightarrow> if closing p then Some (Val p) else None
      | SendTo r \<Rightarrow>
          (case fsms p i of
             None \<Rightarrow> None
           | Some f \<Rightarrow>
               pbind (fsm_step (ctx p) f (EvReply t r)) (\<lambda>f.
               Some (Val (p\<lparr>fsms := (fsms p)(i \<mapsto> f), fsmStates := (fsmStates p)(i := tr_to t)\<rparr>)))))"

definition enableFSM :: "side \<Rightarrow> conn option \<Rightarrow> peer \<Rightarrow> peer" where
  "enableFSM i c p =
     (if i = Out \<and> opt_passive (pc_options (ctx p)) then p
      else if fsms p i = None
      then p\<lparr>fsms := (fsms p)(i \<mapsto> newFSM c), fsmStates := (fsmStates p)(i := disabledState)\<rparr>
      else p)"

section \<open>Transitions\<close>

text \<open>
  What the runtime decides while a transition is handled: the events of a machine that is
  stopped and the branch of each \<open>select\<close>. In the \<open>select\<close> of a collision these are the closed
  \<open>closeCh\<close>, the other machine receiving from its \<open>closeCh\<close>, or a transition of the other machine,
  which is then handled in turn.
\<close>

datatype h_choice =
    Plain (h_stop: "event list") (h_send: send_choice)
  | CollisionClosed
  | CollisionKill (h_stop: "event list") (h_send: send_choice)
  | CollisionOther (h_stop: "event list") (h_send: send_choice) h_choice
  where
    "h_stop CollisionClosed = []"
  | "h_send CollisionClosed = SendClosed"

definition dominant :: "peerCtx \<Rightarrow> u32 \<Rightarrow> bool" where
  "dominant c rid \<longleftrightarrow>
     pc_id c > rid \<or> pc_id c = rid \<and> LocalAS (pc_config c) > RemoteAS (pc_config c)"

text \<open>The machine on side \<open>i\<close> has handed over its transition and waits for the answer.\<close>

definition take_transition :: "side \<Rightarrow> peer \<Rightarrow> (stateTransition \<times> peer) option" where
  "take_transition i p =
     (case fsms p i of
        None \<Rightarrow> None
      | Some f \<Rightarrow>
          (case f_ctl f of
             Sending t \<Rightarrow> Some (t, p\<lparr>fsms := (fsms p)(i \<mapsto> f\<lparr>f_ctl := Awaiting t\<rparr>)\<rparr>)
           | _ \<Rightarrow> None))"

fun handleStateTransition :: "h_choice \<Rightarrow> side \<Rightarrow> stateTransition \<Rightarrow> peer \<Rightarrow> peer go option" where
  "handleStateTransition h i t p =
     (if tr_to t = establishedState
      then pbind (disableFSM (h_stop h) (other i) p) (sendTransitionToFSM (h_send h) i t)
      else if i = In \<and> tr_to t < tr_from t
      then pbind (disableFSM (h_stop h) i p) (\<lambda>p. Some (Val (enableFSM Out None p)))
      else if tr_to t = openConfirmState
      then
        (case fsmStates p (other i) of
           establishedState \<Rightarrow> disableFSM (h_stop h) i p
         | openConfirmState \<Rightarrow>
             (case fsms p i of
                None \<Rightarrow> Some (Fault NilDereference)
              | Some f \<Rightarrow>
                  if dominant (ctx p) (remoteID f) \<and> i = Out
                  then
                    (if fsms p (other i) = None then Some (Fault NilDereference)
                     else
                       case h of
                         CollisionClosed \<Rightarrow> if closing p then Some (Val p) else None
                       | CollisionKill es s \<Rightarrow>
                           (case es of
                              EvClose r # _ \<Rightarrow> pbind (disableFSM es (other i) p) (sendTransitionToFSM s i t)
                            | _ \<Rightarrow> None)
                       | CollisionOther es s h' \<Rightarrow>
                           (case take_transition (other i) p of
                              None \<Rightarrow> None
                            | Some (otherT, p) \<Rightarrow>
                                pbind (if tr_to otherT = establishedState then disableFSM es i p
                                       else sendTransitionToFSM s i t p)
                                  (handleStateTransition h' (other i) otherT))
                       | Plain _ _ \<Rightarrow> None)
                  else disableFSM (h_stop h) i p)
         | _ \<Rightarrow> sendTransitionToFSM (h_send h) i t p)
      else sendTransitionToFSM (h_send h) i t p)"

declare handleStateTransition.simps [simp del]

section \<open>Errors\<close>

text \<open>\<open>now\<close> is the time \<open>time.Now\<close> and \<open>time.Since\<close> read.\<close>

definition updateStartupDelay :: "int \<Rightarrow> peer \<Rightarrow> peer" where
  "updateStartupDelay now p =
     (let p = (case lastProtoError p of
                 Some t \<Rightarrow> if now - t \<ge> errorAmnesiaTime then p\<lparr>startupDelay := 0\<rparr> else p
               | None \<Rightarrow> p);
          p = p\<lparr>lastProtoError := Some now\<rparr>;
          p = p\<lparr>startupDelay := (if startupDelay p > 0 then min (2 * startupDelay p) errorDelayMaxTime
                                 else errorDelayMinTime)\<rparr>
      in p\<lparr>startupDelayTimer := NewTimer (startupDelay p)\<rparr>)"

definition handleError :: "int \<Rightarrow> event list \<Rightarrow> event list \<Rightarrow> error \<Rightarrow> peer \<Rightarrow> peer go option" where
  "handleError now es es' err p =
     (case as_notificationError err of
        Some (n, _) \<Rightarrow>
          if dampPeer n
          then
            pbind (disableFSM es In p) (\<lambda>p.
            pbind (disableFSM es' Out p) (\<lambda>p.
            Some (Val ((updateStartupDelay now p)\<lparr>inHoldDown := True\<rparr>))))
          else Some (Val p)
      | None \<Rightarrow> Some (Val p))"

section \<open>The run loop\<close>

datatype pevent =
    PFsm side event
  | PExpire
  | PStop
  | PReturn "event list" "event list"
  | PStartup
  | PError side int "event list" "event list"
  | PTransition side h_choice
  | PConn conn
  | PRefuse conn

text \<open>\<open>p.start()\<close>\<close>

definition peer_start :: "peer \<Rightarrow> peer" where
  "peer_start p = (enableFSM Out None p)\<lparr>running := True\<rparr>"

text \<open>A connection received from \<open>inConnCh\<close>.\<close>

definition inbound :: "conn \<Rightarrow> peer \<Rightarrow> peer" where
  "inbound c p =
     (if inHoldDown p then p\<lparr>refused := refused p @ [conn_Close c]\<rparr>
      else if fsms p In \<noteq> None \<or> fsmStates p Out = establishedState
      then p\<lparr>refused := refused p @ [conn_Close c]\<rparr>
      else enableFSM In (Some c) p)"

text \<open>The function deferred by \<open>run\<close>.\<close>

definition peer_return :: "event list \<Rightarrow> event list \<Rightarrow> peer \<Rightarrow> peer go option" where
  "peer_return es es' p =
     pbind (disableFSM es Out p) (\<lambda>p.
     pbind (disableFSM es' In p) (\<lambda>p.
     Some (Val (p\<lparr>startupDelayTimer := fst (timer_Stop (startupDelayTimer p)), running := False,
                  stopped := True\<rparr>))))"

text \<open>A machine takes a step of its own: no exchange with the manager, who has not stopped it.\<close>

definition own_step :: "side \<Rightarrow> event \<Rightarrow> peer \<Rightarrow> peer go option" where
  "own_step i ev p =
     (case fsms p i of
        None \<Rightarrow> None
      | Some f \<Rightarrow>
          if exchange ev \<or> is_close ev then None
          else pbind (fsm_step (ctx p) f ev) (\<lambda>f. Some (Val (p\<lparr>fsms := (fsms p)(i \<mapsto> f)\<rparr>))))"

definition take_error :: "side \<Rightarrow> peer \<Rightarrow> (error \<times> peer) option" where
  "take_error i p =
     (case fsms p i of
        None \<Rightarrow> None
      | Some f \<Rightarrow>
          (case f_ctl f of
             Reporting s d err \<Rightarrow>
               Some (err, p\<lparr>fsms := (fsms p)(i \<mapsto> f\<lparr>f_ctl := Sending (newStateTransition s d)\<rparr>)\<rparr>)
           | _ \<Rightarrow> None))"

definition peer_step :: "peer \<Rightarrow> pevent \<Rightarrow> peer go option" where
  "peer_step p ev =
     (case ev of
        PFsm i e \<Rightarrow> own_step i e p
      | PExpire \<Rightarrow>
          if tm_armed (startupDelayTimer p) \<noteq> None
          then Some (Val (p\<lparr>startupDelayTimer := timer_expire (startupDelayTimer p)\<rparr>)) else None
      | PStop \<Rightarrow> Some (Val (p\<lparr>closing := True\<rparr>))
      | PRefuse c \<Rightarrow> if closing p then Some (Val (p\<lparr>refused := refused p @ [conn_Close c]\<rparr>)) else None
      | _ \<Rightarrow>
          if \<not> running p then None
          else
            (case ev of
               PReturn es es' \<Rightarrow> if closing p then peer_return es es' p else None
             | PStartup \<Rightarrow>
                 (case recv_timer (Some (startupDelayTimer p)) of
                    None \<Rightarrow> None
                  | Some t \<Rightarrow>
                      Some (Val ((enableFSM Out None (p\<lparr>startupDelayTimer := t\<rparr>))\<lparr>inHoldDown := False\<rparr>)))
             | PError i now es es' \<Rightarrow>
                 (case take_error i p of
                    None \<Rightarrow> None
                  | Some (err, p) \<Rightarrow> handleError now es es' err p)
             | PTransition i h \<Rightarrow>
                 (case take_transition i p of
                    None \<Rightarrow> None
                  | Some (t, p) \<Rightarrow> handleStateTransition h i t p)
             | PConn c \<Rightarrow> Some (Val (inbound c p))
             | _ \<Rightarrow> None))"

end
