(* ===== verification/PeerInv.thy ===== *)
theory PeerInv
  imports Peer
begin

text \<open>
  The invariant of a peer with its manager and two state machines, and its preservation by every
  step. It carries the invariant of the machines, whose assumption on the manager's answers is
  discharged here.
\<close>

section \<open>Allowed events\<close>

abbreviation good_events :: "event list \<Rightarrow> bool" where
  "good_events \<equiv> list_all good_event"

fun good_choice :: "h_choice \<Rightarrow> bool" where
  "good_choice (Plain es s) \<longleftrightarrow> good_events es"
| "good_choice CollisionClosed \<longleftrightarrow> True"
| "good_choice (CollisionKill es s) \<longleftrightarrow> good_events es"
| "good_choice (CollisionOther es s h) \<longleftrightarrow> good_events es \<and> good_choice h"

fun good_pevent :: "pevent \<Rightarrow> bool" where
  "good_pevent (PFsm i e) \<longleftrightarrow> good_event e"
| "good_pevent (PReturn es es') \<longleftrightarrow> good_events es \<and> good_events es'"
| "good_pevent (PError i now es es') \<longleftrightarrow> good_events es \<and> good_events es'"
| "good_pevent (PTransition i h) \<longleftrightarrow> good_choice h"
| "good_pevent (PConn c) \<longleftrightarrow> c_out c = []"
| "good_pevent _ \<longleftrightarrow> True"

lemma good_h_stop: "good_choice h \<Longrightarrow> good_events (h_stop h)"
  by (cases h) simp_all

section \<open>The invariant\<close>

text \<open>The state the manager has last let a machine into.\<close>

fun ctl_state :: "control \<Rightarrow> fsmState" where
  "ctl_state (Sending t) = tr_from t"
| "ctl_state (Awaiting t) = tr_from t"
| "ctl_state (Running s) = s"
| "ctl_state (Reporting s d e) = s"
| "ctl_state Done = disabledState"

text \<open>A machine that has not been stopped does not ask to be disabled, and one with an inbound
  connection starts in Active.\<close>

definition asks :: "side \<Rightarrow> stateTransition \<Rightarrow> bool" where
  "asks i t \<longleftrightarrow> tr_to t \<noteq> disabledState \<and> (i = In \<and> tr_from t = disabledState \<longrightarrow> tr_to t = activeState)"

fun live :: "side \<Rightarrow> control \<Rightarrow> bool" where
  "live i (Sending t) \<longleftrightarrow> asks i t"
| "live i (Awaiting t) \<longleftrightarrow> asks i t"
| "live i (Running s) \<longleftrightarrow> True"
| "live i (Reporting s d e) \<longleftrightarrow> d \<noteq> disabledState"
| "live i Done \<longleftrightarrow> False"

fun awaits :: "control \<Rightarrow> bool" where
  "awaits (Awaiting t) \<longleftrightarrow> True"
| "awaits _ \<longleftrightarrow> False"

definition slot :: "peerCtx \<Rightarrow> bool \<Rightarrow> side \<Rightarrow> fsm option \<Rightarrow> fsmState \<Rightarrow> bool" where
  "slot c w i fo s =
     (case fo of
        None \<Rightarrow> s = disabledState
      | Some f \<Rightarrow> fsm_inv c f \<and> live i (f_ctl f) \<and> ctl_state (f_ctl f) = s \<and> (awaits (f_ctl f) \<longrightarrow> w))"

definition pending :: "timer \<Rightarrow> bool" where
  "pending t \<longleftrightarrow> tm_armed t \<noteq> None \<or> tm_chan t"

definition damped :: "peer \<Rightarrow> bool" where
  "damped p \<longleftrightarrow>
     (pending (startupDelayTimer p) \<longrightarrow> inHoldDown p) \<and>
     (inHoldDown p \<longrightarrow> fsms p = (\<lambda>i. None) \<and> (running p \<longrightarrow> pending (startupDelayTimer p)) \<and>
        errorDelayMinTime \<le> startupDelay p) \<and>
     (tm_chan (startupDelayTimer p) \<longrightarrow> tm_armed (startupDelayTimer p) = None) \<and>
     (startupDelay p = 0 \<or> errorDelayMinTime \<le> startupDelay p \<and> startupDelay p \<le> errorDelayMaxTime)"

definition sides :: "peer \<Rightarrow> bool" where
  "sides p \<longleftrightarrow>
     fsmStates p In \<notin> {idleState, connectState} \<and> (opt_passive (pc_options (ctx p)) \<longrightarrow> fsms p Out = None)"

definition finished :: "peer \<Rightarrow> bool" where
  "finished p \<longleftrightarrow>
     (stopped p \<longrightarrow> \<not> running p \<and> fsms p = (\<lambda>i. None) \<and> tm_armed (startupDelayTimer p) = None) \<and>
     (\<forall>(i, f) \<in> set (ended p). f_ctl f = Done \<and> fsm_inv (ctx p) f)"

text \<open>
  Not more than one connection is past OpenSent, and an established session is alone. This does
  not hold all the way through the resolution of a collision.
\<close>

definition sole :: "peer \<Rightarrow> bool" where
  "sole p \<longleftrightarrow>
     (\<forall>i. openConfirmState \<le> fsmStates p i \<longrightarrow> fsmStates p (other i) < openConfirmState) \<and>
     (\<forall>i. fsmStates p i = establishedState \<longrightarrow> fsms p (other i) = None)"

text \<open>\<open>W\<close> holds the machines whose transition the manager is about to answer.\<close>

definition inv0 :: "side set \<Rightarrow> peer \<Rightarrow> bool" where
  "inv0 W p \<longleftrightarrow>
     good_peer (ctx p) \<and> (\<forall>i. slot (ctx p) (closing p \<or> i \<in> W) i (fsms p i) (fsmStates p i)) \<and>
     damped p \<and> sides p \<and> finished p"

definition peer_inv :: "peer \<Rightarrow> bool" where
  "peer_inv p \<longleftrightarrow> inv0 {} p \<and> sole p"

section \<open>Small facts\<close>

lemma other_simps [simp]: "other Out = In" "other In = Out" "other (other i) = i" "other i \<noteq> i" "i \<noteq> other i"
  by (cases i; simp add: other_def)+

lemma side_other: "i \<noteq> other j \<Longrightarrow> i = j"
  by (cases i; cases j) simp_all

lemma all_sides: "(\<forall>i. P i) \<longleftrightarrow> P i \<and> P (other i)"
  by (cases i) (metis other_simps(1,2) side.exhaust)+

definition psat :: "('a \<Rightarrow> bool) \<Rightarrow> 'a go option \<Rightarrow> bool" where
  "psat Q m = (case m of None \<Rightarrow> True | Some (Fault e) \<Rightarrow> False | Some (Val x) \<Rightarrow> Q x)"

lemma psat_simps [simp]: "psat Q None" "\<not> psat Q (Some (Fault e))" "psat Q (Some (Val x)) = Q x"
  by (simp_all add: psat_def)

lemma pbind_simps [simp]:
  "pbind None k = None" "pbind (Some (Fault e)) k = Some (Fault e)" "pbind (Some (Val x)) k = k x"
  by (simp_all add: pbind_def)

lemma outcome_cases [case_names None Fault Val]:
  obtains "m = None" | e where "m = Some (Fault e)" | x where "m = Some (Val x)"
  by (metis go.exhaust option.exhaust)

lemma psat_bind: "psat P m \<Longrightarrow> (\<And>x. P x \<Longrightarrow> psat Q (k x)) \<Longrightarrow> psat Q (pbind m k)"
  by (cases m rule: outcome_cases) simp_all

lemma psat_mono: "psat P m \<Longrightarrow> (\<And>x. P x \<Longrightarrow> Q x) \<Longrightarrow> psat Q m"
  by (cases m rule: outcome_cases) simp_all

lemma run_events_pbind: "run_events step s (e # es) = pbind (step s e) (\<lambda>s. run_events step s es)"
  by (cases "step s e" rule: outcome_cases) simp_all

section \<open>The machines\<close>

lemma managed_eq: "(\<forall>t r. ev \<noteq> EvReply t r) \<Longrightarrow> managed_step c f ev = fsm_step c f ev"
  by (cases "f_ctl f"; cases ev) (simp_all add: managed_step_def)

lemma managed_reply: "f_ctl f = Awaiting t \<Longrightarrow> managed_step c f (EvReply t r) = fsm_step c f (EvReply t r)"
  by (simp add: managed_step_def)

lemma fsm_step_psat:
  assumes "fsm_inv c f" "good_peer c" "good_event ev" "\<not> exchange ev"
  shows "psat (fsm_inv c) (fsm_step c f ev)"
proof -
  have "managed_step c f ev = fsm_step c f ev" using assms(4) by (intro managed_eq) auto
  with fsm_step_inv [OF assms(1-3)] show ?thesis by (cases "fsm_step c f ev") auto
qed

lemma run_events_psat:
  assumes "fsm_inv c f" "good_peer c" "good_events es" "list_all (\<lambda>e. \<not> exchange e) es"
  shows "psat (fsm_inv c) (run_events (fsm_step c) f es)"
  using assms
proof (induction es arbitrary: f)
  case (Cons e es)
  then have "psat (fsm_inv c) (fsm_step c f e)" by (intro fsm_step_psat) simp_all
  with Cons show ?case by (auto simp: run_events_pbind simp del: run_events.simps intro: psat_bind)
qed simp

lemma fsm_stop_psat:
  assumes "fsm_inv c f" "good_peer c" "good_events es"
  shows "psat (\<lambda>f. f_ctl f = Done \<and> fsm_inv c f) (fsm_stop c es f)"
  using run_events_psat [OF assms]
  by (auto simp: fsm_stop_def intro!: psat_bind [where P = "fsm_inv c"])

text \<open>A state function asks for the disabled state only when told to close.\<close>

lemma send_and_return_to:
  "send_and_return n to f = Some (Val (g, Some (to', err))) \<Longrightarrow> to' = to"
  by (auto simp: send_and_return_def go_bind_Val_iff)

lemma sendOpen_to: "sendOpenAndSetHoldTimer p f = Val (g, to) \<Longrightarrow> to \<noteq> disabledState"
  by (auto simp: sendOpenAndSetHoldTimer_def Let_def go_bind_Val_iff split: sum.splits option.splits if_splits)

lemma on_return_to:
  "on_return fin m = Some (Val (g, Some (to, err))) \<Longrightarrow> \<exists>f. m = Some (Val (f, Some (to, err)))"
  by (auto simp: on_return_def go_bind_Val_iff split: option.splits prod.splits)

lemma openSent_open_to: "openSent_open p m f = Val (g, to, err) \<Longrightarrow> to \<noteq> disabledState"
  by (cases "openMessage_validate m (pc_id p) (LocalAS (pc_config p)) (RemoteAS (pc_config p))" rule: go_sum_cases)
     (auto simp: openSent_open_def go_bind_Val_iff Let_def split: option.splits if_splits)

lemma state_event_to:
  assumes "state_event p s f ev = Some (Val (g, Some (to, err)))" "\<not> is_close ev"
  shows "to \<noteq> disabledState"
proof (cases s)
  case disabledState
  with assms show ?thesis by (simp add: state_event_def)
next
  case idleState
  with assms show ?thesis
    by (auto simp: state_event_def idle_def returns_def Let_def split: event.splits timer_id.splits option.splits)
next
  case connectState
  have gc: "to \<noteq> disabledState" if "got_conn p c h = Some (Val (g, Some (to, err)))" for c h g to err
    using that by (auto simp: got_conn_def go_bind_Val_iff dest: sendOpen_to)
  from connectState assms show ?thesis
    by (auto simp: state_event_def connect_def returns_def continues_def dest: gc
        split: event.splits option.splits go.splits dialResult.splits if_splits)
next
  case activeState
  with assms show ?thesis
    by (auto simp: state_event_def active_def returns_def split: event.splits timer_id.splits option.splits)
next
  case openSentState
  from openSentState assms obtain h where "openSent_select p f ev = Some (Val (h, Some (to, err)))"
    by (auto simp: state_event_def openSent_def dest: on_return_to)
  with assms(2) show ?thesis
    by (auto simp: openSent_select_def returns_def from_reader_def go_bind_Val_iff dest: openSent_open_to send_and_return_to
        split: event.splits timer_id.splits option.splits message.splits if_splits)
next
  case openConfirmState
  from openConfirmState assms obtain h where "openConfirm_select p f ev = Some (Val (h, Some (to, err)))"
    by (auto simp: state_event_def openConfirm_def dest: on_return_to)
  with assms(2) show ?thesis
    by (auto simp: openConfirm_select_def session_event_def returns_def from_reader_def go_bind_Val_iff
        dest: send_and_return_to split: event.splits timer_id.splits option.splits message.splits if_splits)
next
  case establishedState
  from establishedState assms obtain h where "established_select p f ev = Some (Val (h, Some (to, err)))"
    by (auto simp: state_event_def established_def dest: on_return_to)
  with assms(2) show ?thesis
    by (auto simp: established_select_def session_event_def returns_def from_reader_def go_bind_Val_iff
        drain_if_nonzero_def continues_def Let_def
        dest: send_and_return_to split: event.splits timer_id.splits option.splits message.splits if_splits)
qed

lemma enter_select_ctl: "enter_select s f = Val g \<Longrightarrow> f_ctl g = Running s"
  by (auto simp: enter_select_def split: if_splits)

lemma next_iteration_ctl:
  assumes "d \<noteq> disabledState" "s \<noteq> disabledState"
  shows "live i (f_ctl (next_iteration s d err f))" "ctl_state (f_ctl (next_iteration s d err f)) = s"
    "\<not> awaits (f_ctl (next_iteration s d err f))"
  using assms by (cases err; simp add: next_iteration_def newStateTransition_def asks_def)+

lemma own_step_ctl:
  assumes "fsm_step c f ev = Some (Val f')" "\<not> exchange ev" "\<not> is_close ev" "live i (f_ctl f)" "fsm_inv c f"
  shows "live i (f_ctl f')" "ctl_state (f_ctl f') = ctl_state (f_ctl f)" "awaits (f_ctl f') = awaits (f_ctl f)"
proof -
  have "live i (f_ctl f') \<and> ctl_state (f_ctl f') = ctl_state (f_ctl f) \<and> awaits (f_ctl f') = awaits (f_ctl f)"
  proof (cases "ambient_event f ev")
    case (Some g)
    with assms(1) ambient_frame(1) [OF Some] assms(4) show ?thesis by (simp add: fsm_step_def)
  next
    case None
    show ?thesis
    proof (cases "f_ctl f")
      case (Running s)
      then have s: "s \<noteq> disabledState" using assms(5) by (simp add: fsm_inv_def)
      from assms(1) None Running obtain g x where g: "state_event c s f ev = Some (Val (g, x))"
        "(case x of None \<Rightarrow> enter_select s g | Some (d, err) \<Rightarrow> Val (next_iteration s d err g)) = Val f'"
        by (cases "state_event c s f ev") (auto simp: fsm_step_def go_bind_Val_iff)
      show ?thesis
      proof (cases x)
        case (Some y)
        obtain d err where y: "y = (d, err)" by (cases y)
        have "d \<noteq> disabledState" using state_event_to [of c s f ev g d err] g(1) Some y assms(3) by simp
        with g(2) Some y s Running show ?thesis by (auto simp: next_iteration_ctl)
      qed (use g(2) Running in \<open>auto dest: enter_select_ctl\<close>)
    qed (use assms(1-3) None in \<open>cases ev; simp add: fsm_step_def\<close>)+
  qed
  then show "live i (f_ctl f')" "ctl_state (f_ctl f') = ctl_state (f_ctl f)" "awaits (f_ctl f') = awaits (f_ctl f)"
    by blast+
qed

lemma reply_ctl:
  assumes "enter_state c r (tr_to t) t f = Val f'" "tr_to t \<noteq> disabledState"
  shows "live i (f_ctl f')" "ctl_state (f_ctl f') = tr_to t" "\<not> awaits (f_ctl f')"
proof -
  have "live i (f_ctl f') \<and> ctl_state (f_ctl f') = tr_to t \<and> \<not> awaits (f_ctl f')"
    using assms
    by (cases "tr_to t") (auto simp: enter_state_def Let_def go_bind_Val_iff next_iteration_ctl sendOpen_to
        dest!: enter_select_ctl split: if_splits)
  then show "live i (f_ctl f')" "ctl_state (f_ctl f') = tr_to t" "\<not> awaits (f_ctl f')" by blast+
qed

lemma own_slot:
  assumes "slot c w i (Some f) s" "good_peer c" "good_event ev" "\<not> exchange ev" "\<not> is_close ev"
  shows "psat (\<lambda>f'. slot c w i (Some f') s) (fsm_step c f ev)"
proof (cases "fsm_step c f ev" rule: outcome_cases)
  case (Val f')
  from assms(1) have f: "fsm_inv c f" "live i (f_ctl f)" by (simp_all add: slot_def)
  have "fsm_inv c f'" using fsm_step_psat [OF f(1) assms(2-4)] Val by simp
  with own_step_ctl [OF Val assms(4,5) f(2,1)] assms(1) Val show ?thesis by (simp add: slot_def)
qed (use fsm_step_psat [of c f ev] assms in \<open>auto simp: slot_def\<close>)

lemma reply_slot:
  assumes "slot c w i (Some f) s" "f_ctl f = Awaiting t"
  shows "\<exists>f'. fsm_step c f (EvReply t r) = Some (Val f') \<and> slot c w' i (Some f') (tr_to t)"
proof -
  have t: "tr_to t \<noteq> disabledState" using assms by (simp add: slot_def asks_def)
  have "ready c (tr_to t) f" "sess (f_trace f) = Some False" using assms by (auto simp: slot_def fsm_inv_def)
  from enter_state_inv [OF this, of r] obtain f' where f': "enter_state c r (tr_to t) t f = Val f'" "fsm_inv c f'"
    by blast
  have "fsm_step c f (EvReply t r) = Some (Val f')"
    using assms(2) f'(1) by (simp add: fsm_step_def ambient_event_def)
  with reply_ctl [OF f'(1) t] f'(2) show ?thesis by (simp add: slot_def)
qed

section \<open>The operations of the manager\<close>

text \<open>What an operation on side \<open>i\<close> leaves alone.\<close>

definition frame :: "side \<Rightarrow> peer \<Rightarrow> peer \<Rightarrow> bool" where
  "frame i p p' \<longleftrightarrow>
     ctx p' = ctx p \<and> closing p' = closing p \<and> fsms p' (other i) = fsms p (other i) \<and>
     fsmStates p' (other i) = fsmStates p (other i) \<and> inHoldDown p' = inHoldDown p \<and>
     startupDelay p' = startupDelay p \<and> startupDelayTimer p' = startupDelayTimer p \<and> running p' = running p \<and>
     stopped p' = stopped p"

lemma inv0_fsm: "inv0 W p \<Longrightarrow> fsms p i = Some f \<Longrightarrow> slot (ctx p) (closing p \<or> i \<in> W) i (Some f) (fsmStates p i)"
  unfolding inv0_def by metis

lemma hold_down_empty: "inv0 W p \<Longrightarrow> fsms p i = Some f \<Longrightarrow> \<not> inHoldDown p \<and> \<not> stopped p"
  by (auto simp: inv0_def damped_def finished_def)

lemma slot_mono: "slot c w i fo s \<Longrightarrow> (w \<Longrightarrow> w') \<Longrightarrow> slot c w' i fo s"
  by (cases fo) (auto simp: slot_def)

lemma inv0_slot: "inv0 W p \<Longrightarrow> slot (ctx p) (closing p \<or> i \<in> W) i (fsms p i) (fsmStates p i)"
  by (simp add: inv0_def)

lemma inv0_enabled: "inv0 W p \<Longrightarrow> fsmStates p i \<noteq> disabledState \<Longrightarrow> fsms p i \<noteq> None"
  using inv0_slot [of W p i] by (cases "fsms p i") (simp_all add: slot_def)

lemma inv0_rest: "inv0 W p \<Longrightarrow> good_peer (ctx p) \<and> damped p \<and> sides p \<and> finished p"
  by (simp add: inv0_def)

lemma inv0I:
  assumes "\<And>i. slot (ctx p) (closing p \<or> i \<in> W) i (fsms p i) (fsmStates p i)"
    and "good_peer (ctx p)" "damped p" "sides p" "finished p"
  shows "inv0 W p"
  using assms by (simp add: inv0_def)

lemma inv0_remove:
  assumes "inv0 W p" "f_ctl f = Done" "fsm_inv (ctx p) f"
  shows "inv0 (W - {i}) (p\<lparr>fsms := (fsms p)(i := None), fsmStates := (fsmStates p)(i := disabledState),
    ended := ended p @ [(i, f)]\<rparr>)"
    (is "inv0 _ ?p")
proof (rule inv0I)
  show "slot (ctx ?p) (closing ?p \<or> j \<in> W - {i}) j (fsms ?p j) (fsmStates ?p j)" for j
    using inv0_slot [OF assms(1), of j] by (cases "j = i") (simp_all add: slot_def [of _ _ _ None])
  show "damped ?p" using inv0_rest [OF assms(1)] by (auto simp: damped_def)
qed (use inv0_rest [OF assms(1)] assms(2,3) in \<open>auto simp: sides_def finished_def\<close>)

lemma disableFSM_psat:
  assumes inv: "inv0 W p" and es: "good_events es"
  shows "psat (\<lambda>p'. inv0 (W - {i}) p' \<and> fsms p' i = None \<and> fsmStates p' i = disabledState \<and> frame i p p')
    (disableFSM es i p)"
proof (cases "fsms p i")
  case None
  then have s: "slot (ctx p) (closing p \<or> i \<in> W) i None (fsmStates p i)" using inv unfolding inv0_def by metis
  have "slot (ctx p) (closing p \<or> j \<in> W - {i}) j (fsms p j) (fsmStates p j)" for j
  proof (cases "j = i")
    case True
    with s None show ?thesis by (simp add: slot_def)
  next
    case False
    with inv show ?thesis by (simp add: inv0_def)
  qed
  with inv None s show ?thesis by (simp add: disableFSM_def frame_def inv0_def slot_def [of _ _ _ None])
next
  case (Some f)
  with inv0_fsm [OF inv Some] inv have f: "fsm_inv (ctx p) f" "good_peer (ctx p)"
    by (simp_all add: slot_def inv0_def)
  show ?thesis
    unfolding disableFSM_def Some option.case
    by (rule psat_bind [OF fsm_stop_psat [OF f es]]) (use inv in \<open>simp add: inv0_remove frame_def\<close>)
qed

lemma disabled_sole:
  assumes "fsms p i = None" "fsmStates p i = disabledState"
  shows "sole p"
  using assms unfolding sole_def all_sides [of _ i] by (simp add: less_fsmState_def less_eq_fsmState_def)

lemma inv0_mono:
  assumes "inv0 W p" "W \<subseteq> W'"
  shows "inv0 W' p"
proof (rule inv0I)
  fix i
  show "slot (ctx p) (closing p \<or> i \<in> W') i (fsms p i) (fsmStates p i)"
    by (rule slot_mono [OF inv0_slot [OF assms(1)]]) (use assms(2) in blast)
qed (use inv0_rest [OF assms(1)] in auto)

lemma inv0_closing: "inv0 W p \<Longrightarrow> closing p \<Longrightarrow> inv0 W' p"
  by (auto simp: inv0_def elim: slot_mono)

lemma inv0_update:
  assumes inv: "inv0 W p" and f: "fsms p i = Some f" "slot (ctx p) (closing p \<or> i \<in> W') i (Some f') s"
    and W: "W - {i} \<subseteq> W'" and s: "i = In \<Longrightarrow> s \<notin> {idleState, connectState}"
  shows "inv0 W' (p\<lparr>fsms := (fsms p)(i \<mapsto> f'), fsmStates := (fsmStates p)(i := s)\<rparr>)" (is "inv0 _ ?p")
proof (rule inv0I)
  show "slot (ctx ?p) (closing ?p \<or> j \<in> W') j (fsms ?p j) (fsmStates ?p j)" for j
  proof (cases "j = i")
    case False
    with W have "closing p \<or> j \<in> W \<Longrightarrow> closing p \<or> j \<in> W'" by blast
    with False inv0_slot [OF inv, of j] show ?thesis by (simp add: slot_mono)
  qed (use f(2) in simp)
  have "\<not> inHoldDown p \<and> \<not> stopped p" using hold_down_empty [OF inv f(1)] .
  with inv0_rest [OF inv] show "damped ?p" "finished ?p" by (simp_all add: damped_def finished_def)
  show "sides ?p" using inv0_rest [OF inv] f(1) s by (cases i) (simp_all add: sides_def)
qed (use inv0_rest [OF inv] in simp)

lemma inv0_set:
  assumes "inv0 W p" "fsms p i = Some f" "slot (ctx p) (closing p \<or> i \<in> W') i (Some f') (fsmStates p i)" "W - {i} \<subseteq> W'"
  shows "inv0 W' (p\<lparr>fsms := (fsms p)(i \<mapsto> f')\<rparr>)"
  using inv0_update [OF assms] inv0_rest [OF assms(1)] by (auto simp: sides_def)

lemma sendTransition_psat:
  assumes inv: "inv0 W p" and f: "fsms p i = Some f" "f_ctl f = Awaiting t"
    and s: "i = In \<Longrightarrow> tr_to t \<notin> {idleState, connectState}"
  shows "psat (\<lambda>p'. inv0 (W - {i}) p' \<and> (closing p \<and> p' = p \<or> fsmStates p' i = tr_to t \<and> fsms p' i \<noteq> None) \<and>
    frame i p p') (sendTransitionToFSM ch i t p)"
proof (cases ch)
  case SendClosed
  with inv show ?thesis by (simp add: sendTransitionToFSM_def frame_def inv0_closing)
next
  case (SendTo r)
  from reply_slot [OF inv0_fsm [OF inv f(1)] f(2), of r False] obtain f' where
    f': "fsm_step (ctx p) f (EvReply t r) = Some (Val f')" "slot (ctx p) False i (Some f') (tr_to t)" by blast
  have "inv0 (W - {i}) (p\<lparr>fsms := (fsms p)(i \<mapsto> f'), fsmStates := (fsmStates p)(i := tr_to t)\<rparr>)"
    using f'(2) s by (intro inv0_update [OF inv f(1)]) (auto simp: slot_def)
  with SendTo f(1) f'(1) show ?thesis by (simp add: sendTransitionToFSM_def frame_def)
qed

lemma send_sole:
  assumes "sole p" "fsms p i \<noteq> None" "frame i p p'" "fsmStates p' i = s"
    and "s = establishedState \<Longrightarrow> fsms p (other i) = None"
    and "openConfirmState \<le> s \<Longrightarrow> fsmStates p (other i) < openConfirmState"
  shows "sole p'"
proof -
  have "fsmStates p (other i) \<noteq> establishedState" using assms(1,2) by (auto simp: sole_def)
  moreover have "fsmStates p' (other i) = fsmStates p (other i)" "fsms p' (other i) = fsms p (other i)"
    using assms(3) by (simp_all add: frame_def)
  moreover have "openConfirmState \<le> fsmStates p (other i) \<longrightarrow> s < openConfirmState"
    using assms(6) by (meson not_le)
  ultimately show ?thesis
    using assms(4-6) unfolding sole_def all_sides [of _ i] by simp
qed

lemma enableFSM_inv:
  assumes inv: "inv0 W p" "sole p" and h: "\<not> inHoldDown p" "\<not> stopped p"
    and o: "fsmStates p (other i) \<noteq> establishedState"
    and c: "c = None \<longleftrightarrow> i = Out" "\<And>x. c = Some x \<Longrightarrow> c_out x = []"
  shows "inv0 W (enableFSM i c p) \<and> sole (enableFSM i c p)"
proof (cases "(i = Out \<and> opt_passive (pc_options (ctx p))) \<or> fsms p i \<noteq> None")
  case True
  with inv show ?thesis by (auto simp: enableFSM_def)
next
  case False
  let ?p = "p\<lparr>fsms := (fsms p)(i \<mapsto> newFSM c), fsmStates := (fsmStates p)(i := disabledState)\<rparr>"
  have "fsm_start (newFSM c)" unfolding fsm_start_def
    by (intro exI [of _ c]) (use c(2) in \<open>auto split: option.split\<close>)
  then have slot: "slot (ctx p) w i (Some (newFSM c)) disabledState" for w
    using c(1) by (auto simp: slot_def fsm_start_inv newFSM_def newStateTransition_def asks_def)
  have "inv0 W ?p"
  proof (rule inv0I)
    show "slot (ctx ?p) (closing ?p \<or> j \<in> W) j (fsms ?p j) (fsmStates ?p j)" for j
      using slot inv0_slot [OF inv(1), of j] by (cases "j = i") simp_all
    show "sides ?p" using inv0_rest [OF inv(1)] False by (cases i) (auto simp: sides_def)
  qed (use inv0_rest [OF inv(1)] h in \<open>auto simp: damped_def finished_def\<close>)
  moreover have "sole ?p"
    using inv(2) o unfolding sole_def all_sides [of _ i] by (simp add: less_fsmState_def less_eq_fsmState_def)
  ultimately show ?thesis using False by (auto simp: enableFSM_def)
qed

lemma take_transition_inv:
  assumes "inv0 W p" "take_transition i p = Some (t, p')"
  obtains f where "inv0 (insert i W) p'" "fsms p' i = Some f" "f_ctl f = Awaiting t" "frame i p p'"
    "fsmStates p' i = fsmStates p i" "fsmStates p i = tr_from t"
proof -
  from assms(2) obtain f where f: "fsms p i = Some f" "f_ctl f = Sending t"
    "p' = p\<lparr>fsms := (fsms p)(i \<mapsto> f\<lparr>f_ctl := Awaiting t\<rparr>)\<rparr>"
    by (auto simp: take_transition_def split: option.splits control.splits)
  have s: "slot (ctx p) (closing p \<or> i \<in> W) i (Some f) (fsmStates p i)" by (rule inv0_fsm [OF assms(1) f(1)])
  then have s': "slot (ctx p) (closing p \<or> i \<in> insert i W) i (Some (f\<lparr>f_ctl := Awaiting t\<rparr>)) (fsmStates p i)"
    using f(2) by (auto simp: slot_def fsm_inv_def)
  have "inv0 (insert i W) p'" unfolding f(3) by (rule inv0_set [OF assms(1) f(1) s']) blast
  moreover have "fsms p' i = Some (f\<lparr>f_ctl := Awaiting t\<rparr>)" "frame i p p'" "fsmStates p' i = fsmStates p i"
    unfolding f(3) by (simp_all add: frame_def)
  moreover have "fsmStates p i = tr_from t" using s f(2) by (simp add: slot_def)
  ultimately show thesis by (intro that [of "f\<lparr>f_ctl := Awaiting t\<rparr>"]) simp_all
qed

text \<open>An inbound machine that does not go down is not sent to Idle or Connect.\<close>

lemma inbound_target:
  assumes "slot c w In (Some f) s" "f_ctl f = Awaiting t" "s \<notin> {idleState, connectState}" "\<not> tr_to t < tr_from t"
  shows "tr_to t \<notin> {idleState, connectState}"
proof -
  have "legal (tr_from t) (tr_to t)" "asks In t" "tr_from t = s" using assms by (auto simp: slot_def fsm_inv_def)
  with assms(3,4) show ?thesis
    by (cases s; cases "tr_to t") (auto simp: legal_def asks_def less_fsmState_def less_eq_fsmState_def)
qed

lemma sole_send_ok:
  assumes inv: "inv0 W p" "sole p" and f: "fsms p i = Some f" "f_ctl f = Awaiting t"
    and up: "\<not> (i = In \<and> tr_to t < tr_from t)"
    and e: "tr_to t = establishedState \<Longrightarrow> fsms p (other i) = None"
    and oc: "tr_to t = openConfirmState \<Longrightarrow> fsmStates p (other i) < openConfirmState"
  shows "psat (\<lambda>p'. inv0 (W - {i}) p' \<and> sole p') (sendTransitionToFSM ch i t p)"
proof -
  have "tr_to t \<notin> {idleState, connectState}" if "i = In"
    using inbound_target [OF inv0_fsm [OF inv(1) f(1)[unfolded that]] f(2)] up that inv0_rest [OF inv(1)]
    by (simp add: sides_def)
  then have "psat (\<lambda>p'. inv0 (W - {i}) p' \<and> (closing p \<and> p' = p \<or> fsmStates p' i = tr_to t \<and> fsms p' i \<noteq> None) \<and>
      frame i p p') (sendTransitionToFSM ch i t p)"
    by (rule sendTransition_psat [OF inv(1) f])
  moreover have "fsmStates p (other i) < openConfirmState" if "openConfirmState \<le> tr_to t"
  proof (cases "tr_to t = establishedState")
    case True
    then have "fsmStates p (other i) = disabledState"
      using inv0_slot [OF inv(1), of "other i"] e by (simp add: slot_def)
    then show ?thesis by (simp add: less_fsmState_def less_eq_fsmState_def)
  next
    case False
    with that have "tr_to t = openConfirmState"
      by (cases "tr_to t") (simp_all add: less_fsmState_def less_eq_fsmState_def)
    then show ?thesis by (rule oc)
  qed
  ultimately show ?thesis
    using send_sole [OF inv(2), of i _ "tr_to t"] f(1) e inv(2) by (auto elim!: psat_mono)
qed

text \<open>
  The handler is entered with the machine on side \<open>i\<close> waiting for its answer. The other machine
  can only go down when it hands over a transition that does not lead to Established.
\<close>

lemma openConfirm_down:
  assumes "slot c w i (Some f) openConfirmState" "f_ctl f = Awaiting t" "tr_to t \<noteq> establishedState"
  shows "tr_to t = idleState" "tr_from t = openConfirmState"
proof -
  have "legal (tr_from t) (tr_to t)" "asks i t" "tr_from t = openConfirmState"
    using assms by (auto simp: slot_def fsm_inv_def)
  with assms(3) show "tr_to t = idleState" "tr_from t = openConfirmState" by (auto simp: legal_def asks_def)
qed

lemma in_down_psat:
  assumes inv: "inv0 {In} p" and f: "fsms p In = Some f" and es: "good_events es"
  shows "psat peer_inv (pbind (disableFSM es In p) (\<lambda>p. Some (Val (enableFSM Out None p))))"
proof (rule psat_bind [OF disableFSM_psat [OF inv es]])
  fix p' assume p': "inv0 ({In} - {In}) p' \<and> fsms p' In = None \<and> fsmStates p' In = disabledState \<and> frame In p p'"
  have h: "\<not> inHoldDown p' \<and> \<not> stopped p'" using hold_down_empty [OF inv f] p' by (simp add: frame_def)
  show "psat peer_inv (Some (Val (enableFSM Out None p')))"
    using enableFSM_inv [of "{}" p' Out None] p' h disabled_sole [of p' In] by (simp add: peer_inv_def)
qed

lemma kill_psat:
  assumes inv: "inv0 {i} p" and f: "fsms p i = Some f" "f_ctl f = Awaiting t"
    and up: "\<not> (i = In \<and> tr_to t < tr_from t)" and es: "good_events es"
  shows "psat peer_inv (pbind (disableFSM es (other i) p) (sendTransitionToFSM ch i t))"
proof (rule psat_bind [OF disableFSM_psat [OF inv es]])
  fix p' assume p': "inv0 ({i} - {other i}) p' \<and> fsms p' (other i) = None \<and>
    fsmStates p' (other i) = disabledState \<and> frame (other i) p p'"
  then have "inv0 {i} p'" "sole p'" "fsms p' i = Some f"
    using disabled_sole [of p' "other i"] f(1) by (simp_all add: frame_def)
  then have "psat (\<lambda>p'. inv0 ({i} - {i}) p' \<and> sole p') (sendTransitionToFSM ch i t p')"
    by (rule sole_send_ok) (use f(2) up p' in \<open>simp_all add: less_fsmState_def less_eq_fsmState_def\<close>)
  then show "psat peer_inv (sendTransitionToFSM ch i t p')" by (simp add: peer_inv_def [abs_def])
qed

lemma established_psat:
  assumes inv: "inv0 {i} p" and f: "fsms p i = Some f" "f_ctl f = Awaiting t" and t: "tr_to t = establishedState"
    and es: "good_events es"
  shows "psat peer_inv (pbind (disableFSM es (other i) p) (sendTransitionToFSM ch i t))"
proof -
  have "\<not> (i = In \<and> tr_to t < tr_from t)"
    using t by (cases "tr_from t") (simp_all add: less_fsmState_def less_eq_fsmState_def)
  from kill_psat [OF inv f this es] show ?thesis .
qed

lemma disable_self_psat:
  assumes "inv0 {i} p" "good_events es"
  shows "psat peer_inv (disableFSM es i p)"
  by (rule psat_mono [OF disableFSM_psat [OF assms]]) (auto simp: peer_inv_def intro: disabled_sole)

lemma collision_other_psat:
  assumes inv: "inv0 {Out} p" and f: "fsms p Out = Some f" "f_ctl f = Awaiting t" "tr_to t = openConfirmState"
    and st: "fsmStates p In = openConfirmState"
    and o: "take_transition In p = Some (otherT, p')" and es: "good_events es" "good_choice h"
  shows "psat peer_inv (pbind (if tr_to otherT = establishedState then disableFSM es Out p'
    else sendTransitionToFSM s Out t p') (handleStateTransition h In otherT))"
proof -
  obtain g where g: "inv0 (insert In {Out}) p'" "fsms p' In = Some g" "f_ctl g = Awaiting otherT" "frame In p p'"
    "fsmStates p' In = fsmStates p In" by (rule take_transition_inv [OF inv o])
  have f': "fsms p' Out = Some f" using g(4) f(1) by (simp add: frame_def)
  show ?thesis
  proof (cases "tr_to otherT = establishedState")
    case True
    have "psat peer_inv (handleStateTransition h In otherT q)"
      if "inv0 (insert In {Out} - {Out}) q \<and> fsms q Out = None \<and> fsmStates q Out = disabledState \<and> frame Out p' q" for q
      using established_psat [of In q g otherT "h_stop h" "h_send h"] that g True good_h_stop [OF es(2)]
      by (simp add: handleStateTransition.simps frame_def insert_Diff_if)
    then show ?thesis unfolding if_P [OF True] by (rule psat_bind [OF disableFSM_psat [OF g(1) es(1)]])
  next
    case False
    have d: "tr_to otherT = idleState" "tr_from otherT = openConfirmState"
      using openConfirm_down [OF _ g(3) False] inv0_fsm [OF g(1,2)] g(5) st by auto
    have "psat peer_inv (handleStateTransition h In otherT q)"
      if "inv0 (insert In {Out} - {Out}) q \<and> (closing p' \<and> q = p' \<or> fsmStates q Out = tr_to t \<and> fsms q Out \<noteq> None) \<and>
        frame Out p' q" for q
      using in_down_psat [of q g "h_stop h"] that g(2) d good_h_stop [OF es(2)]
      by (simp add: handleStateTransition.simps frame_def insert_Diff_if less_fsmState_def less_eq_fsmState_def)
    then show ?thesis
      unfolding if_not_P [OF False] by (rule psat_bind [OF sendTransition_psat [OF g(1) f' f(2)], rotated]) auto
  qed
qed

lemma less_fsmState_simps [simp]:
  "\<not> openConfirmState < openConfirmState" "\<not> establishedState < openConfirmState"
  "s < openConfirmState \<longleftrightarrow> s \<noteq> openConfirmState \<and> s \<noteq> establishedState"
  by (cases s; simp add: less_fsmState_def less_eq_fsmState_def)+

lemma collision_psat:
  assumes inv: "inv0 {Out} p" "sole p" and f: "fsms p Out = Some f" "f_ctl f = Awaiting t"
    and t: "tr_to t = openConfirmState" "fsmStates p In = openConfirmState" "dominant (ctx p) (remoteID f)"
    and h: "good_choice h"
  shows "psat peer_inv (handleStateTransition h Out t p)"
proof -
  have nn: "fsms p In \<noteq> None" using inv0_enabled [OF inv(1)] t(2) by simp
  show ?thesis
  proof (cases h)
    case (CollisionOther es s h')
    show ?thesis
    proof (cases "take_transition In p")
      case (Some x)
      obtain otherT p' where x: "x = (otherT, p')" by (cases x)
      with collision_other_psat [of p f t otherT p' es h' s] CollisionOther Some t inv f h
      have "psat peer_inv (pbind (if tr_to otherT = establishedState then disableFSM es Out p'
          else sendTransitionToFSM s Out t p') (handleStateTransition h' In otherT))" by simp
      with CollisionOther Some x t f nn show ?thesis
        by (subst handleStateTransition.simps) (simp split: if_splits)
    qed (use CollisionOther t f nn in \<open>subst handleStateTransition.simps, simp\<close>)
  next
    case (CollisionKill es s)
    with kill_psat [OF inv(1) f, of es s] h t f nn show ?thesis
      by (subst handleStateTransition.simps) (auto split: list.split event.split)
  qed (use t f nn inv in \<open>subst handleStateTransition.simps, auto simp: peer_inv_def inv0_closing\<close>)+
qed

lemma handle_psat:
  assumes inv: "inv0 {i} p" "sole p" and f: "fsms p i = Some f" "f_ctl f = Awaiting t" and h: "good_choice h"
  shows "psat peer_inv (handleStateTransition h i t p)"
proof (cases "i = Out \<and> tr_to t = openConfirmState \<and> fsmStates p In = openConfirmState \<and> dominant (ctx p) (remoteID f)")
  case True
  then show ?thesis using collision_psat [of p f t h] assms by simp
next
  case False
  note es = good_h_stop [OF h]
  have send: "psat peer_inv (sendTransitionToFSM ch i t p)" if "tr_to t \<noteq> establishedState"
    "\<not> (i = In \<and> tr_to t < tr_from t)"
    "tr_to t = openConfirmState \<Longrightarrow> fsmStates p (other i) < openConfirmState" for ch
    using sole_send_ok [OF inv f that(2)] that(1,3) by (auto simp: peer_inv_def [abs_def])
  have down: "psat peer_inv (pbind (disableFSM (h_stop h) i p) (\<lambda>p. Some (Val (enableFSM Out None p))))" if "i = In"
    using in_down_psat [of p f "h_stop h"] that inv(1) f(1) es by simp
  have n: "\<not> (dominant (ctx p) (remoteID f) \<and> i = Out)" if "tr_to t = openConfirmState"
    "fsmStates p (other i) = openConfirmState" using False that by auto
  show ?thesis
    by (subst handleStateTransition.simps)
       (use f n down send established_psat [OF inv(1) f _ es] disable_self_psat [OF inv(1) es]
         in \<open>auto split: fsmState.split\<close>)
qed

section \<open>Errors and the run loop\<close>

lemma both_disabled:
  assumes inv: "inv0 W p" and es: "good_events es" "good_events es'" and k: "k1 \<noteq> k2"
  shows "psat (\<lambda>q. inv0 {} q \<and> fsms q = (\<lambda>i. None) \<and> sole q \<and> stopped q = stopped p)
    (pbind (disableFSM es k1 p) (disableFSM es' k2))"
proof (rule psat_bind [OF disableFSM_psat [OF inv es(1)]])
  have k2: "k2 = other k1" using k by (cases k1; cases k2) simp_all
  fix q assume q: "inv0 (W - {k1}) q \<and> fsms q k1 = None \<and> fsmStates q k1 = disabledState \<and> frame k1 p q"
  then have "inv0 (W - {k1}) q" by simp
  have W: "W - {k1} - {k2} = {}" using k2 by (cases k1) (auto intro: side.exhaust)
  show "psat (\<lambda>q. inv0 {} q \<and> fsms q = (\<lambda>i. None) \<and> sole q \<and> stopped q = stopped p) (disableFSM es' k2 q)"
  proof (rule psat_mono [OF disableFSM_psat [OF \<open>inv0 (W - {k1}) q\<close> es(2)]])
    fix r assume r: "inv0 (W - {k1} - {k2}) r \<and> fsms r k2 = None \<and> fsmStates r k2 = disabledState \<and> frame k2 q r"
    have "fsms r i = None" for i using q r k2 by (cases "i = k2") (auto simp: frame_def dest: side_other)
    then have "fsms r = (\<lambda>i. None)" by auto
    with q r W disabled_sole [of r k2] show "inv0 {} r \<and> fsms r = (\<lambda>i. None) \<and> sole r \<and> stopped r = stopped p"
      by (simp add: frame_def)
  qed
qed

lemma updateStartupDelay_bounds:
  assumes "startupDelay p = 0 \<or> errorDelayMinTime \<le> startupDelay p \<and> startupDelay p \<le> errorDelayMaxTime"
  shows "errorDelayMinTime \<le> startupDelay (updateStartupDelay now p)"
    "startupDelay (updateStartupDelay now p) \<le> errorDelayMaxTime"
  using assms
  by (auto simp: updateStartupDelay_def Let_def errorDelayMinTime_def errorDelayMaxTime_def Second_def
      split: option.split)

lemma pbind_assoc: "pbind (pbind m k) l = pbind m (\<lambda>x. pbind (k x) l)"
  by (cases m rule: outcome_cases) simp_all

lemma inv0_frozen:
  assumes "inv0 W p" "ctx q = ctx p" "closing q = closing p" "fsms q = fsms p" "fsmStates q = fsmStates p"
    "ended q = ended p" "damped q" "stopped q \<longrightarrow> \<not> running q \<and> fsms p = (\<lambda>i. None) \<and> tm_armed (startupDelayTimer q) = None"
  shows "inv0 W q"
  using assms by (simp add: inv0_def sides_def finished_def)

lemma sole_cong: "fsms q = fsms p \<Longrightarrow> fsmStates q = fsmStates p \<Longrightarrow> sole q = sole p"
  by (simp add: sole_def)

lemma handleError_psat:
  assumes inv: "inv0 {} p" "sole p" "\<not> stopped p" and es: "good_events es" "good_events es'"
  shows "psat peer_inv (handleError now es es' err p)"
proof -
  have "psat peer_inv (pbind (pbind (disableFSM es In p) (disableFSM es' Out)) (\<lambda>p.
    Some (Val ((updateStartupDelay now p)\<lparr>inHoldDown := True\<rparr>))))"
  proof (rule psat_bind [OF both_disabled [OF inv(1) es]])
    fix q assume q: "inv0 {} q \<and> fsms q = (\<lambda>i. None) \<and> sole q \<and> stopped q = stopped p"
    let ?q = "(updateStartupDelay now q)\<lparr>inHoldDown := True\<rparr>"
    have frame: "ctx ?q = ctx q" "closing ?q = closing q" "fsms ?q = fsms q" "fsmStates ?q = fsmStates q"
      "ended ?q = ended q" "stopped ?q = stopped q" "startupDelayTimer ?q = NewTimer (startupDelay ?q)"
      by (simp_all add: updateStartupDelay_def Let_def split: option.split)
    have "startupDelay q = 0 \<or> errorDelayMinTime \<le> startupDelay q \<and> startupDelay q \<le> errorDelayMaxTime"
      using q by (simp add: inv0_def damped_def)
    from updateStartupDelay_bounds [OF this, of now] have "damped ?q"
      using q frame by (simp add: damped_def pending_def NewTimer_def)
    then have "inv0 {} ?q" by (rule inv0_frozen [of "{}" q, rotated -2]) (use q inv(3) frame in simp_all)
    moreover have "sole ?q" using q sole_cong [OF frame(3,4)] by simp
    ultimately show "psat peer_inv (Some (Val ?q))" by (simp add: peer_inv_def)
  qed simp
  then show ?thesis
    using inv by (auto simp: handleError_def pbind_assoc peer_inv_def split: option.split)
qed

lemma peer_return_psat:
  assumes inv: "inv0 {} p" and es: "good_events es" "good_events es'"
  shows "psat peer_inv (peer_return es es' p)"
proof -
  have "psat peer_inv (pbind (pbind (disableFSM es Out p) (disableFSM es' In)) (\<lambda>p.
    Some (Val (p\<lparr>startupDelayTimer := fst (timer_Stop (startupDelayTimer p)), running := False, stopped := True\<rparr>))))"
  proof (rule psat_bind [OF both_disabled [OF inv es]])
    fix q assume q: "inv0 {} q \<and> fsms q = (\<lambda>i. None) \<and> sole q \<and> stopped q = stopped p"
    let ?q = "q\<lparr>startupDelayTimer := fst (timer_Stop (startupDelayTimer q)), running := False, stopped := True\<rparr>"
    have "damped ?q" using q by (auto simp: inv0_def damped_def pending_def timer_Stop_def)
    then have "inv0 {} ?q" by (rule inv0_frozen [of "{}" q, rotated -2]) (use q in \<open>simp_all add: timer_Stop_def\<close>)
    moreover have "sole ?q" using q sole_cong [of ?q q] by simp
    ultimately show "psat peer_inv (Some (Val ?q))" by (simp add: peer_inv_def)
  qed simp
  then show ?thesis by (simp add: peer_return_def pbind_assoc)
qed

lemma take_error_inv:
  assumes inv: "inv0 {} p" "sole p" and "take_error i p = Some (err, q)"
  shows "inv0 {} q \<and> sole q \<and> \<not> stopped q"
proof -
  from assms(3) obtain f s d where f: "fsms p i = Some f" "f_ctl f = Reporting s d err"
    "q = p\<lparr>fsms := (fsms p)(i \<mapsto> f\<lparr>f_ctl := Sending (newStateTransition s d)\<rparr>)\<rparr>"
    by (auto simp: take_error_def split: option.splits control.splits)
  have sl: "slot (ctx p) (closing p \<or> i \<in> {}) i (Some f) (fsmStates p i)" by (rule inv0_fsm [OF inv(1) f(1)])
  then have sl': "slot (ctx p) (closing p \<or> i \<in> {}) i (Some (f\<lparr>f_ctl := Sending (newStateTransition s d)\<rparr>)) (fsmStates p i)"
    using f(2) by (auto simp: slot_def fsm_inv_def newStateTransition_def asks_def)
  have "inv0 {} q" unfolding f(3) by (rule inv0_set [OF inv(1) f(1) sl']) simp
  moreover have "sole q" using inv(2) f(1,3) unfolding sole_def all_sides [of _ i] by simp
  moreover have "\<not> stopped q" using hold_down_empty [OF inv(1) f(1)] f(3) by simp
  ultimately show ?thesis by simp
qed

lemma own_step_psat:
  assumes inv: "inv0 {} p" "sole p" and e: "good_event e"
  shows "psat peer_inv (own_step i e p)"
proof (cases "fsms p i")
  case (Some f)
  note sl = inv0_fsm [OF inv(1) Some]
  show ?thesis
  proof (cases "exchange e \<or> is_close e")
    case False
    then have x: "\<not> exchange e" "\<not> is_close e" by simp_all
    have "psat peer_inv (Some (Val (p\<lparr>fsms := (fsms p)(i \<mapsto> f')\<rparr>)))"
      if f': "slot (ctx p) (closing p \<or> i \<in> {}) i (Some f') (fsmStates p i)" for f'
    proof -
      have "inv0 {} (p\<lparr>fsms := (fsms p)(i \<mapsto> f')\<rparr>)" by (rule inv0_set [OF inv(1) Some f']) simp
      moreover have "sole (p\<lparr>fsms := (fsms p)(i \<mapsto> f')\<rparr>)"
        using inv(2) Some unfolding sole_def all_sides [of _ i] by simp
      ultimately show ?thesis by (simp add: peer_inv_def)
    qed
    then have "psat peer_inv (pbind (fsm_step (ctx p) f e) (\<lambda>f'. Some (Val (p\<lparr>fsms := (fsms p)(i \<mapsto> f')\<rparr>))))"
      by (rule psat_bind [OF own_slot [OF sl conjunct1 [OF inv0_rest [OF inv(1)]] e x]])
    with Some x show ?thesis by (simp add: own_step_def)
  qed (use Some in \<open>simp add: own_step_def\<close>)
qed (simp add: own_step_def)

lemma inbound_inv:
  assumes inv: "inv0 {} p" "sole p" and c: "c_out c = []" and r: "running p"
  shows "inv0 {} (inbound c p) \<and> sole (inbound c p)"
proof -
  have "\<not> stopped p" using inv0_rest [OF inv(1)] r by (auto simp: finished_def)
  moreover have "inv0 {} (p\<lparr>refused := xs\<rparr>) \<and> sole (p\<lparr>refused := xs\<rparr>)" for xs
    using inv inv0_frozen [OF inv(1), of "p\<lparr>refused := xs\<rparr>"] inv0_rest [OF inv(1)]
    by (simp add: damped_def finished_def sole_def)
  ultimately show ?thesis
    using enableFSM_inv [OF inv, of In "Some c"] c by (simp add: inbound_def)
qed

lemma startup_inv:
  assumes inv: "inv0 {} p" "sole p" and t: "recv_timer (Some (startupDelayTimer p)) = Some t" and r: "running p"
  shows "peer_inv ((enableFSM Out None (p\<lparr>startupDelayTimer := t\<rparr>))\<lparr>inHoldDown := False\<rparr>)"
proof -
  let ?p = "p\<lparr>startupDelayTimer := t, inHoldDown := False\<rparr>"
  have tm: "tm_chan (startupDelayTimer p)" "t = startupDelayTimer p\<lparr>tm_chan := False\<rparr>"
    using t by (simp_all add: recv_timer_def split: if_splits)
  have st: "\<not> stopped p" using inv0_rest [OF inv(1)] r by (auto simp: finished_def)
  have none: "fsms p = (\<lambda>i. None)" using inv0_rest [OF inv(1)] tm(1) by (simp add: damped_def pending_def)
  have "damped ?p" using inv0_rest [OF inv(1)] tm by (auto simp: damped_def pending_def)
  then have "inv0 {} ?p" by (rule inv0_frozen [OF inv(1), rotated -2]) (use st in simp_all)
  moreover have "sole ?p" using inv(2) by (simp add: sole_def)
  moreover have "fsmStates p In = disabledState"
    using inv0_slot [OF inv(1), of In] none by (simp add: slot_def)
  ultimately have "peer_inv (enableFSM Out None ?p)"
    using enableFSM_inv [of "{}" ?p Out None] st by (simp add: peer_inv_def)
  moreover have "(enableFSM Out None (p\<lparr>startupDelayTimer := t\<rparr>))\<lparr>inHoldDown := False\<rparr> = enableFSM Out None ?p"
    by (simp add: enableFSM_def)
  ultimately show ?thesis by simp
qed

lemma transition_psat:
  assumes inv: "inv0 {} p" "sole p" and t: "take_transition i p = Some (t, q)" and h: "good_choice h"
  shows "psat peer_inv (handleStateTransition h i t q)"
proof -
  obtain f where f: "inv0 (insert i {}) q" "fsms q i = Some f" "f_ctl f = Awaiting t" "frame i p q"
    "fsmStates q i = fsmStates p i" by (rule take_transition_inv [OF inv(1) t])
  have "fsms p i \<noteq> None" using t by (auto simp: take_transition_def split: option.splits)
  with inv(2) f have "sole q" unfolding sole_def all_sides [of _ i] by (simp add: frame_def)
  then show ?thesis using handle_psat [of i q f t h] f h by simp
qed

lemma peer_step_psat:
  assumes "peer_inv p" "good_pevent ev"
  shows "psat peer_inv (peer_step p ev)"
proof -
  have inv: "inv0 {} p" "sole p" using assms(1) by (simp_all add: peer_inv_def)
  have same: "peer_inv q" if "ctx q = ctx p" "fsms q = fsms p" "fsmStates q = fsmStates p" "ended q = ended p"
    "closing p \<longrightarrow> closing q" "damped q" "stopped q \<longrightarrow> stopped p" "running q = running p"
    "tm_armed (startupDelayTimer p) = None \<longrightarrow> tm_armed (startupDelayTimer q) = None" for q
  proof -
    have "slot (ctx q) (closing q \<or> i \<in> {}) i (fsms q i) (fsmStates q i)" for i
      using that(5) unfolding that(1-4) by (rule_tac slot_mono [OF inv0_slot [OF inv(1)]]) auto
    moreover have "sides q" "finished q" using inv0_rest [OF inv(1)] that by (auto simp: sides_def finished_def)
    ultimately have "inv0 {} q" using inv0_rest [OF inv(1)] that(1,6) by (intro inv0I) simp_all
    moreover have "sole q" using inv(2) sole_cong [OF that(2,3)] by simp
    ultimately show ?thesis by (simp add: peer_inv_def)
  qed
  have d: "damped p" using inv0_rest [OF inv(1)] by simp
  show ?thesis
  proof (cases ev)
    case PExpire
    have "damped (p\<lparr>startupDelayTimer := timer_expire (startupDelayTimer p)\<rparr>)"
      if "tm_armed (startupDelayTimer p) = Some x" for x
      using d that by (auto simp: damped_def pending_def timer_expire_def)
    then show ?thesis using PExpire by (auto simp: peer_step_def timer_expire_def intro!: same)
  next
    case (PError i now es es')
    with take_error_inv [OF inv, of i] assms(2) show ?thesis
      by (auto simp: peer_step_def split: option.split intro!: handleError_psat)
  qed (use inv assms(2) d in \<open>auto simp: peer_step_def damped_def inbound_inv peer_inv_def [of "inbound _ _"]
      split: option.split intro!: same own_step_psat peer_return_psat startup_inv transition_psat\<close>)
qed

text \<open>A peer starts from a new one, with a configured hold time of at least three seconds.\<close>

definition peer_init :: "peer \<Rightarrow> bool" where
  "peer_init p \<longleftrightarrow> (\<exists>c. good_peer c \<and> p = peer_start (newPeer c))"

lemma new_peer_inv: "good_peer c \<Longrightarrow> inv0 {} (newPeer c) \<and> sole (newPeer c)"
  by (simp add: newPeer_def inv0_def slot_def damped_def sides_def finished_def sole_def pending_def recv_timer_def
      timer_expire_def)

lemma peer_init_inv:
  assumes "peer_init p"
  shows "peer_inv p"
proof -
  from assms obtain c where c: "good_peer c" "p = peer_start (newPeer c)" by (auto simp: peer_init_def)
  let ?q = "enableFSM Out None (newPeer c)"
  have q: "inv0 {} ?q \<and> sole ?q"
    using new_peer_inv [OF c(1)] by (intro enableFSM_inv) (simp_all add: newPeer_def)
  have s: "\<not> inHoldDown ?q \<and> \<not> stopped ?q" by (simp add: enableFSM_def newPeer_def)
  then have "damped (?q\<lparr>running := True\<rparr>)" using inv0_rest [of "{}" ?q] q by (simp add: damped_def)
  then have "inv0 {} (?q\<lparr>running := True\<rparr>)"
    by (rule inv0_frozen [of "{}" ?q, rotated -2]) (use q s in simp_all)
  moreover have "sole (?q\<lparr>running := True\<rparr>)" using q by (simp add: sole_def)
  ultimately show ?thesis unfolding c(2) peer_start_def by (simp add: peer_inv_def)
qed

abbreviation peer_reach :: "peer \<Rightarrow> bool" where
  "peer_reach \<equiv> reach peer_init good_pevent peer_step"

interpretation manager: go_safe peer_init good_pevent peer_step peer_inv
proof unfold_locales
  fix p e q assume "peer_inv p" "good_pevent e" "peer_step p e = Some (Val q)"
  then show "peer_inv q" using peer_step_psat [of p e] by simp
next
  fix p e x assume "peer_inv p" "good_pevent e"
  then show "peer_step p e \<noteq> Some (Fault x)" using peer_step_psat [of p e] by auto
qed (rule peer_init_inv)

end
