(* ===== verification/PeerProps.thy ===== *)
theory PeerProps
  imports PeerInv
begin

text \<open>
  What the manager of a peer guarantees: it does not fault, it keeps at most one session, it damps
  a peer that fails, it resolves collisions, it answers every transition, and it can be stopped.
\<close>

section \<open>What the handling of a transition leaves alone\<close>

lemma enableFSM_frame [simp]:
  "ctx (enableFSM i c p) = ctx p" "running (enableFSM i c p) = running p" "closing (enableFSM i c p) = closing p"
  "stopped (enableFSM i c p) = stopped p"
  by (simp_all add: enableFSM_def)

text \<open>The configuration never changes, and only the return of the manager ends it.\<close>

lemma pbind_Val: "pbind m k = Some (Val y) \<longleftrightarrow> (\<exists>x. m = Some (Val x) \<and> k x = Some (Val y))"
  by (cases m rule: outcome_cases) simp_all

definition same :: "peer \<Rightarrow> peer \<Rightarrow> bool" where
  "same p q \<longleftrightarrow> ctx q = ctx p \<and> running q = running p \<and> closing q = closing p"

lemma same_trans: "same p q \<Longrightarrow> same q r \<Longrightarrow> same p r"
  by (simp add: same_def)

lemma same_refl [simp]: "same p p"
  by (simp add: same_def)

lemma disable_same: "disableFSM es i p = Some (Val q) \<Longrightarrow> same p q"
  by (auto simp: disableFSM_def pbind_Val same_def split: option.splits)

lemma send_same: "sendTransitionToFSM ch i t p = Some (Val q) \<Longrightarrow> same p q"
  by (auto simp: sendTransitionToFSM_def pbind_Val same_def split: send_choice.splits option.splits if_splits)

lemma take_same: "take_transition i p = Some (t, q) \<Longrightarrow> same p q"
  by (auto simp: take_transition_def same_def split: option.splits control.splits)

lemma send_opt_same: "pbind (disableFSM es i p) (sendTransitionToFSM ch j t) = Some (Val q) \<Longrightarrow> same p q"
  by (auto simp: pbind_Val dest!: disable_same send_same intro: same_trans)

lemma down_same: "pbind (disableFSM es i p) (\<lambda>p. Some (Val (enableFSM j c p))) = Some (Val q) \<Longrightarrow> same p q"
  by (auto simp: pbind_Val same_def dest!: disable_same)

lemmas op_same = disable_same send_same send_opt_same down_same

lemma handle_same: "handleStateTransition h i t p = Some (Val q) \<Longrightarrow> same p q"
proof (induction h arbitrary: i t p q)
  case (CollisionOther es s h)
  have "same p q" if "take_transition (other i) p = Some (u, p')"
    "pbind (if tr_to u = establishedState then disableFSM es i p' else sendTransitionToFSM s i t p')
       (handleStateTransition h (other i) u) = Some (Val q)" for u p'
    using that CollisionOther.IH
    by (auto simp: pbind_Val split: if_splits dest!: disable_same send_same take_same intro: same_trans)
  with CollisionOther.prems show ?case
    by (subst (asm) handleStateTransition.simps)
       (auto split: if_splits fsmState.splits option.splits prod.splits dest: op_same)
qed (subst (asm) handleStateTransition.simps,
     auto split: if_splits fsmState.splits option.splits list.splits event.splits dest: op_same)+

section \<open>Progress\<close>

lemma run_managed_eq:
  "list_all (\<lambda>e. \<not> exchange e) es \<Longrightarrow> run_events (managed_step c) f es = run_events (fsm_step c) f es"
proof (induction es arbitrary: f)
  case (Cons e es)
  then have "managed_step c f e = fsm_step c f e" by (intro managed_eq) auto
  with Cons show ?case by (simp split: option.split go.split)
qed simp

lemma stop_exists:
  assumes "fsm_inv c f" "good_peer c"
  obtains k f' where "fsm_stop c (replicate k (EvClose r)) f = Some (Val f')" "f_ctl f \<noteq> Done \<longrightarrow> 0 < k"
proof -
  from close_run [OF assms, of r] obtain k f' where
    k: "run_events (managed_step c) f (replicate k (EvClose r)) = Some (Val f')" "f_ctl f' = Done" by blast
  have x: "list_all (\<lambda>e. \<not> exchange e) (replicate k (EvClose r))" by (simp add: list_all_iff)
  from k x have "fsm_stop c (replicate k (EvClose r)) f = Some (Val f')"
    by (simp add: fsm_stop_def run_managed_eq)
  moreover have "f_ctl f \<noteq> Done \<longrightarrow> 0 < k" using k by (cases k) auto
  ultimately show thesis by (rule that)
qed

lemma good_closes: "good_events (replicate k (EvClose r))"
  by (simp add: list_all_iff)

lemma disable_exists:
  assumes "inv0 W p"
  obtains k q where "disableFSM (replicate k (EvClose r)) i p = Some (Val q)" "fsms p i \<noteq> None \<longrightarrow> 0 < k"
proof (cases "fsms p i")
  case None
  then show thesis by (intro that [of 0 p]) (simp_all add: disableFSM_def)
next
  case (Some f)
  with inv0_fsm [OF assms Some] assms have f: "fsm_inv (ctx p) f" "good_peer (ctx p)" "f_ctl f \<noteq> Done"
    by (auto simp: slot_def inv0_def)
  from f(1,2) obtain k f' where "fsm_stop (ctx p) (replicate k (EvClose r)) f = Some (Val f')"
    "f_ctl f \<noteq> Done \<longrightarrow> 0 < k" by (rule stop_exists)
  with Some f(3) show thesis by (intro that) (simp_all add: disableFSM_def)
qed

text \<open>
  The two answers to a transition. The machine is let on: it has received the answer and is in the
  state it asked for, which the manager has noted. Or it is stopped: it has ended with everything
  it held released, and is recorded among the machines that have ended.
\<close>

definition let_on :: "side \<Rightarrow> stateTransition \<Rightarrow> peer \<Rightarrow> bool" where
  "let_on i t q \<longleftrightarrow>
     fsmStates q i = tr_to t \<and>
     (\<exists>f. fsms q i = Some f \<and> ctl_state (f_ctl f) = tr_to t \<and> \<not> awaits (f_ctl f))"

definition ended_now :: "side \<Rightarrow> peer \<Rightarrow> peer \<Rightarrow> bool" where
  "ended_now i p q \<longleftrightarrow>
     (\<exists>f. ended q = ended p @ [(i, f)] \<and> f_ctl f = Done \<and> released f \<and> sess (f_trace f) = Some False)"

text \<open>
  When a machine is let on: always into Established; never down if it has an inbound connection;
  into OpenConfirm unless the other machine is there, with the exception of a dialled connection
  when our identifier is the greater one, or is beyond it; and into every other state.
\<close>

definition admits :: "side \<Rightarrow> stateTransition \<Rightarrow> fsm \<Rightarrow> peer \<Rightarrow> bool" where
  "admits i t f p \<longleftrightarrow>
     tr_to t = establishedState \<or>
     \<not> (i = In \<and> tr_to t < tr_from t) \<and>
     (tr_to t = openConfirmState \<longrightarrow>
        fsmStates p (other i) < openConfirmState \<or>
        fsmStates p (other i) = openConfirmState \<and> i = Out \<and> dominant (ctx p) (remoteID f))"

lemma send_exists:
  assumes "inv0 W p" "fsms p i = Some f" "f_ctl f = Awaiting t"
  shows "\<exists>q. sendTransitionToFSM (SendTo r) i t p = Some (Val q) \<and> let_on i t q"
  using reply_slot [OF inv0_fsm [OF assms(1,2)] assms(3), of r False] assms(2)
  by (auto simp: sendTransitionToFSM_def let_on_def slot_def)

lemma disable_send_exists:
  assumes inv: "inv0 {i} p" and f: "fsms p i = Some f" "f_ctl f = Awaiting t"
  obtains k q where "pbind (disableFSM (replicate k (EvClose r)) (other i) p) (sendTransitionToFSM (SendTo r) i t) =
    Some (Val q)" "let_on i t q" "fsms p (other i) \<noteq> None \<longrightarrow> 0 < k"
proof -
  obtain k q where k: "disableFSM (replicate k (EvClose r)) (other i) p = Some (Val q)"
    "fsms p (other i) \<noteq> None \<longrightarrow> 0 < k" by (rule disable_exists [OF inv])
  have "inv0 {i} q" "fsms q i = Some f"
    using disableFSM_psat [OF inv good_closes, of "other i" k r] k(1) f(1) by (simp_all add: frame_def)
  from send_exists [OF this f(2), of r] obtain u where
    "sendTransitionToFSM (SendTo r) i t q = Some (Val u)" "let_on i t u" by blast
  with k show thesis by (intro that [of k u]) simp_all
qed

lemma disable_ended:
  assumes "inv0 W p" "good_events es" "fsms p i \<noteq> None" "disableFSM es i p = Some (Val q)"
  shows "fsms q i = None \<and> ended_now i p q"
proof -
  have q: "fsms q i = None" "inv0 (W - {i}) q" using disableFSM_psat [OF assms(1,2), of i] assms(4) by simp_all
  from assms(3,4) obtain f where f: "ended q = ended p @ [(i, f)]"
    by (auto simp: disableFSM_def pbind_Val)
  with inv0_rest [OF q(2)] have "f_ctl f = Done" "fsm_inv (ctx q) f" by (auto simp: finished_def)
  with q(1) f show ?thesis by (auto simp: ended_now_def fsm_inv_def)
qed

text \<open>The transitions for which the manager stops the other machine.\<close>

definition prevails :: "side \<Rightarrow> stateTransition \<Rightarrow> fsm \<Rightarrow> peer \<Rightarrow> bool" where
  "prevails i t f p \<longleftrightarrow>
     tr_to t = establishedState \<or>
     tr_to t = openConfirmState \<and> fsmStates p (other i) = openConfirmState \<and> i = Out \<and> dominant (ctx p) (remoteID f)"

lemma handle_prevails:
  assumes inv: "inv0 {i} p" and f: "fsms p i = Some f" "f_ctl f = Awaiting t" and t: "prevails i t f p"
  shows "\<exists>h q. good_choice h \<and> handleStateTransition h i t p = Some (Val q) \<and> admits i t f p \<and> let_on i t q"
proof -
  obtain r :: dialResult where True by simp
  obtain l u where l: "pbind (disableFSM (replicate l (EvClose r)) (other i) p) (sendTransitionToFSM (SendTo r) i t) =
    Some (Val u)" "let_on i t u" "fsms p (other i) \<noteq> None \<longrightarrow> 0 < l" by (rule disable_send_exists [OF inv f])
  have nn: "fsms p (other i) \<noteq> None" if "fsmStates p (other i) = openConfirmState"
    using that inv0_enabled [OF inv] by simp
  let ?kill = "CollisionKill (replicate l (EvClose r)) (SendTo r)"
  have "handleStateTransition ?kill i t p = Some (Val u)"
    using t f l nn by (subst handleStateTransition.simps) (auto simp: prevails_def gr0_conv_Suc)
  moreover have "good_choice ?kill" using good_closes by simp
  moreover have "admits i t f p" using t by (auto simp: admits_def prevails_def)
  ultimately show ?thesis using l(2) by (intro exI [of _ ?kill] exI [of _ u]) simp
qed

lemma handle_exists:
  assumes inv: "inv0 {i} p" and f: "fsms p i = Some f" "f_ctl f = Awaiting t"
  shows "\<exists>h q. good_choice h \<and> handleStateTransition h i t p = Some (Val q) \<and>
    (if admits i t f p then let_on i t q else ended_now i p q)"
proof (cases "prevails i t f p")
  case True
  from handle_prevails [OF assms True] show ?thesis by force
next
  case False
  obtain r :: dialResult where True by simp
  obtain k q where k: "disableFSM (replicate k (EvClose r)) i p = Some (Val q)" by (rule disable_exists [OF inv])
  have q: "ended_now i p q" using disable_ended [OF inv good_closes _ k] f(1) by simp
  obtain v where v: "sendTransitionToFSM (SendTo r) i t p = Some (Val v)" "let_on i t v"
    using send_exists [OF inv f, of r] by blast
  let ?self = "Plain (replicate k (EvClose r)) (SendTo r)"
  note step = handleStateTransition.simps [of ?self i t p]
  have g: "good_choice ?self" using good_closes by simp
  consider (down) "i = In" "tr_to t < tr_from t"
    | (collision) "\<not> (i = In \<and> tr_to t < tr_from t)" "tr_to t = openConfirmState"
      "fsmStates p (other i) \<in> {establishedState, openConfirmState}"
    | (on) "\<not> (i = In \<and> tr_to t < tr_from t)"
      "tr_to t = openConfirmState \<longrightarrow> fsmStates p (other i) \<notin> {establishedState, openConfirmState}" by blast
  then show ?thesis
  proof cases
    case down
    then have "handleStateTransition ?self i t p = Some (Val (enableFSM Out None q))" "\<not> admits i t f p"
      unfolding step using False k by (simp_all add: admits_def prevails_def)
    with g q show ?thesis
      by (intro exI [of _ ?self] exI [of _ "enableFSM Out None q"]) (simp add: ended_now_def enableFSM_def)
  next
    case collision
    then have "handleStateTransition ?self i t p = Some (Val q)" "\<not> admits i t f p"
      using False k f by (auto simp: step admits_def prevails_def)
    with g q show ?thesis by (intro exI [of _ ?self] exI [of _ q]) simp
  next
    case on
    then have "handleStateTransition ?self i t p = Some (Val v)" "admits i t f p"
      using False v by (auto simp: step admits_def prevails_def split: fsmState.split)
    with g v show ?thesis by (intro exI [of _ ?self] exI [of _ v]) simp
  qed
qed

section \<open>Collisions\<close>

text \<open>The outcome when the side we dial may prevail, and when the new connection is dropped.\<close>

definition resolved :: "peer \<Rightarrow> bool" where
  "resolved q \<longleftrightarrow>
     fsms q In = None \<and> fsmStates q Out = openConfirmState \<or>
     fsms q Out = None \<and> fsmStates q In = establishedState"

lemma kill_resolved:
  assumes inv: "inv0 {Out} p" and f: "fsms p Out = Some f" "f_ctl f = Awaiting t" "tr_to t = openConfirmState"
    and c: "\<not> closing p" and es: "good_events es"
  shows "psat resolved (pbind (disableFSM es In p) (sendTransitionToFSM s Out t))"
proof (rule psat_bind [OF disableFSM_psat [OF inv es]])
  fix q assume q: "inv0 ({Out} - {In}) q \<and> fsms q In = None \<and> fsmStates q In = disabledState \<and> frame In p q"
  then have "inv0 {Out} q" "fsms q Out = Some f" "\<not> closing q" using f(1) c by (simp_all add: frame_def)
  note send = sendTransition_psat [OF this(1,2) f(2), of s]
  show "psat resolved (sendTransitionToFSM s Out t q)"
    by (rule psat_mono [OF send]) (use q \<open>\<not> closing q\<close> f(3) in \<open>auto simp: resolved_def frame_def\<close>)
qed

lemma other_established_resolved:
  assumes inv: "inv0 {Out, In} p" and g: "fsms p In = Some g" "f_ctl g = Awaiting u" "tr_to u = establishedState"
    and c: "\<not> closing p" and es: "good_events es" "good_choice h"
  shows "psat resolved (pbind (disableFSM es Out p) (handleStateTransition h In u))"
proof (rule psat_bind [OF disableFSM_psat [OF inv es(1)]])
  fix q assume q: "inv0 ({Out, In} - {Out}) q \<and> fsms q Out = None \<and> fsmStates q Out = disabledState \<and> frame Out p q"
  then have q': "inv0 {In} q" "fsms q In = Some g" "\<not> closing q" using g(1) c by (simp_all add: frame_def)
  have "disableFSM (h_stop h) Out q = Some (Val q)" using q by (simp add: disableFSM_def)
  then have h: "handleStateTransition h In u q = sendTransitionToFSM (h_send h) In u q"
    using g(3) by (simp add: handleStateTransition.simps)
  show "psat resolved (handleStateTransition h In u q)"
    unfolding h
    by (rule psat_mono [OF sendTransition_psat [OF q'(1,2) g(2)]])
       (use q q'(3) g(3) in \<open>auto simp: resolved_def frame_def\<close>)
qed

lemma other_down_resolved:
  assumes inv: "inv0 {Out, In} p" and f: "fsms p Out = Some f" "f_ctl f = Awaiting t" "tr_to t = openConfirmState"
    and g: "fsms p In = Some g" "f_ctl g = Awaiting u" "tr_to u = idleState" "tr_from u = openConfirmState"
    and c: "\<not> closing p" and es: "good_choice h"
  shows "psat resolved (pbind (sendTransitionToFSM s Out t p) (handleStateTransition h In u))"
proof (rule psat_bind [OF sendTransition_psat [OF inv f(1,2)]])
  fix q assume q: "inv0 ({Out, In} - {Out}) q \<and> (closing p \<and> q = p \<or> fsmStates q Out = tr_to t \<and> fsms q Out \<noteq> None) \<and>
    frame Out p q"
  then have q': "inv0 {In} q" "fsms q Out \<noteq> None" "fsmStates q Out = openConfirmState"
    using f(3) c by (auto simp: insert_Diff_if)
  have h: "handleStateTransition h In u q = pbind (disableFSM (h_stop h) In q) (\<lambda>p. Some (Val (enableFSM Out None p)))"
    using g(3,4) by (simp add: handleStateTransition.simps less_fsmState_def less_eq_fsmState_def)
  show "psat resolved (handleStateTransition h In u q)"
    unfolding h
    by (rule psat_bind [OF disableFSM_psat [OF q'(1) good_h_stop [OF es]]])
       (use q' in \<open>auto simp: resolved_def frame_def enableFSM_def\<close>)
qed auto

lemma collision_resolved:
  assumes inv: "inv0 {Out} p" and f: "fsms p Out = Some f" "f_ctl f = Awaiting t" "tr_to t = openConfirmState"
    and st: "fsmStates p In = openConfirmState" "dominant (ctx p) (remoteID f)"
    and c: "\<not> closing p" and h: "good_choice h"
  shows "psat resolved (handleStateTransition h Out t p)"
proof -
  have nn: "fsms p In \<noteq> None" using inv0_enabled [OF inv] st(1) by simp
  show ?thesis
  proof (cases h)
    case (CollisionKill es s)
    with kill_resolved [OF inv f c, of es s] h f st nn show ?thesis
      by (subst handleStateTransition.simps) (auto split: list.split event.split)
  next
    case (CollisionOther es s h')
    show ?thesis
    proof (cases "take_transition In p")
      case (Some x)
      obtain u q where x: "x = (u, q)" by (cases x)
      obtain g where g: "inv0 (insert In {Out}) q" "fsms q In = Some g" "f_ctl g = Awaiting u" "frame In p q"
        "fsmStates q In = fsmStates p In" by (rule take_transition_inv [OF inv Some [unfolded x]])
      then have q: "inv0 {Out, In} q" "fsms q Out = Some f" "\<not> closing q"
        using f(1) c by (simp_all add: frame_def insert_commute)
      have "psat resolved (pbind (if tr_to u = establishedState then disableFSM es Out q
          else sendTransitionToFSM s Out t q) (handleStateTransition h' In u))"
      proof (cases "tr_to u = establishedState")
        case True
        with other_established_resolved [OF q(1) g(2,3) True q(3)] h CollisionOther show ?thesis by simp
      next
        case False
        have "slot (ctx q) (closing q \<or> In \<in> {Out, In}) In (Some g) openConfirmState"
          using inv0_fsm [OF q(1) g(2)] g(5) st(1) by simp
        note d = openConfirm_down [OF this g(3) False]
        from other_down_resolved [OF q(1,2) f(2,3) g(2,3) d q(3)] h CollisionOther False show ?thesis by simp
      qed
      with CollisionOther Some x f st nn show ?thesis
        by (subst handleStateTransition.simps) (auto split: if_splits)
    qed (use CollisionOther f st nn in \<open>subst handleStateTransition.simps, auto\<close>)
  qed (use f st c nn in \<open>subst handleStateTransition.simps, auto\<close>)+
qed

section \<open>Answers\<close>

lemma send_state: "sendTransitionToFSM ch i t p = Some (Val q) \<Longrightarrow> \<not> closing p \<Longrightarrow> fsmStates q i = tr_to t"
  by (auto simp: sendTransitionToFSM_def pbind_Val split: send_choice.splits option.splits)

lemma disable_gone: "inv0 W p \<Longrightarrow> good_choice h \<Longrightarrow> disableFSM (h_stop h) i p = Some (Val q) \<Longrightarrow> fsms q i = None"
  using disableFSM_psat [of W p "h_stop h" i] by (simp add: good_h_stop)

lemma handle_answers:
  assumes inv: "inv0 {i} p" and f: "fsms p i = Some f" "f_ctl f = Awaiting t" and c: "\<not> closing p" and h: "good_choice h"
    and q: "handleStateTransition h i t p = Some (Val q)"
  shows "fsmStates q i = tr_to t \<or> fsms q i = None \<and> (admits i t f p \<longrightarrow> fsmStates q (other i) = establishedState)"
proof (cases "tr_to t \<noteq> establishedState \<and> tr_to t = openConfirmState \<and> i = Out \<and>
    fsmStates p In = openConfirmState \<and> dominant (ctx p) (remoteID f)")
  case True
  then have "psat resolved (handleStateTransition h Out t p)" using collision_resolved [of p f t h] assms by simp
  with True q show ?thesis by (auto simp: resolved_def)
next
  case False
  have est: "fsmStates q i = tr_to t"
    if "pbind (disableFSM (h_stop h) (other i) p) (sendTransitionToFSM (h_send h) i t) = Some (Val q)"
  proof -
    from that obtain u where u: "disableFSM (h_stop h) (other i) p = Some (Val u)"
      "sendTransitionToFSM (h_send h) i t u = Some (Val q)" by (auto simp: pbind_Val)
    from send_state [OF u(2)] disable_same [OF u(1)] c show ?thesis by (simp add: same_def)
  qed
  have down: "fsms q i = None"
    if "pbind (disableFSM (h_stop h) i p) (\<lambda>p. Some (Val (enableFSM Out None p))) = Some (Val q)" "i = In"
    using that disable_gone [OF inv h, of i] by (auto simp: pbind_Val enableFSM_def)
  have self: "fsms q i = None" if "disableFSM (h_stop h) i p = Some (Val q)"
    using that by (rule disable_gone [OF inv h])
  note q' = q [unfolded handleStateTransition.simps [of h i t p]]
  consider "tr_to t = establishedState"
    | "tr_to t \<noteq> establishedState" "i = In" "tr_to t < tr_from t"
    | "\<not> (i = In \<and> tr_to t < tr_from t)" "tr_to t = openConfirmState" "fsmStates p (other i) \<in> {establishedState, openConfirmState}"
    | "tr_to t \<noteq> establishedState" "\<not> (i = In \<and> tr_to t < tr_from t)"
      "tr_to t = openConfirmState \<longrightarrow> fsmStates p (other i) \<notin> {establishedState, openConfirmState}" by blast
  then show ?thesis
  proof cases
    case 1
    with q' est show ?thesis by simp
  next
    case 2
    with q' down show ?thesis by (simp add: admits_def)
  next
    case 3
    with q' f False have "disableFSM (h_stop h) i p = Some (Val q)" by (auto split: if_splits)
    with self 3 False show ?thesis by (auto simp: admits_def)
  next
    case 4
    with q' have "sendTransitionToFSM (h_send h) i t p = Some (Val q)" by (auto split: if_splits fsmState.splits)
    with send_state [OF this c] show ?thesis by simp
  qed
qed

lemma let_on_state:
  assumes "inv0 {} q" "\<not> closing q" "fsmStates q i = tr_to t" "tr_to t \<noteq> disabledState"
  shows "let_on i t q"
  using inv0_slot [OF assms(1), of i] assms by (auto simp: let_on_def slot_def split: option.splits)

section \<open>A peer to run\<close>

definition canceled :: dialResult where
  "canceled = DialErr (PlainErr ''operation was canceled'')"

definition answer :: "side \<Rightarrow> pevent" where
  "answer i = PTransition i (Plain [EvClose canceled] (SendTo canceled))"

definition example_manager :: peer where
  "example_manager = peer_start (newPeer example_peer)"

definition example_run :: "pevent list \<Rightarrow> peer go option" where
  "example_run es = run_events peer_step example_manager es"

text \<open>The dialled connection gets to OpenSent, and on to Established.\<close>

definition dial_to_openSent :: "pevent list" where
  "dial_to_openSent =
     [answer Out, PFsm Out (EvExpire IdleHoldT), PFsm Out (EvTimer IdleHoldT), answer Out,
      PFsm Out (EvDialResult (DialConn example_conn)), answer Out]"

definition receive_open :: "side \<Rightarrow> pevent" where
  "receive_open i = PFsm i (EvMsg (OpenMsg (example_open (90 * Second))))"

definition dial_to_established :: "pevent list" where
  "dial_to_established =
     dial_to_openSent @ [receive_open Out, answer Out, PFsm Out (EvMsg KeepAliveMsg), answer Out]"

text \<open>
  Both connections are in OpenSent when both OPEN messages arrive; the dialled one is let into
  OpenConfirm first.
\<close>

definition collide :: "pevent list" where
  "collide =
     dial_to_openSent @ [PConn example_conn, answer In, answer In, receive_open Out, receive_open In, answer Out]"

text \<open>The hold timer of the dialled connection expires, which damps the peer.\<close>

definition damp :: "pevent list" where
  "damp = dial_to_openSent @ [PFsm Out (EvExpire HoldT), PFsm Out (EvTimer HoldT), PError Out 0 [] [EvClose canceled]]"

lemma example_runs:
  "case example_run dial_to_established of
     Some (Val p) \<Rightarrow> running p \<and> (case fsms p Out of Some f \<Rightarrow> f_ctl f = Running establishedState | None \<Rightarrow> False)
   | _ \<Rightarrow> False"
  "case example_run collide of
     Some (Val p) \<Rightarrow> \<not> closing p \<and> running p \<and> fsmStates p Out = openConfirmState \<and>
       (case fsms p In of
          Some f \<Rightarrow> f_ctl f = Sending (newStateTransition openSentState openConfirmState) \<and> \<not> dominant (ctx p) (remoteID f)
        | None \<Rightarrow> False) \<and>
       (case peer_step p (answer In) of Some (Val q) \<Rightarrow> True | _ \<Rightarrow> False)
   | _ \<Rightarrow> False"
  "case example_run damp of Some (Val p) \<Rightarrow> running p \<and> inHoldDown p | _ \<Rightarrow> False"
  by code_simp+

lemma example_good_runs:
  "list_all good_pevent dial_to_established" "list_all good_pevent collide" "list_all good_pevent damp"
  by code_simp+

lemma example_manager_reach: "peer_reach example_manager"
  using example_good by (auto intro!: reach_init simp: peer_init_def example_manager_def)

lemma example_run_reach:
  "list_all good_pevent es \<Longrightarrow> example_run es = Some (Val p) \<Longrightarrow> peer_reach p"
  using run_events_reach [OF example_manager_reach] by (simp add: example_run_def)

lemma reach_inv0: "peer_reach p \<Longrightarrow> inv0 {} p" "peer_reach p \<Longrightarrow> sole p"
  using manager.reach_inv [of p] by (simp_all add: peer_inv_def)

section \<open>Properties\<close>

text \<open>
  Neither the manager nor one of its two state machines faults, in any interleaving of their steps
  and of inbound connections, stop requests and the damping timer.
\<close>

lemma peer_never_faults:
  assumes "peer_reach p" "good_pevent ev"
  shows "peer_step p ev \<noteq> Some (Fault e)"
  using assms by (rule manager.reach_safe)

text \<open>
  C1. A peer has at most one session: not more than one connection is let past OpenSent, and
  while a machine is in the Established state the other one does not exist.
\<close>

theorem one_session:
  assumes "peer_reach p"
  shows "(\<forall>i. openConfirmState \<le> fsmStates p i \<longrightarrow> fsmStates p (other i) < openConfirmState) \<and>
    (\<forall>i f. fsms p i = Some f \<and> f_ctl f = Running establishedState \<longrightarrow> fsms p (other i) = None)"
proof -
  have "fsmStates p i = establishedState" if "fsms p i = Some f" "f_ctl f = Running establishedState" for i f
    using inv0_fsm [OF reach_inv0(1) [OF assms] that(1)] that(2) by (simp add: slot_def)
  with reach_inv0(2) [OF assms] show ?thesis by (simp add: sole_def del: less_fsmState_simps)
qed

theorem one_session_witness:
  "\<exists>p f. peer_reach p \<and> fsms p Out = Some f \<and> f_ctl f = Running establishedState \<and> fsms p In = None"
proof -
  from example_runs(1) obtain p f where p: "example_run dial_to_established = Some (Val p)"
    "fsms p Out = Some f" "f_ctl f = Running establishedState" by (auto split: option.splits go.splits)
  have "peer_reach p" by (rule example_run_reach [OF example_good_runs(1) p(1)])
  with one_session [of p] p show ?thesis by (metis other_simps(1))
qed

text \<open>
  C11. While a peer is damped after a protocol error it has no state machine, the delay is between
  60 and 300 seconds, inbound connections are closed at once, and as long as the manager runs
  the timer that ends the damping is armed or has fired.
\<close>

theorem hold_down:
  assumes "peer_reach p" "inHoldDown p"
  shows "fsms p Out = None \<and> fsms p In = None \<and> Second * 60 \<le> startupDelay p \<and> startupDelay p \<le> Second * 300 \<and>
    (running p \<longrightarrow> pending (startupDelayTimer p) \<and>
       (\<forall>c. peer_step p (PConn c) = Some (Val (p\<lparr>refused := refused p @ [conn_Close c]\<rparr>))))"
proof -
  have "damped p" using inv0_rest [OF reach_inv0(1) [OF assms(1)]] by simp
  with assms(2) show ?thesis
    by (auto simp: damped_def errorDelayMinTime_def errorDelayMaxTime_def Second_def peer_step_def inbound_def)
qed

theorem hold_down_witness:
  "\<exists>p. peer_reach p \<and> running p \<and> inHoldDown p \<and> Second * 60 \<le> startupDelay p \<and> pending (startupDelayTimer p)"
proof -
  from example_runs(3) obtain p where p: "example_run damp = Some (Val p)" "running p" "inHoldDown p"
    by (auto split: option.splits go.splits)
  have "peer_reach p" by (rule example_run_reach [OF example_good_runs(3) p(1)])
  with hold_down [of p] p show ?thesis by blast
qed

text \<open>
  C14. The manager answers: whatever transition a machine asks for, there is a schedule on which
  the handler returns. On it the machine has been let on, into the state it asked for, if its
  transition is one the manager admits, and otherwise it has been stopped and has released what
  it held. As long as the manager is not told to stop, every schedule on which the handler
  returns either lets the machine on or removes it, so that no machine is left waiting, and it
  removes a machine whose transition it admits only if the other one has been established.
\<close>

theorem transitions_answered:
  assumes "peer_reach p" "running p" "fsms p i = Some f" "f_ctl f = Sending t"
  shows "(\<exists>h q. good_pevent (PTransition i h) \<and> peer_step p (PTransition i h) = Some (Val q) \<and>
      (if admits i t f p then let_on i t q else ended_now i p q)) \<and>
    (\<forall>h q. good_pevent (PTransition i h) \<and> peer_step p (PTransition i h) = Some (Val q) \<and> \<not> closing p \<longrightarrow>
      let_on i t q \<or>
      fsms q i = None \<and> (admits i t f p \<longrightarrow> fsmStates q (other i) = establishedState))"
proof -
  let ?f = "f\<lparr>f_ctl := Awaiting t\<rparr>"
  let ?p = "p\<lparr>fsms := (fsms p)(i \<mapsto> ?f)\<rparr>"
  note inv = reach_inv0(1) [OF assms(1)]
  have t: "take_transition i p = Some (t, ?p)" using assms(3,4) by (simp add: take_transition_def)
  have p: "inv0 {i} ?p" "fsms ?p i = Some ?f" "f_ctl ?f = Awaiting t" using take_transition_inv [OF inv t] by auto
  have a: "admits i t ?f ?p = admits i t f p" "ended_now i ?p = ended_now i p"
    by (simp_all add: admits_def ended_now_def fun_eq_iff)
  have handled: "peer_step p (PTransition i h) = handleStateTransition h i t ?p" for h
    using t assms(2) by (simp add: peer_step_def)
  have "\<exists>h q. good_pevent (PTransition i h) \<and> peer_step p (PTransition i h) = Some (Val q) \<and>
      (if admits i t f p then let_on i t q else ended_now i p q)"
    using handle_exists [OF p] by (simp only: handled a good_pevent.simps)
  moreover have "let_on i t q \<or> fsms q i = None \<and> (admits i t f p \<longrightarrow> fsmStates q (other i) = establishedState)"
    if q: "good_pevent (PTransition i h)" "peer_step p (PTransition i h) = Some (Val q)" "\<not> closing p" for h q
  proof -
    from q have h: "good_choice h" "handleStateTransition h i t ?p = Some (Val q)" by (simp_all only: handled good_pevent.simps)
    have r: "inv0 {} q" by (rule reach_inv0(1) [OF reach_step [OF assms(1) q(1,2)]])
    have c: "\<not> closing q" "\<not> closing ?p" using handle_same [OF h(2)] q(3) by (simp_all add: same_def)
    have "tr_to t \<noteq> disabledState" using inv0_fsm [OF inv assms(3)] assms(4) by (simp add: slot_def asks_def)
    from let_on_state [OF r c(1) _ this] handle_answers [OF p c(2) h] show ?thesis by (simp only: a) blast
  qed
  ultimately show ?thesis by blast
qed

theorem transitions_answered_witness:
  "\<exists>h q. good_pevent (PTransition Out h) \<and> peer_step example_manager (PTransition Out h) = Some (Val q) \<and>
     fsmStates q Out = idleState"
proof -
  let ?t = "newStateTransition disabledState idleState"
  have m: "running example_manager" "fsms example_manager Out = Some (newFSM None)" "f_ctl (newFSM None) = Sending ?t"
    by (simp_all add: example_manager_def peer_start_def enableFSM_def newPeer_def newFSM_def example_peer_def
        defaultPeerOptions_def newStateTransition_def)
  have "admits Out ?t (newFSM None) example_manager" by (simp add: admits_def newStateTransition_def)
  with transitions_answered [OF example_manager_reach m]
  have "\<exists>h q. good_pevent (PTransition Out h) \<and> peer_step example_manager (PTransition Out h) = Some (Val q) \<and>
     let_on Out ?t q" by simp
  then show ?thesis by (auto simp: let_on_def newStateTransition_def)
qed

text \<open>
  C13. A collision, that is a machine asking for OpenConfirm while the other one is in it, is
  resolved: if we are dominant and the new arrival is the dialled connection, either the inbound
  one is dropped or it has meanwhile been established and the dialled one is dropped; in every
  other case the new arrival is dropped and the other machine is left alone. In particular an
  inbound connection that arrives second is dropped even when the remote router is dominant.
\<close>

theorem collision_outcome:
  assumes "peer_reach p" "\<not> closing p" "fsms p i = Some f" "f_ctl f = Sending t" "tr_to t = openConfirmState"
    and "fsmStates p (other i) = openConfirmState"
    and "good_choice h" "peer_step p (PTransition i h) = Some (Val q)"
  shows "if i = Out \<and> dominant (ctx p) (remoteID f)
    then fsms q In = None \<and> fsmStates q Out = openConfirmState \<or> fsms q Out = None \<and> fsmStates q In = establishedState
    else fsms q i = None \<and> fsms q (other i) = fsms p (other i)"
proof -
  let ?f = "f\<lparr>f_ctl := Awaiting t\<rparr>"
  let ?p = "p\<lparr>fsms := (fsms p)(i \<mapsto> ?f)\<rparr>"
  note inv = reach_inv0(1) [OF assms(1)]
  have t: "take_transition i p = Some (t, ?p)" using assms(3,4) by (simp add: take_transition_def)
  have r: "running p" using assms(8) by (auto simp: peer_step_def split: if_splits)
  have q: "handleStateTransition h i t ?p = Some (Val q)" using assms(8) t r by (simp add: peer_step_def)
  have inv': "inv0 {i} ?p" by (rule take_transition_inv [OF inv t]) simp
  have "legal (tr_from t) (tr_to t)" using inv0_fsm [OF inv assms(3)] assms(4) by (auto simp: slot_def fsm_inv_def)
  then have "tr_from t = openSentState" using assms(5) by (cases "tr_from t") (simp_all add: legal_def)
  then have up: "\<not> tr_to t < tr_from t" using assms(5) by (simp add: less_fsmState_def less_eq_fsmState_def)
  show ?thesis
  proof (cases "i = Out \<and> dominant (ctx p) (remoteID f)")
    case True
    then have "psat resolved (handleStateTransition h Out t ?p)"
      using collision_resolved [of ?p ?f t h] inv' assms by simp
    with q True show ?thesis by (simp add: resolved_def)
  next
    case False
    have "handleStateTransition h i t ?p = disableFSM (h_stop h) i ?p"
      by (subst handleStateTransition.simps) (use assms(5,6) up False in auto)
    with disableFSM_psat [OF inv' good_h_stop [OF assms(7)], of i] q have "fsms q i = None" "frame i ?p q" by simp_all
    with False show ?thesis by (auto simp: frame_def)
  qed
qed

theorem collision_outcome_witness:
  "\<exists>p f q. peer_reach p \<and> fsms p In = Some f \<and> \<not> dominant (ctx p) (remoteID f) \<and>
     peer_step p (answer In) = Some (Val q) \<and> fsms q In = None \<and> fsms q Out = fsms p Out"
proof -
  from example_runs(2) obtain p where p1: "example_run collide = Some (Val p)"
    by (cases "example_run collide" rule: outcome_cases) simp_all
  from example_runs(2) p1 obtain f where p2: "fsms p In = Some f" by (cases "fsms p In") simp_all
  from example_runs(2) p1 obtain q where p3: "peer_step p (answer In) = Some (Val q)"
    by (cases "peer_step p (answer In)" rule: outcome_cases) simp_all
  from example_runs(2) p1 p2 p3 have p: "example_run collide = Some (Val p)" "\<not> closing p"
    "fsmStates p Out = openConfirmState" "fsms p In = Some f"
    "f_ctl f = Sending (newStateTransition openSentState openConfirmState)" "\<not> dominant (ctx p) (remoteID f)"
    "peer_step p (answer In) = Some (Val q)" by simp_all
  have r: "peer_reach p" by (rule example_run_reach [OF example_good_runs(2) p(1)])
  from collision_outcome [OF r p(2,4,5), of "Plain [EvClose canceled] (SendTo canceled)" q] p(3,7)
  have "fsms q In = None \<and> fsms q Out = fsms p Out" by (simp add: newStateTransition_def answer_def)
  with r p show ?thesis by blast
qed

text \<open>
  C15. A peer that has been told to stop can stop, from any state: there is a schedule on which the
  manager returns with both machines ended, and every machine that was ever ended has released
  its connection, reader and timers and called OnClose for every OnEstablished.
\<close>

theorem peer_stops:
  assumes "peer_reach p" "running p" "closing p"
  shows "\<exists>es es' q. good_pevent (PReturn es es') \<and> peer_step p (PReturn es es') = Some (Val q) \<and> stopped q \<and>
    fsms q Out = None \<and> fsms q In = None \<and> tm_armed (startupDelayTimer q) = None \<and>
    (\<forall>(i, f) \<in> set (ended q). f_ctl f = Done \<and> released f \<and> sess (f_trace f) = Some False)"
proof -
  note inv = reach_inv0(1) [OF assms(1)]
  obtain k u where k: "disableFSM (replicate k (EvClose canceled)) Out p = Some (Val u)" by (rule disable_exists [OF inv])
  then have u: "inv0 {} u" using disableFSM_psat [OF inv good_closes, of Out k canceled] by simp
  obtain l v where l: "disableFSM (replicate l (EvClose canceled)) In u = Some (Val v)" by (rule disable_exists [OF u])
  let ?ev = "PReturn (replicate k (EvClose canceled)) (replicate l (EvClose canceled))"
  have ev: "good_pevent ?ev" using good_closes by simp
  obtain q where q: "peer_step p ?ev = Some (Val q)" "stopped q"
    using k l assms(2,3) by (simp add: peer_step_def peer_return_def)
  have "inv0 {} q" by (rule reach_inv0) (rule reach_step [OF assms(1) ev q(1)])
  from inv0_rest [OF this] q(2) have "finished q" "fsms q = (\<lambda>i. None)" by (simp_all add: finished_def)
  with q ev show ?thesis by (fastforce simp: finished_def fsm_inv_def)
qed

theorem peer_stops_witness:
  "\<exists>p es es' q. peer_reach p \<and> peer_step p (PReturn es es') = Some (Val q) \<and> stopped q"
proof -
  let ?p = "example_manager\<lparr>closing := True\<rparr>"
  have "peer_step example_manager PStop = Some (Val ?p)" by (simp add: peer_step_def)
  then have r: "peer_reach ?p" by (rule reach_step [OF example_manager_reach, rotated]) simp
  have "running ?p" by (simp add: example_manager_def peer_start_def)
  from peer_stops [OF r this] r show ?thesis by auto
qed

end
