(* ===== verification/NetText.thy ===== *)
theory NetText
  imports Netip
begin

text \<open>
  The texts of addresses: \<open>netip.Addr.String\<close>, \<open>netip.ParseAddr\<close>, \<open>net.JoinHostPort\<close> and
  \<open>net.SplitHostPort\<close>, which the server uses to find the peer of an inbound connection.
\<close>

section \<open>Printing\<close>

definition digit :: "nat \<Rightarrow> char" where
  "digit n = ''0123456789abcdef'' ! n"

text \<open>An octet in decimal and a 16-bit field in hexadecimal, without leading zeros.\<close>

definition dec8 :: "u8 \<Rightarrow> string" where
  "dec8 b =
     (let n = unat b in
      (if n \<ge> 100 then [digit (n div 100)] else []) @
      (if n \<ge> 10 then [digit (n div 10 mod 10)] else []) @ [digit (n mod 10)])"

definition hex16 :: "u16 \<Rightarrow> string" where
  "hex16 w =
     (let n = unat w in
      (if n \<ge> 4096 then [digit (n div 4096)] else []) @
      (if n \<ge> 256 then [digit (n div 256 mod 16)] else []) @
      (if n \<ge> 16 then [digit (n div 16 mod 16)] else []) @ [digit (n mod 16)])"

fun join :: "string \<Rightarrow> string list \<Rightarrow> string" where
  "join sep [] = []"
| "join sep [s] = s"
| "join sep (s # ss) = s @ sep @ join sep ss"

fun fields16 :: "bytes \<Rightarrow> u16 list" where
  "fields16 (a # b # bs) = u16_of a b # fields16 bs"
| "fields16 _ = []"

text \<open>The leftmost longest run of at least two zero fields: its start and length.\<close>

fun best_run :: "nat \<Rightarrow> u16 list \<Rightarrow> nat \<times> nat \<Rightarrow> nat \<times> nat" where
  "best_run i [] best = best"
| "best_run i (w # ws) best =
     (let l = length (takeWhile (\<lambda>w. w = 0) (w # ws)) in
      best_run (Suc i) ws (if 2 \<le> l \<and> snd best < l then (i, l) else best))"

definition string6 :: "bytes \<Rightarrow> string" where
  "string6 b =
     (let ws = fields16 b; (i, l) = best_run 0 ws (0, 0) in
      if l = 0 then join '':'' (map hex16 ws)
      else join '':'' (map hex16 (take i ws)) @ ''::'' @ join '':'' (map hex16 (drop (i + l) ws)))"

definition with_zone :: "string \<Rightarrow> string \<Rightarrow> string" where
  "with_zone s zone = (if zone = [] then s else s @ ''%'' @ zone)"

fun Addr_String :: "Addr \<Rightarrow> string" where
  "Addr_String NoAddr = ''invalid IP''"
| "Addr_String (V4 b) = join ''.'' (map dec8 b)"
| "Addr_String (V6 b zone) =
     (if take 12 b = replicate 10 0 @ [0xFF, 0xFF]
      then with_zone (''::ffff:'' @ join ''.'' (map dec8 (drop 12 b))) zone
      else with_zone (string6 b) zone)"

section \<open>Parsing\<close>

text \<open>\<open>parseIPv4Fields\<close>: the octets read, the value and the number of digits of the current one.\<close>

fun parse4 :: "string \<Rightarrow> bytes \<Rightarrow> nat \<Rightarrow> nat \<Rightarrow> bytes option" where
  "parse4 [] fs val digs = (if length fs < 3 \<or> digs = 0 then None else Some (fs @ [of_nat val]))"
| "parse4 (c # cs) fs val digs =
     (if c \<in> set ''0123456789''
      then
        if digs = 1 \<and> val = 0 then None
        else
          let v = val * 10 + (of_char c - 48) in
          if v > 255 then None else parse4 cs fs v (digs + 1)
      else if c = CHR ''.''
      then if digs = 0 \<or> cs = [] \<or> length fs = 3 then None else parse4 cs (fs @ [of_nat val]) 0 0
      else None)"

definition hex_digit :: "char \<Rightarrow> nat option" where
  "hex_digit c =
     (if c \<in> set ''0123456789'' then Some (of_char c - 48)
      else if c \<in> set ''abcdef'' then Some (of_char c - 87)
      else if c \<in> set ''ABCDEF'' then Some (of_char c - 55)
      else None)"

text \<open>The hexadecimal digits a text starts with: their value, their number and the rest.\<close>

fun scan_hex :: "string \<Rightarrow> nat \<Rightarrow> nat \<Rightarrow> nat \<times> nat \<times> string" where
  "scan_hex [] acc n = (acc, n, [])"
| "scan_hex (c # cs) acc n =
     (case hex_digit c of
        Some d \<Rightarrow> scan_hex cs (acc * 16 + d) (n + 1)
      | None \<Rightarrow> (acc, n, c # cs))"

lemma scan_hex_length: "scan_hex s acc n = (v, m, r) \<Longrightarrow> length r + m = length s + n"
  by (induction s acc n rule: scan_hex.induct) (auto split: option.splits)

text \<open>
  The loop of \<open>parseIPv6\<close>: the octets read and the position of the ellipsis; the result adds what
  is left of the text.
\<close>

function loop6 :: "string \<Rightarrow> bytes \<Rightarrow> nat option \<Rightarrow> (bytes \<times> nat option \<times> string) option" where
  "loop6 s ip ell =
     (if length ip \<ge> 16 then Some (ip, ell, s)
      else
        case scan_hex s 0 0 of (acc, off, r) \<Rightarrow>
        if off = 0 \<or> off > 4 then None
        else if r \<noteq> [] \<and> hd r = CHR ''.''
        then
          if (ell = None \<and> length ip \<noteq> 12) \<or> length ip + 4 > 16 then None
          else (case parse4 s [] 0 0 of None \<Rightarrow> None | Some q \<Rightarrow> Some (ip @ q, ell, []))
        else
          let ip = ip @ [of_nat (acc div 256), of_nat (acc mod 256)] in
          if r = [] then Some (ip, ell, [])
          else if hd r \<noteq> CHR '':'' \<or> length r = 1 then None
          else
            let s = tl r in
            if hd s = CHR '':''
            then
              if ell \<noteq> None then None
              else if tl s = [] then Some (ip, Some (length ip), [])
              else loop6 (tl s) ip (Some (length ip))
            else loop6 s ip ell)"
  by pat_completeness auto
termination
proof (relation "measure (\<lambda>(s, ip, ell). length s)")
qed (auto dest!: scan_hex_length [OF sym])

definition parse6 :: "string \<Rightarrow> Addr option" where
  "parse6 inp =
     (let s = takeWhile (\<lambda>c. c \<noteq> CHR ''%'') inp; z = dropWhile (\<lambda>c. c \<noteq> CHR ''%'') inp; zone = tl z in
      if z \<noteq> [] \<and> zone = [] then None
      else if s = ''::'' then Some (V6 (replicate 16 0) zone)
      else
        case (if take 2 s = ''::'' then loop6 (drop 2 s) [] (Some 0) else loop6 s [] None) of
          None \<Rightarrow> None
        | Some (ip, ell, rest) \<Rightarrow>
            if rest \<noteq> [] then None
            else if length ip < 16
            then
              (case ell of
                 None \<Rightarrow> None
               | Some e \<Rightarrow> Some (V6 (take e ip @ replicate (16 - length ip) 0 @ drop e ip) zone))
            else if ell \<noteq> None then None
            else Some (V6 ip zone))"

text \<open>\<open>ParseAddr\<close>, whose error the code drops: no address then.\<close>

definition ParseAddr :: "string \<Rightarrow> Addr" where
  "ParseAddr s =
     (case dropWhile (\<lambda>c. c \<notin> set ''.:%'') s of
        [] \<Rightarrow> NoAddr
      | c # _ \<Rightarrow>
          if c = CHR ''.'' then (case parse4 s [] 0 0 of None \<Rightarrow> NoAddr | Some b \<Rightarrow> V4 b)
          else if c = CHR '':'' then (case parse6 s of None \<Rightarrow> NoAddr | Some a \<Rightarrow> a)
          else NoAddr)"

section \<open>Host and port\<close>

definition JoinHostPort :: "string \<Rightarrow> string \<Rightarrow> string" where
  "JoinHostPort host port =
     (if CHR '':'' \<in> set host then ''['' @ host @ '']:'' @ port else host @ '':'' @ port)"

text \<open>The text before and after the last occurrence of a character.\<close>

definition cut_last :: "char \<Rightarrow> string \<Rightarrow> (string \<times> string) option" where
  "cut_last c s =
     (if c \<notin> set s then None
      else
        let r = rev s in
        Some (rev (tl (dropWhile (\<lambda>d. d \<noteq> c) r)), rev (takeWhile (\<lambda>d. d \<noteq> c) r)))"

definition SplitHostPort :: "string \<Rightarrow> (string \<times> string) option" where
  "SplitHostPort hostport =
     (case cut_last (CHR '':'') hostport of
        None \<Rightarrow> None
      | Some (before, port) \<Rightarrow>
          if hd hostport = CHR ''[''
          then
            let host = takeWhile (\<lambda>c. c \<noteq> CHR '']'') (tl before) in
            if CHR '']'' \<notin> set hostport \<or> ''['' @ host @ '']'' \<noteq> before then None
            else if CHR ''['' \<in> set (tl hostport) \<or> CHR '']'' \<in> set port then None
            else Some (host, port)
          else if CHR '':'' \<in> set before \<or> CHR ''['' \<in> set hostport \<or> CHR '']'' \<in> set hostport then None
          else Some (before, port))"

section \<open>Round trips\<close>

lemma below_10: "(n::nat) < 10 \<longleftrightarrow> n \<in> {0, 1, 2, 3, 4, 5, 6, 7, 8, 9}"
  by auto

lemma digit_dec:
  assumes "n < 10"
  shows "digit n \<in> set ''0123456789''" "(of_char (digit n) :: nat) = 48 + n"
  using assms unfolding below_10 by (auto simp: digit_def)

lemma parse4_digit:
  assumes "n < 10" "\<not> (digs = 1 \<and> val = 0)" "val * 10 + n \<le> 255"
  shows "parse4 (digit n # cs) fs val digs = parse4 cs fs (val * 10 + n) (digs + 1)"
proof -
  have "(digs = 1 \<and> val = 0) = False" using assms(2) by blast
  with assms(3) digit_dec [OF assms(1)] show ?thesis by (simp only: parse4.simps if_True if_False) simp
qed

lemma parse4_dec8: "\<exists>k>0. parse4 (dec8 b @ cs) fs 0 0 = parse4 cs fs (unat b) k"
proof -
  define n where "n = unat b"
  have n: "n < 256" using unsigned_less [of b] by (simp add: n_def)
  have d: "n div 10 div 10 = n div 100" by (simp add: div_mult2_eq)
  consider "n < 10" | "10 \<le> n" "n < 100" | "100 \<le> n" by linarith
  then have "\<exists>k>0. parse4 (dec8 b @ cs) fs 0 0 = parse4 cs fs n k"
  proof cases
    case 1
    then have "dec8 b = [digit n]" by (simp add: dec8_def n_def [symmetric] Let_def)
    then show ?thesis using 1 parse4_digit [of n 0 0 cs fs] by (intro exI [of _ 1]) simp
  next
    case 2
    then have "dec8 b = [digit (n div 10), digit (n mod 10)]" by (simp add: dec8_def n_def [symmetric] Let_def)
    then show ?thesis
      using 2 n parse4_digit [of "n div 10" 0 0 "digit (n mod 10) # cs" fs]
        parse4_digit [of "n mod 10" 1 "n div 10" cs fs] by (intro exI [of _ 2]) (simp add: numeral_2_eq_2)
  next
    case 3
    then have "dec8 b = [digit (n div 100), digit (n div 10 mod 10), digit (n mod 10)]"
      by (simp add: dec8_def n_def [symmetric] Let_def)
    moreover have "n div 100 * 10 + n div 10 mod 10 = n div 10" using d by (metis div_mult_mod_eq)
    ultimately show ?thesis
      using 3 n parse4_digit [of "n div 100" 0 0 "digit (n div 10 mod 10) # digit (n mod 10) # cs" fs]
        parse4_digit [of "n div 10 mod 10" 1 "n div 100" "digit (n mod 10) # cs" fs]
        parse4_digit [of "n mod 10" 2 "n div 10" cs fs]
      by (intro exI [of _ 3]) (simp add: numeral_2_eq_2 numeral_3_eq_3)
  qed
  then show ?thesis by (simp add: n_def)
qed

lemma parse4_field:
  assumes "cs \<noteq> []" "length fs < 3"
  shows "parse4 (dec8 b @ CHR ''.'' # cs) fs 0 0 = parse4 cs (fs @ [b]) 0 0"
proof -
  obtain k where "0 < k" "parse4 (dec8 b @ CHR ''.'' # cs) fs 0 0 = parse4 (CHR ''.'' # cs) fs (unat b) k"
    using parse4_dec8 [of b "CHR ''.'' # cs" fs] by blast
  with assms show ?thesis by simp
qed

lemma set_dec8: "set (dec8 b) \<subseteq> set ''0123456789''"
proof -
  have "unat b div 100 < 10" using unat_u8_less [of b] by simp
  then have "digit (unat b div 100) \<in> set ''0123456789''" "digit (unat b div 10 mod 10) \<in> set ''0123456789''"
    "digit (unat b mod 10) \<in> set ''0123456789''" by (simp_all only: digit_dec(1) mod_less_divisor zero_less_numeral)
  moreover define D where "D = set ''0123456789''"
  ultimately have "digit (unat b div 100) \<in> D" "digit (unat b div 10 mod 10) \<in> D" "digit (unat b mod 10) \<in> D"
    by (simp_all only:)
  then have "set (dec8 b) \<subseteq> D" unfolding dec8_def Let_def by (cases "100 \<le> unat b"; cases "10 \<le> unat b") simp_all
  then show ?thesis by (simp only: D_def)
qed

lemma dec8_nonempty [simp]: "dec8 b \<noteq> []"
  by (simp add: dec8_def Let_def)

lemma ParseAddr_String4:
  assumes "length b = 4"
  shows "ParseAddr (Addr_String (V4 b)) = V4 b"
proof -
  obtain w x y z where b: "b = [w, x, y, z]" 
    using assms by (auto simp: length_Suc_conv numeral_eq_Suc)
  obtain k where "0 < k" "parse4 (dec8 z @ []) [w, x, y] 0 0 = parse4 [] [w, x, y] (unat z) k"
    using parse4_dec8 [of z "[]" "[w, x, y]"] by blast
  then have z: "parse4 (dec8 z) [w, x, y] 0 0 = Some b" using b by simp
  have s: "Addr_String (V4 b) = dec8 w @ CHR ''.'' # dec8 x @ CHR ''.'' # dec8 y @ CHR ''.'' # dec8 z"
    using b by simp
  have p: "parse4 (Addr_String (V4 b)) [] 0 0 = Some b"
    unfolding s using z by (simp add: parse4_field)
  have "c \<in> set (dec8 v) \<Longrightarrow> c \<notin> set ''.:%''" for c v
    using set_dec8 [of v] by auto
  then have "dropWhile (\<lambda>c. c \<notin> set ''.:%'') (dec8 w @ CHR ''.'' # r) = CHR ''.'' # r" for r
    by (subst dropWhile_append2) auto
  then show ?thesis using p s by (simp add: ParseAddr_def)
qed

lemma set_join: "set (join sep ss) \<subseteq> set sep \<union> (\<Union>s\<in>set ss. set s)"
  by (induction sep ss rule: join.induct) auto

lemma String4_brackets: "set (Addr_String (V4 b)) \<inter> set ''[]'' = {}"
proof -
  have "set (Addr_String (V4 b)) \<subseteq> set ''.0123456789''"
    using set_join [of "''.''" "map dec8 b"] set_dec8 by fastforce
  then show ?thesis by auto
qed

lemma cut_last_append:
  assumes "c \<notin> set t"
  shows "cut_last c (s @ c # t) = Some (s, t)"
proof -
  have "dropWhile (\<lambda>d. d \<noteq> c) (rev t @ c # rev s) = c # rev s" using assms by (subst dropWhile_append2) auto
  moreover have "takeWhile (\<lambda>d. d \<noteq> c) (rev t @ c # rev s) = rev t" using assms by (subst takeWhile_append2) auto
  ultimately show ?thesis by (simp add: cut_last_def)
qed

lemma SplitHostPort_JoinHostPort:
  assumes "set host \<inter> set ''[]'' = {}" "set port \<inter> set '':[]'' = {}"
  shows "SplitHostPort (JoinHostPort host port) = Some (host, port)"
proof (cases "CHR '':'' \<in> set host")
  case True
  have "cut_last (CHR '':'') (''['' @ host @ '']:'' @ port) = Some (''['' @ host @ '']'', port)"
    using cut_last_append [of "CHR '':''" port "''['' @ host @ '']''"] assms(2) by auto
  moreover have "takeWhile (\<lambda>c. c \<noteq> CHR '']'') (host @ '']'') = host" using assms(1) by (subst takeWhile_append2) auto
  ultimately show ?thesis using True assms by (auto simp: JoinHostPort_def SplitHostPort_def Let_def)
next
  case False
  then have "cut_last (CHR '':'') (host @ CHR '':'' # port) = Some (host, port)"
    using assms(2) by (intro cut_last_append) auto
  moreover have "hd (host @ CHR '':'' # port) \<noteq> CHR ''[''" using assms(1) by (cases host) auto
  ultimately show ?thesis using False assms by (auto simp: JoinHostPort_def SplitHostPort_def)
qed

end
