(* ===== verification/Server.thy ===== *)
theory Server
  imports PeerProps NetText "HOL-Library.Mapping"
begin

text \<open>
  The server (\<open>server.go\<close>): a map from the text of an address to the peer with that address. Its
  methods hold the mutex, so each is one step; \<open>Serve\<close> is two, one up to the \<open>select\<close> it blocks in
  and one for the function it defers.
\<close>

section \<open>The record\<close>

text \<open>\<open>doneServing\<close> and \<open>srv_closed\<close> say whether \<open>doneServingCh\<close> and \<open>closeCh\<close> are closed.\<close>

record Server =
  srv_id :: u32
  peers :: "(string, peer) mapping"
  serving :: bool
  doneServing :: bool
  srv_closed :: bool

definition ErrServerClosed :: error where "ErrServerClosed = PlainErr ''server closed''"
definition ErrPeerNotExist :: error where "ErrPeerNotExist = PlainErr ''peer does not exist''"
definition ErrPeerAlreadyExists :: error where "ErrPeerAlreadyExists = PlainErr ''peer already exists''"

definition NewServer :: "Addr \<Rightarrow> Server ret" where
  "NewServer routerID =
     (if \<not> Is4 routerID then fail (PlainErr ''invalid router ID'')
      else
        go_bind (Uint32 (AsSlice routerID)) (\<lambda>i.
        ok \<lparr>srv_id = i, peers = Mapping.empty, serving = False, doneServing = False, srv_closed = False\<rparr>))"

section \<open>Peers\<close>

text \<open>\<open>fmt.Errorf\<close> with the text of an error that does not wrap it.\<close>

definition errorf_v :: "string \<Rightarrow> error \<Rightarrow> error" where
  "errorf_v prefix err = (case err of PlainErr s \<Rightarrow> PlainErr (prefix @ s) | _ \<Rightarrow> PlainErr prefix)"

definition AddPeer :: "PeerConfig \<Rightarrow> Plugin \<Rightarrow> PeerOption list \<Rightarrow> Server \<Rightarrow> Server \<times> error option" where
  "AddPeer config plugin opts s =
     (let o' = apply_options opts in
      case peerOptions_validate o' of
        Some err \<Rightarrow> (s, Some (errorf_v ''invalid peer options: '' err))
      | None \<Rightarrow>
          (case PeerConfig_validate config o' of
             Some err \<Rightarrow> (s, Some (errorf_v ''peer config invalid: '' err))
           | None \<Rightarrow>
               (case Mapping.lookup (peers s) (Addr_String (RemoteAddress config)) of
                  Some _ \<Rightarrow> (s, Some ErrPeerAlreadyExists)
                | None \<Rightarrow>
                    let p = newPeer \<lparr>pc_config = config, pc_id = srv_id s, pc_plugin = plugin, pc_options = o'\<rparr>;
                        p = (if serving s then peer_start p else p)
                    in (s\<lparr>peers := Mapping.update (Addr_String (RemoteAddress (pc_config (ctx p)))) p (peers s)\<rparr>,
                        None))))"

text \<open>
  \<open>p.stop()\<close>: the close of the peer's channel, then what the peer does until its manager returns.
  There is no such list of events for a peer that was never started.
\<close>

definition peer_stop :: "pevent list \<Rightarrow> peer \<Rightarrow> peer go option" where
  "peer_stop es p =
     pbind (run_events peer_step p (PStop # es)) (\<lambda>p. if stopped p then Some (Val p) else None)"

definition DeletePeer :: "pevent list \<Rightarrow> Addr \<Rightarrow> Server \<Rightarrow> (Server \<times> error option) go option" where
  "DeletePeer es ip s =
     (case Mapping.lookup (peers s) (Addr_String ip) of
        None \<Rightarrow> Some (Val (s, Some ErrPeerNotExist))
      | Some p \<Rightarrow>
          pbind (if serving s then pbind (peer_stop es p) (\<lambda>p. Some (Val ())) else Some (Val ())) (\<lambda>_.
          Some (Val (s\<lparr>peers := Mapping.delete (Addr_String ip) (peers s)\<rparr>, None))))"

definition GetPeer :: "Addr \<Rightarrow> Server \<Rightarrow> error + PeerConfig" where
  "GetPeer ip s =
     (case Mapping.lookup (peers s) (Addr_String ip) of
        None \<Rightarrow> Inl ErrPeerNotExist
      | Some p \<Rightarrow> Inr (pc_config (ctx p)))"

text \<open>The order in which Go visits a map is not determined: it is an argument.\<close>

definition visits :: "string list \<Rightarrow> Server \<Rightarrow> bool" where
  "visits ks s \<longleftrightarrow> distinct ks \<and> set ks = Mapping.keys (peers s)"

definition ListPeers :: "string list \<Rightarrow> Server \<Rightarrow> PeerConfig list option" where
  "ListPeers ks s =
     (if visits ks s then Some (map (\<lambda>k. pc_config (ctx (the (Mapping.lookup (peers s) k)))) ks) else None)"

section \<open>Serving\<close>

text \<open>\<open>Serve\<close> up to its \<open>select\<close>; every peer is started, so the order does not matter.\<close>

definition Serve_begin :: "Server \<Rightarrow> Server \<times> error option" where
  "Serve_begin s =
     (if doneServing s \<or> srv_closed s then (s, Some ErrServerClosed)
      else (s\<lparr>serving := True, peers := Mapping.map_values (\<lambda>k. peer_start) (peers s)\<rparr>, None))"

text \<open>The peers are stopped one after the other, each with the events it takes.\<close>

fun stop_peers :: "(string \<times> pevent list) list \<Rightarrow> Server \<Rightarrow> Server go option" where
  "stop_peers [] s = Some (Val s)"
| "stop_peers ((k, es) # ks) s =
     (case Mapping.lookup (peers s) k of
        None \<Rightarrow> None
      | Some p \<Rightarrow>
          pbind (peer_stop es p) (\<lambda>p. stop_peers ks (s\<lparr>peers := Mapping.update k p (peers s)\<rparr>)))"

text \<open>
  The end of \<open>Serve\<close>: \<open>lisErr\<close> is the error of a listener, and \<open>None\<close> stands for the closed
  channel. The deferred function closes \<open>doneServingCh\<close>, which faults if it is closed.
\<close>

definition Serve_end :: "error option \<Rightarrow> (string \<times> pevent list) list \<Rightarrow> Server \<Rightarrow> (Server \<times> error) go option" where
  "Serve_end lisErr ks s =
     (if \<not> serving s \<or> (lisErr = None \<and> \<not> srv_closed s) \<or> \<not> visits (map fst ks) s then None
      else
        pbind (stop_peers ks s) (\<lambda>s.
        if doneServing s then Some (Fault CloseOfClosedChannel)
        else Some (Val (s\<lparr>serving := False, doneServing := True\<rparr>,
               case lisErr of None \<Rightarrow> ErrServerClosed | Some err \<Rightarrow> errorf_v ''listener error: '' err))))"

text \<open>\<open>Close\<close>; if the server is serving, it goes on to wait for the end of \<open>Serve\<close>.\<close>

definition Close_begin :: "Server \<Rightarrow> Server" where
  "Close_begin s = s\<lparr>srv_closed := True\<rparr>"

definition Close_returns :: "Server \<Rightarrow> bool" where
  "Close_returns s \<longleftrightarrow> \<not> serving s \<or> doneServing s"

section \<open>Inbound connections\<close>

text \<open>
  \<open>p.incomingConnection(conn)\<close>: the first argument tells which case of its \<open>select\<close> is taken.
\<close>

definition incomingConnection :: "bool \<Rightarrow> conn \<Rightarrow> peer \<Rightarrow> peer go option" where
  "incomingConnection cl c p = peer_step p (if cl then PRefuse c else PConn c)"

text \<open>
  The connection comes with the texts of its remote and local address. The result is the server
  and whether the connection was closed here.
\<close>

definition handleInboundConn :: "bool \<Rightarrow> string \<Rightarrow> string \<Rightarrow> conn \<Rightarrow> Server \<Rightarrow> (Server \<times> bool) go option" where
  "handleInboundConn cl raddr laddr c s =
     (case SplitHostPort raddr of
        None \<Rightarrow> Some (Val (s, True))
      | Some (h, _) \<Rightarrow>
          (case Mapping.lookup (peers s) h of
             None \<Rightarrow> Some (Val (s, True))
           | Some p \<Rightarrow>
               if IsValid (opt_localAddress (pc_options (ctx p))) \<and>
                  (case SplitHostPort laddr of
                     None \<Rightarrow> True
                   | Some (h, _) \<Rightarrow> opt_localAddress (pc_options (ctx p)) \<noteq> ParseAddr h)
               then Some (Val (s, True))
               else
                 pbind (incomingConnection cl c p) (\<lambda>p.
                 Some (Val (s\<lparr>peers := Mapping.update h p (peers s)\<rparr>, False)))))"

text \<open>
  The goroutine of a listener, with what \<open>Accept\<close> returns, which ends with the first error: that
  error is sent to \<open>Serve\<close>. \<open>None\<close> stands for a loop that goes on.
\<close>

datatype accept = Accepted bool string string conn | AcceptErr error

fun accept_loop :: "accept list \<Rightarrow> Server \<Rightarrow> (Server \<times> error option) go option" where
  "accept_loop [] s = Some (Val (s, None))"
| "accept_loop (AcceptErr err # as) s = Some (Val (s, Some err))"
| "accept_loop (Accepted cl raddr laddr c # as) s =
     pbind (handleInboundConn cl raddr laddr c s) (\<lambda>(s, _). accept_loop as s)"

section \<open>The server as a whole\<close>

text \<open>
  One call of \<open>Serve\<close> at a time. The steps of a peer are its own: it is started, stopped and
  handed connections by the server.
\<close>

datatype sevent =
    SAdd PeerConfig Plugin "PeerOption list"
  | SDelete "pevent list" Addr
  | SServe
  | SServeEnd "error option" "(string \<times> pevent list) list"
  | SClose
  | SConn bool string string conn
  | SPeer string pevent

fun own_pevent :: "pevent \<Rightarrow> bool" where
  "own_pevent PStop \<longleftrightarrow> False"
| "own_pevent (PReturn es es') \<longleftrightarrow> False"
| "own_pevent (PConn c) \<longleftrightarrow> False"
| "own_pevent (PRefuse c) \<longleftrightarrow> False"
| "own_pevent _ \<longleftrightarrow> True"

definition server_step :: "Server \<Rightarrow> sevent \<Rightarrow> Server go option" where
  "server_step s ev =
     (case ev of
        SAdd config plugin opts \<Rightarrow> Some (Val (fst (AddPeer config plugin opts s)))
      | SDelete es ip \<Rightarrow> pbind (DeletePeer es ip s) (\<lambda>(s, _). Some (Val s))
      | SServe \<Rightarrow> if serving s then None else Some (Val (fst (Serve_begin s)))
      | SServeEnd lisErr ks \<Rightarrow> pbind (Serve_end lisErr ks s) (\<lambda>(s, _). Some (Val s))
      | SClose \<Rightarrow> Some (Val (Close_begin s))
      | SConn cl raddr laddr c \<Rightarrow>
          if serving s then pbind (handleInboundConn cl raddr laddr c s) (\<lambda>(s, _). Some (Val s)) else None
      | SPeer k e \<Rightarrow>
          if \<not> own_pevent e then None
          else
            (case Mapping.lookup (peers s) k of
               None \<Rightarrow> None
             | Some p \<Rightarrow> pbind (peer_step p e) (\<lambda>p. Some (Val (s\<lparr>peers := Mapping.update k p (peers s)\<rparr>)))))"

end
