(* ===== verification/ServerProps.thy ===== *)
theory ServerProps
  imports Server
begin

text \<open>
  What the server guarantees: it is a map from addresses to configurations, every peer in it is a
  peer of the kind its manager keeps, and inbound connections reach the peer with their address.
\<close>

section \<open>The invariant\<close>

fun good_sevent :: "sevent \<Rightarrow> bool" where
  "good_sevent (SAdd config plugin opts) \<longleftrightarrow> 3 * Second \<le> opt_holdTime (apply_options opts)"
| "good_sevent (SDelete es ip) \<longleftrightarrow> list_all good_pevent es"
| "good_sevent (SServeEnd lisErr ks) \<longleftrightarrow> (\<forall>(k, es) \<in> set ks. list_all good_pevent es)"
| "good_sevent (SConn cl raddr laddr c) \<longleftrightarrow> c_out c = []"
| "good_sevent (SPeer k e) \<longleftrightarrow> good_pevent e"
| "good_sevent _ \<longleftrightarrow> True"

text \<open>What holds of a peer stored under \<open>k\<close>; \<open>r\<close> tells whether the server is serving.\<close>

definition peer_of :: "u32 \<Rightarrow> bool \<Rightarrow> string \<Rightarrow> peer \<Rightarrow> bool" where
  "peer_of i r k p \<longleftrightarrow>
     k = Addr_String (RemoteAddress (pc_config (ctx p))) \<and> pc_id (ctx p) = i \<and>
     peerOptions_validate (pc_options (ctx p)) = None \<and>
     PeerConfig_validate (pc_config (ctx p)) (pc_options (ctx p)) = None \<and>
     peer_inv p \<and> (r \<longrightarrow> running p \<and> \<not> closing p) \<and> (\<not> r \<longrightarrow> \<not> running p)"

definition server_inv :: "Server \<Rightarrow> bool" where
  "server_inv s \<longleftrightarrow>
     (\<forall>k p. Mapping.lookup (peers s) k = Some p \<longrightarrow> peer_of (srv_id s) (serving s) k p) \<and>
     \<not> (serving s \<and> doneServing s) \<and> (\<not> serving s \<and> \<not> doneServing s \<longrightarrow>
       (\<forall>k p. Mapping.lookup (peers s) k = Some p \<longrightarrow> (\<exists>c. p = newPeer c)))"

lemma lookup_update_simp: "Mapping.lookup (Mapping.update k v m) k' = (if k' = k then Some v else Mapping.lookup m k')"
  by transfer (auto simp: fun_upd_def)

lemma lookup_delete_simp: "Mapping.lookup (Mapping.delete k m) k' = (if k' = k then None else Mapping.lookup m k')"
  by transfer auto

lemma peer_inv_start: "good_peer c \<Longrightarrow> peer_inv (peer_start (newPeer c))"
  by (rule peer_init_inv) (auto simp: peer_init_def)

lemma peer_inv_new: "good_peer c \<Longrightarrow> peer_inv (newPeer c)"
  using new_peer_inv by (simp add: peer_inv_def)

lemma take_error_same: "take_error i p = Some (e, q) \<Longrightarrow> same p q"
  by (auto simp: take_error_def same_def split: option.splits control.splits)

lemma updateStartupDelay_same [simp]:
  "ctx (updateStartupDelay now p) = ctx p" "running (updateStartupDelay now p) = running p"
  "closing (updateStartupDelay now p) = closing p"
  by (simp_all add: updateStartupDelay_def Let_def split: option.split)

lemma handleError_same:
  assumes "handleError now es es' err p = Some (Val q)"
  shows "same p q"
proof -
  have "same p ((updateStartupDelay now r)\<lparr>inHoldDown := True\<rparr>)" if "same p r'" "same r' r" for r r'
    using that by (simp add: same_def)
  with assms show ?thesis
    by (auto simp: handleError_def pbind_Val split: option.splits if_splits dest!: disable_same intro: same_trans)
qed

lemma peer_step_same:
  assumes "peer_step p e = Some (Val q)" "e \<noteq> PStop" "\<forall>es es'. e \<noteq> PReturn es es'"
  shows "same p q"
proof (cases e)
  case (PFsm i ev)
  with assms show ?thesis
    by (auto simp: peer_step_def own_step_def pbind_Val same_def split: option.splits if_splits)
next
  case (PError i now es es')
  with assms show ?thesis
    by (auto simp: peer_step_def split: option.splits if_splits dest!: handleError_same take_error_same intro: same_trans)
next
  case (PTransition i h)
  with assms show ?thesis
    by (auto simp: peer_step_def split: option.splits if_splits dest!: handle_same take_same intro: same_trans)
qed (use assms in \<open>auto simp: peer_step_def same_def inbound_def split: option.splits if_splits\<close>)

lemma peer_step_ctx:
  assumes "peer_step p e = Some (Val q)"
  shows "ctx q = ctx p"
proof (cases "e = PStop \<or> (\<exists>es es'. e = PReturn es es')")
  case True
  with assms show ?thesis
    by (auto simp: peer_step_def peer_return_def pbind_Val same_def split: if_splits dest!: disable_same)
qed (use peer_step_same [OF assms] in \<open>auto simp: same_def\<close>)

lemma peer_run_psat:
  assumes "peer_inv p" "list_all good_pevent es"
  shows "psat (\<lambda>q. peer_inv q \<and> ctx q = ctx p) (run_events peer_step p es)"
  using assms
proof (induction es arbitrary: p)
  case (Cons e es)
  have "psat (\<lambda>q. peer_inv q \<and> ctx q = ctx p) (peer_step p e)"
    using peer_step_psat [of p e] peer_step_ctx [of p e] Cons.prems
    by (cases "peer_step p e" rule: outcome_cases) simp_all
  then show ?case
    unfolding run_events_pbind
  proof (rule psat_bind)
    fix q assume "peer_inv q \<and> ctx q = ctx p"
    with Cons.IH [of q] Cons.prems show "psat (\<lambda>q. peer_inv q \<and> ctx q = ctx p) (run_events peer_step q es)" by simp
  qed
qed simp

lemma peer_stop_psat:
  assumes "peer_inv p" "list_all good_pevent es"
  shows "psat (\<lambda>q. peer_inv q \<and> ctx q = ctx p \<and> \<not> running q) (peer_stop es p)"
proof -
  have "list_all good_pevent (PStop # es)" using assms(2) by simp
  note run = peer_run_psat [OF assms(1) this]
  show ?thesis
    unfolding peer_stop_def
    by (rule psat_bind [OF run]) (auto simp: peer_inv_def inv0_def finished_def)
qed

lemma stop_peers_psat:
  assumes "\<And>k p. Mapping.lookup (peers s) k = Some p \<Longrightarrow> peer_inv p \<and> P k (ctx p)"
    and "\<forall>(k, es) \<in> set ks. list_all good_pevent es" "distinct (map fst ks)"
  shows "psat (\<lambda>t. t = s\<lparr>peers := peers t\<rparr> \<and>
    (\<forall>k. k \<notin> fst ` set ks \<longrightarrow> Mapping.lookup (peers t) k = Mapping.lookup (peers s) k) \<and>
    (\<forall>k p. Mapping.lookup (peers t) k = Some p \<longrightarrow> peer_inv p \<and> P k (ctx p) \<and> (k \<in> fst ` set ks \<longrightarrow> \<not> running p)))
    (stop_peers ks s)"
  using assms
proof (induction ks arbitrary: s)
  case (Cons x ks)
  obtain k es where x: "x = (k, es)" by (cases x)
  show ?case
  proof (cases "Mapping.lookup (peers s) k")
    case (Some p)
    then have p: "peer_inv p" "P k (ctx p)" "list_all good_pevent es" using Cons.prems x by auto
    have "psat (\<lambda>t. t = s\<lparr>peers := peers t\<rparr> \<and>
      (\<forall>k'. k' \<notin> fst ` set (x # ks) \<longrightarrow> Mapping.lookup (peers t) k' = Mapping.lookup (peers s) k') \<and>
      (\<forall>k' p. Mapping.lookup (peers t) k' = Some p \<longrightarrow>
        peer_inv p \<and> P k' (ctx p) \<and> (k' \<in> fst ` set (x # ks) \<longrightarrow> \<not> running p)))
      (stop_peers ks (s\<lparr>peers := Mapping.update k q (peers s)\<rparr>))"
      if q: "peer_inv q \<and> ctx q = ctx p \<and> \<not> running q" for q
    proof (rule psat_mono [OF Cons.IH])
      show "peer_inv p' \<and> P k' (ctx p')"
        if "Mapping.lookup (peers (s\<lparr>peers := Mapping.update k q (peers s)\<rparr>)) k' = Some p'" for k' p'
        using that q p Cons.prems(1) by (auto simp: lookup_update_simp split: if_splits)
    qed (use Cons.prems x q in \<open>auto simp: lookup_update_simp split: if_splits\<close>)
    from psat_bind [OF peer_stop_psat [OF p(1,3)], OF this] show ?thesis by (simp add: x Some)
  qed (simp add: x)
qed simp

section \<open>Preservation\<close>

lemma server_invI:
  assumes "\<And>k p. Mapping.lookup (peers s) k = Some p \<Longrightarrow> peer_of (srv_id s) (serving s) k p"
    and "\<not> (serving s \<and> doneServing s)"
    and "\<And>k p. \<not> serving s \<Longrightarrow> \<not> doneServing s \<Longrightarrow> Mapping.lookup (peers s) k = Some p \<Longrightarrow> \<exists>c. p = newPeer c"
  shows "server_inv s"
  using assms by (auto simp: server_inv_def)

lemma server_inv_peer: "server_inv s \<Longrightarrow> Mapping.lookup (peers s) k = Some p \<Longrightarrow> peer_of (srv_id s) (serving s) k p"
  by (simp add: server_inv_def)

lemma AddPeer_cases:
  obtains (refused) err where "AddPeer config plugin opts s = (s, Some err)"
  | (added) p where "p = newPeer \<lparr>pc_config = config, pc_id = srv_id s, pc_plugin = plugin, pc_options = apply_options opts\<rparr>"
      "peerOptions_validate (apply_options opts) = None" "PeerConfig_validate config (apply_options opts) = None"
      "Mapping.lookup (peers s) (Addr_String (RemoteAddress config)) = None"
      "AddPeer config plugin opts s = (s\<lparr>peers := Mapping.update (Addr_String (RemoteAddress config))
         (if serving s then peer_start p else p) (peers s)\<rparr>, None)"
proof (cases "peerOptions_validate (apply_options opts) = None \<and> PeerConfig_validate config (apply_options opts) = None \<and>
    Mapping.lookup (peers s) (Addr_String (RemoteAddress config)) = None")
  case True
  then show thesis
    by (intro added [of "newPeer \<lparr>pc_config = config, pc_id = srv_id s, pc_plugin = plugin,
      pc_options = apply_options opts\<rparr>"]) (simp_all add: AddPeer_def Let_def peer_start_def newPeer_def)
next
  case False
  then have "\<exists>err. AddPeer config plugin opts s = (s, Some err)" by (auto simp: AddPeer_def Let_def split: option.splits)
  with refused show thesis by blast
qed

lemma AddPeer_inv:
  assumes inv: "server_inv s" and good: "3 * Second \<le> opt_holdTime (apply_options opts)"
  shows "server_inv (fst (AddPeer config plugin opts s))"
proof (cases rule: AddPeer_cases [of config plugin opts s])
  case (added p)
  have g: "good_peer \<lparr>pc_config = config, pc_id = srv_id s, pc_plugin = plugin, pc_options = apply_options opts\<rparr>"
    using good by (simp add: good_peer_def)
  have "peer_of (srv_id s) (serving s) (Addr_String (RemoteAddress config)) (if serving s then peer_start p else p)"
    using added(1-3) peer_inv_start [OF g] peer_inv_new [OF g]
    by (auto simp: peer_of_def peer_start_def newPeer_def)
  with inv added show ?thesis
    by (intro server_invI) (auto simp: server_inv_def lookup_update_simp split: if_splits)
qed (use inv in simp)

lemma Delete_psat:
  assumes inv: "server_inv s" and es: "list_all good_pevent es"
  shows "psat (\<lambda>(t, err). server_inv t) (DeletePeer es ip s)"
proof (cases "Mapping.lookup (peers s) (Addr_String ip)")
  case (Some p)
  have "peer_inv p" using server_inv_peer [OF inv Some] by (simp add: peer_of_def)
  note stop = peer_stop_psat [OF this es]
  have d: "server_inv (s\<lparr>peers := Mapping.delete (Addr_String ip) (peers s)\<rparr>)"
    using inv by (intro server_invI) (auto simp: server_inv_def lookup_delete_simp split: if_splits)
  have "psat (\<lambda>_. True) (if serving s then pbind (peer_stop es p) (\<lambda>p. Some (Val ())) else Some (Val ()))"
    using psat_bind [OF stop, of "\<lambda>_. True" "\<lambda>p. Some (Val ())"] by simp
  then show ?thesis unfolding DeletePeer_def Some option.case by (rule psat_bind) (use d in simp)
qed (use inv in \<open>simp add: DeletePeer_def\<close>)

lemma lookup_map_values_simp: "Mapping.lookup (Mapping.map_values f m) k = map_option (f k) (Mapping.lookup m k)"
  by transfer auto

lemma Serve_begin_inv:
  assumes inv: "server_inv s" and s: "\<not> serving s"
  shows "server_inv (fst (Serve_begin s))"
proof (cases "doneServing s \<or> srv_closed s")
  case False
  have "peer_of (srv_id s) True k (peer_start p)" if p: "Mapping.lookup (peers s) k = Some p" for k p
  proof -
    have po: "peer_of (srv_id s) False k p" using server_inv_peer [OF inv p] s by simp
    obtain c where c: "p = newPeer c" using inv s False p unfolding server_inv_def by blast
    have "good_peer c" using po c by (simp add: peer_of_def peer_inv_def inv0_def newPeer_def)
    from peer_inv_start [OF this] po c show ?thesis by (simp add: peer_of_def peer_start_def newPeer_def)
  qed
  with False show ?thesis
    by (intro server_invI) (auto simp: Serve_begin_def lookup_map_values_simp)
qed (use inv in \<open>simp add: Serve_begin_def\<close>)

lemma Serve_end_psat:
  assumes inv: "server_inv s" and es: "\<forall>(k, es) \<in> set ks. list_all good_pevent es"
  shows "psat (\<lambda>(t, err). server_inv t) (Serve_end lisErr ks s)"
proof (cases "serving s \<and> visits (map fst ks) s \<and> (lisErr = None \<longrightarrow> srv_closed s)")
  case True
  define P where "P k c \<longleftrightarrow> k = Addr_String (RemoteAddress (pc_config c)) \<and> pc_id c = srv_id s \<and>
    peerOptions_validate (pc_options c) = None \<and> PeerConfig_validate (pc_config c) (pc_options c) = None" for k and c :: peerCtx
  have base: "peer_inv p \<and> P k (ctx p)" if "Mapping.lookup (peers s) k = Some p" for k p
    using server_inv_peer [OF inv that] by (simp add: peer_of_def P_def)
  have d: "distinct (map fst ks)" using True by (simp add: visits_def)
  have keys: "fst ` set ks = Mapping.keys (peers s)" using True by (simp add: visits_def)
  have "\<not> doneServing s" using inv True by (simp add: server_inv_def)
  have fin: "psat (\<lambda>(t, err). server_inv t) (if doneServing t then Some (Fault CloseOfClosedChannel)
      else Some (Val (t\<lparr>serving := False, doneServing := True\<rparr>,
        case lisErr of None \<Rightarrow> ErrServerClosed | Some err \<Rightarrow> errorf_v ''listener error: '' err)))"
    if t: "t = s\<lparr>peers := peers t\<rparr> \<and>
      (\<forall>k. k \<notin> fst ` set ks \<longrightarrow> Mapping.lookup (peers t) k = Mapping.lookup (peers s) k) \<and>
      (\<forall>k p. Mapping.lookup (peers t) k = Some p \<longrightarrow> peer_inv p \<and> P k (ctx p) \<and> (k \<in> fst ` set ks \<longrightarrow> \<not> running p))" for t
  proof -
    from t have e: "t = s\<lparr>peers := peers t\<rparr>" by blast
    have f: "doneServing t = doneServing s" "srv_id t = srv_id s"
      using arg_cong [OF e, of doneServing] arg_cong [OF e, of srv_id] by simp_all
    have "k \<in> fst ` set ks" if "Mapping.lookup (peers t) k = Some p" for k p
    proof (rule ccontr)
      assume k: "k \<notin> fst ` set ks"
      then have "Mapping.lookup (peers s) k = Some p" using that t by simp
      with k keys show False by (simp add: keys_dom_lookup domIff)
    qed
    then have "peer_of (srv_id s) False k p" if "Mapping.lookup (peers t) k = Some p" for k p
      using that t unfolding peer_of_def P_def by blast
    then have "server_inv (t\<lparr>serving := False, doneServing := True\<rparr>)" using f(2) by (intro server_invI) simp_all
    then show ?thesis using f(1) \<open>\<not> doneServing s\<close> by simp
  qed
  have n: "\<not> (\<not> serving s \<or> lisErr = None \<and> \<not> srv_closed s \<or> \<not> visits (map fst ks) s)" using True by blast
  show ?thesis
    unfolding Serve_end_def if_not_P [OF n] by (rule psat_bind [OF stop_peers_psat [OF base es d] fin])
qed (auto simp: Serve_end_def)

text \<open>A peer that takes a step under a serving server.\<close>

lemma peer_update_inv:
  assumes inv: "server_inv s" and p: "Mapping.lookup (peers s) k = Some p" and q: "peer_inv q" "same p q"
    and s: "serving s \<or> doneServing s"
  shows "server_inv (s\<lparr>peers := Mapping.update k q (peers s)\<rparr>)"
proof -
  have "peer_of (srv_id s) (serving s) k q"
    using server_inv_peer [OF inv p] q by (simp add: peer_of_def same_def)
  with inv s show ?thesis
    by (intro server_invI) (auto simp: server_inv_def lookup_update_simp split: if_splits)
qed

lemma inbound_psat:
  assumes inv: "server_inv s" and s: "serving s" and c: "c_out c = []"
  shows "psat (\<lambda>(t, closed). server_inv t) (handleInboundConn cl raddr laddr c s)"
proof -
  have "psat (\<lambda>(t, closed). server_inv t) (pbind (incomingConnection cl c p) (\<lambda>p.
      Some (Val (s\<lparr>peers := Mapping.update h p (peers s)\<rparr>, False))))"
    if p: "Mapping.lookup (peers s) h = Some p" for h p
  proof -
    let ?e = "if cl then PRefuse c else PConn c"
    have "peer_inv p" using server_inv_peer [OF inv p] by (simp add: peer_of_def)
    moreover have "good_pevent ?e" using c by simp
    ultimately have "psat (\<lambda>q. peer_inv q \<and> same p q) (peer_step p ?e)"
      using peer_step_psat [of p ?e] peer_step_same [of p ?e]
      by (cases "peer_step p ?e" rule: outcome_cases) (simp_all split: if_splits)
    then show ?thesis
      unfolding incomingConnection_def by (rule psat_bind) (use peer_update_inv [OF inv p] s in simp)
  qed
  with inv show ?thesis by (auto simp: handleInboundConn_def split: option.split)
qed

lemma new_peer_quiet: "own_pevent e \<Longrightarrow> peer_step (newPeer c) e = None"
  by (cases e) (simp_all add: peer_step_def own_step_def newPeer_def recv_timer_def timer_expire_def)

lemma own_psat:
  assumes inv: "server_inv s" and p: "Mapping.lookup (peers s) k = Some p" and e: "own_pevent e" "good_pevent e"
  shows "psat server_inv (pbind (peer_step p e) (\<lambda>p. Some (Val (s\<lparr>peers := Mapping.update k p (peers s)\<rparr>))))"
proof (cases "serving s \<or> doneServing s")
  case True
  have "peer_inv p" using server_inv_peer [OF inv p] by (simp add: peer_of_def)
  then have "psat (\<lambda>q. peer_inv q \<and> same p q) (peer_step p e)"
    using peer_step_psat [of p e] peer_step_same [of p e] e
    by (cases "peer_step p e" rule: outcome_cases; cases e) simp_all
  then show ?thesis by (rule psat_bind) (use peer_update_inv [OF inv p] True in simp)
next
  case False
  then obtain c where "p = newPeer c" using inv p unfolding server_inv_def by blast
  with new_peer_quiet [OF e(1)] show ?thesis by simp
qed

lemma server_step_psat:
  assumes inv: "server_inv s" and e: "good_sevent e"
  shows "psat server_inv (server_step s e)"
proof -
  have drop: "psat server_inv (pbind m (\<lambda>(s, _). Some (Val s)))"
    if "psat (\<lambda>(t, x). server_inv t) m" for m :: "(Server \<times> 'a) go option"
    by (rule psat_bind [OF that]) auto
  show ?thesis
  proof (cases e)
    case (SDelete es ip)
    with e show ?thesis by (simp add: server_step_def drop Delete_psat [OF inv])
  next
    case (SServeEnd lisErr ks)
    with e show ?thesis by (simp add: server_step_def drop Serve_end_psat [OF inv])
  next
    case (SConn cl raddr laddr c)
    with e show ?thesis by (simp add: server_step_def drop inbound_psat [OF inv])
  next
    case (SPeer k pe)
    with e own_psat [OF inv] show ?thesis by (auto simp: server_step_def split: option.split)
  next
    case SClose
    with inv show ?thesis by (simp add: server_step_def Close_begin_def server_inv_def)
  qed (use e inv in \<open>auto simp: server_step_def AddPeer_inv Serve_begin_inv\<close>)
qed

definition server_init :: "Server \<Rightarrow> bool" where
  "server_init s \<longleftrightarrow> (\<exists>a. NewServer a = ok s)"

lemma server_init_inv: "server_init s \<Longrightarrow> server_inv s"
  by (auto simp: server_init_def NewServer_def server_inv_def go_bind_Val_iff split: if_splits)

abbreviation server_reach :: "Server \<Rightarrow> bool" where
  "server_reach \<equiv> reach server_init good_sevent server_step"

interpretation whole: go_safe server_init good_sevent server_step server_inv
proof unfold_locales
  fix s e t assume "server_inv s" "good_sevent e" "server_step s e = Some (Val t)"
  then show "server_inv t" using server_step_psat [of s e] by simp
next
  fix s e x assume "server_inv s" "good_sevent e"
  then show "server_step s e \<noteq> Some (Fault x)" using server_step_psat [of s e] by auto
qed (rule server_init_inv)

text \<open>The loop of a listener is a sequence of steps of the server.\<close>

fun accept_event :: "accept \<Rightarrow> sevent option" where
  "accept_event (Accepted cl raddr laddr c) = Some (SConn cl raddr laddr c)"
| "accept_event (AcceptErr err) = None"

lemma inbound_serving:
  "handleInboundConn cl raddr laddr c s = Some (Val (t, b)) \<Longrightarrow> serving t = serving s"
  by (auto simp: handleInboundConn_def pbind_Val split: option.splits if_splits)

lemma accept_loop_steps:
  assumes "serving s" "accept_loop as s = Some (Val (t, err))"
  obtains evs where "run_events server_step s evs = Some (Val t)" "set evs \<subseteq> {e. Some e \<in> accept_event ` set as}"
proof -
  have "\<exists>evs. run_events server_step s evs = Some (Val t) \<and> set evs \<subseteq> {e. Some e \<in> accept_event ` set as}"
    using assms
  proof (induction as s rule: accept_loop.induct)
    case (3 cl raddr laddr c as s)
    then obtain u b where u: "handleInboundConn cl raddr laddr c s = Some (Val (u, b))" "accept_loop as u = Some (Val (t, err))"
      by (auto simp: pbind_Val)
    with 3 inbound_serving [OF u(1)] obtain evs where evs: "run_events server_step u evs = Some (Val t)"
      "set evs \<subseteq> {e. Some e \<in> accept_event ` set as}" by blast
    have "server_step s (SConn cl raddr laddr c) = Some (Val u)"
      using 3(2) u(1) by (simp add: server_step_def pbind_Val)
    with evs show ?case by (intro exI [of _ "SConn cl raddr laddr c # evs"]) auto
  qed (auto intro: exI [of _ "[]"])
  with that show ?thesis by blast
qed

section \<open>The server as a map\<close>

definition configs :: "Server \<Rightarrow> string \<Rightarrow> PeerConfig option" where
  "configs s k = map_option (\<lambda>p. pc_config (ctx p)) (Mapping.lookup (peers s) k)"

definition valid_peer :: "PeerConfig \<Rightarrow> PeerOption list \<Rightarrow> bool" where
  "valid_peer config opts \<longleftrightarrow>
     peerOptions_validate (apply_options opts) = None \<and> PeerConfig_validate config (apply_options opts) = None"

lemma configs_update [simp]: "configs (s\<lparr>peers := Mapping.update k p (peers s)\<rparr>) = (configs s)(k \<mapsto> pc_config (ctx p))"
  by (auto simp: configs_def fun_eq_iff lookup_update_simp)

lemma configs_delete [simp]: "configs (s\<lparr>peers := Mapping.delete k (peers s)\<rparr>) = (configs s)(k := None)"
  by (auto simp: configs_def fun_eq_iff lookup_delete_simp)

lemma newPeer_ctx [simp]: "ctx (newPeer c) = c" "ctx (peer_start p) = ctx p"
  by (simp_all add: newPeer_def peer_start_def)

lemma AddPeer_configs:
  "(snd (AddPeer config plugin opts s) = None \<longleftrightarrow>
      valid_peer config opts \<and> configs s (Addr_String (RemoteAddress config)) = None) \<and>
   configs (fst (AddPeer config plugin opts s)) =
     (if snd (AddPeer config plugin opts s) = None
      then (configs s)(Addr_String (RemoteAddress config) \<mapsto> config) else configs s)"
  by (auto simp: AddPeer_def Let_def valid_peer_def configs_def [of s "Addr_String (RemoteAddress config)"] split: option.splits)

lemma DeletePeer_configs:
  assumes "DeletePeer es ip s = Some (Val (t, err))"
  shows "(err = None \<longleftrightarrow> configs s (Addr_String ip) \<noteq> None) \<and> configs t = (configs s)(Addr_String ip := None)"
proof (cases "Mapping.lookup (peers s) (Addr_String ip)")
  case None
  with assms show ?thesis by (auto simp: DeletePeer_def configs_def fun_eq_iff)
next
  case (Some p)
  with assms show ?thesis by (auto simp: DeletePeer_def pbind_Val configs_def [of s "Addr_String ip"])
qed

lemma peer_run_ctx: "run_events peer_step p es = Some (Val q) \<Longrightarrow> ctx q = ctx p"
  by (induction es arbitrary: p) (auto split: option.splits go.splits dest: peer_step_ctx)

lemma peer_stop_ctx: "peer_stop es p = Some (Val q) \<Longrightarrow> ctx q = ctx p"
  by (auto simp: peer_stop_def pbind_Val simp del: run_events.simps split: if_splits dest: peer_run_ctx)

lemma configs_same: "Mapping.lookup (peers s) k = Some p \<Longrightarrow> ctx q = ctx p \<Longrightarrow> (configs s)(k \<mapsto> pc_config (ctx q)) = configs s"
  by (auto simp: configs_def fun_eq_iff)

lemma stop_peers_configs: "stop_peers ks s = Some (Val t) \<Longrightarrow> configs t = configs s"
proof (induction ks s rule: stop_peers.induct)
  case (2 k es ks s)
  from 2(2) obtain p q where p: "Mapping.lookup (peers s) k = Some p" "peer_stop es p = Some (Val q)"
    "stop_peers ks (s\<lparr>peers := Mapping.update k q (peers s)\<rparr>) = Some (Val t)"
    by (auto simp: pbind_Val split: option.splits)
  from 2(1) [OF p(1,3)] configs_same [OF p(1) peer_stop_ctx [OF p(2)]] show ?case by simp
qed simp

lemma inbound_configs:
  assumes "handleInboundConn cl raddr laddr c s = Some (Val (t, closed))"
  shows "configs t = configs s"
proof -
  have "configs (s\<lparr>peers := Mapping.update h q (peers s)\<rparr>) = configs s"
    if "Mapping.lookup (peers s) h = Some p" "incomingConnection cl c p = Some (Val q)" for h p q
    using configs_same [OF that(1) peer_step_ctx [OF that(2) [unfolded incomingConnection_def]]] by simp
  with assms show ?thesis
    by (auto simp: handleInboundConn_def pbind_Val split: option.splits prod.splits if_splits)
qed

text \<open>What an event does to the map.\<close>

definition map_step :: "sevent \<Rightarrow> (string \<Rightarrow> PeerConfig option) \<Rightarrow> (string \<Rightarrow> PeerConfig option)" where
  "map_step e m =
     (case e of
        SAdd config plugin opts \<Rightarrow>
          if valid_peer config opts \<and> m (Addr_String (RemoteAddress config)) = None
          then m(Addr_String (RemoteAddress config) \<mapsto> config) else m
      | SDelete es ip \<Rightarrow> m(Addr_String ip := None)
      | _ \<Rightarrow> m)"

lemma map_step_refines:
  assumes "server_step s e = Some (Val t)"
  shows "configs t = map_step e (configs s)"
proof (cases e)
  case (SAdd config plugin opts)
  with assms AddPeer_configs [of config plugin opts s] show ?thesis by (auto simp: server_step_def map_step_def)
next
  case (SDelete es ip)
  with assms show ?thesis by (auto simp: server_step_def map_step_def pbind_Val dest: DeletePeer_configs)
next
  case SServe
  with assms show ?thesis
    by (auto simp: server_step_def map_step_def Serve_begin_def configs_def fun_eq_iff lookup_map_values_simp
        option.map_comp comp_def split: if_splits)
next
  case (SServeEnd lisErr ks)
  have "configs (u\<lparr>serving := x, doneServing := y\<rparr>) = configs u" for u x y by (simp add: configs_def fun_eq_iff)
  with SServeEnd assms show ?thesis
    by (auto simp: server_step_def map_step_def Serve_end_def pbind_Val split: if_splits dest!: stop_peers_configs)
next
  case (SConn cl raddr laddr c)
  with assms show ?thesis by (auto simp: server_step_def map_step_def pbind_Val split: if_splits dest: inbound_configs)
next
  case (SPeer k pe)
  with assms show ?thesis
    by (auto simp: server_step_def map_step_def pbind_Val configs_same split: if_splits option.splits dest!: peer_step_ctx)
qed (use assms in \<open>auto simp: server_step_def map_step_def Close_begin_def configs_def fun_eq_iff\<close>)

lemma ListPeers_configs:
  assumes "ListPeers ks s = Some cs"
  shows "set cs = ran (configs s)" "length cs = card (dom (configs s))"
proof -
  have v: "distinct ks" "set ks = Mapping.keys (peers s)" "cs = map (\<lambda>k. pc_config (ctx (the (Mapping.lookup (peers s) k)))) ks"
    using assms by (auto simp: ListPeers_def visits_def split: if_splits)
  have d: "dom (configs s) = set ks" using v(2) by (auto simp: configs_def keys_dom_lookup)
  then show "length cs = card (dom (configs s))" using v(1,3) by (simp add: distinct_card)
  have "configs s k = Some (pc_config (ctx (the (Mapping.lookup (peers s) k))))" if "k \<in> set ks" for k
    using that v(2) by (auto simp: configs_def keys_dom_lookup)
  with d v(3) show "set cs = ran (configs s)" by (force simp: ran_def dom_def)
qed

section \<open>An example\<close>

definition example_server :: Server where
  "example_server =
     fst (Serve_begin (fst (AddPeer (pc_config example_peer) (pc_plugin example_peer) []
       \<lparr>srv_id = 3221225985, peers = Mapping.empty, serving = False, doneServing = False, srv_closed = False\<rparr>)))"

lemma example_new: "NewServer (V4 [192, 0, 2, 1]) =
    ok \<lparr>srv_id = 3221225985, peers = Mapping.empty, serving = False, doneServing = False, srv_closed = False\<rparr>"
proof -
  have "Uint32 [192, 0, 2, 1] = Val 3221225985" by code_simp
  then show ?thesis by (simp add: NewServer_def)
qed

lemma example_valid:
  "peerOptions_validate (apply_options []) = None"
  "PeerConfig_validate (pc_config example_peer) (apply_options []) = None"
  "3 * Second \<le> opt_holdTime (apply_options [])"
  by code_simp+

lemma example_lookup: "Mapping.lookup (peers example_server) (Addr_String (V4 [192, 0, 2, 2])) =
    Some (peer_start (newPeer example_peer))"
proof -
  have "RemoteAddress (pc_config example_peer) = V4 [192, 0, 2, 2]" "pc_id example_peer = 3221225985"
    "pc_options example_peer = apply_options []"
    by (simp_all add: example_peer_def AddrFrom4_def apply_options_def)
  then have "example_peer = \<lparr>pc_config = pc_config example_peer, pc_id = 3221225985, pc_plugin = pc_plugin example_peer,
      pc_options = apply_options []\<rparr>" by simp
  then show ?thesis
    using \<open>RemoteAddress (pc_config example_peer) = V4 [192, 0, 2, 2]\<close> example_valid
    by (simp add: example_server_def AddPeer_def Serve_begin_def Let_def lookup_map_values_simp lookup_update_simp lookup_empty)
qed

lemma example_server_reach: "server_reach example_server"
proof -
  let ?s = "\<lparr>srv_id = 3221225985, peers = Mapping.empty, serving = False, doneServing = False, srv_closed = False\<rparr> :: Server"
  let ?c = "pc_config example_peer" and ?p = "pc_plugin example_peer"
  have "server_reach ?s" using example_new by (intro reach_init) (auto simp: server_init_def)
  then have a: "server_reach (fst (AddPeer ?c ?p [] ?s))"
    by (rule reach_step [of _ _ _ _ "SAdd ?c ?p []"]) (use example_valid in \<open>simp_all add: server_step_def\<close>)
  have "\<not> serving (fst (AddPeer ?c ?p [] ?s))" using example_valid by (simp add: AddPeer_def Let_def)
  then show ?thesis
    unfolding example_server_def by (intro reach_step [OF a, of SServe]) (simp_all add: server_step_def)
qed

section \<open>Properties\<close>



text \<open>
  C4. The server is a map from addresses to configurations: every step changes the map as the
  specification says, that is an addition extends it if the peer is valid and the address is
  free, a deletion removes the address, and nothing else changes it. GetPeer reads the map,
  ListPeers lists it once, in any order, AddPeer fails exactly when it does not extend the map, and
  DeletePeer exactly when the address is not in it.
\<close>

theorem server_refines_map:
  "(\<forall>e t. server_step s e = Some (Val t) \<longrightarrow> configs t = map_step e (configs s)) \<and>
   (\<forall>ip. GetPeer ip s =
      (case configs s (Addr_String ip) of None \<Rightarrow> Inl ErrPeerNotExist | Some c \<Rightarrow> Inr c)) \<and>
   (\<forall>ks cs. ListPeers ks s = Some cs \<longrightarrow> set cs = ran (configs s) \<and> length cs = card (dom (configs s))) \<and>
   (\<forall>config plugin opts. snd (AddPeer config plugin opts s) = None \<longleftrightarrow>
      valid_peer config opts \<and> configs s (Addr_String (RemoteAddress config)) = None) \<and>
   (\<forall>es ip t err. DeletePeer es ip s = Some (Val (t, err)) \<longrightarrow>
      (err = None \<longleftrightarrow> configs s (Addr_String ip) \<noteq> None))"
proof (intro conjI allI impI)
  show "GetPeer ip s = (case configs s (Addr_String ip) of None \<Rightarrow> Inl ErrPeerNotExist | Some c \<Rightarrow> Inr c)" for ip
    by (simp add: GetPeer_def configs_def split: option.split)
  show "snd (AddPeer config plugin opts s) = None \<longleftrightarrow>
      valid_peer config opts \<and> configs s (Addr_String (RemoteAddress config)) = None" for config plugin opts
    using AddPeer_configs [of config plugin opts s] by blast
  show "err = None \<longleftrightarrow> configs s (Addr_String ip) \<noteq> None" if "DeletePeer es ip s = Some (Val (t, err))" for es ip t err
    using DeletePeer_configs [OF that] by blast
qed (rule map_step_refines ListPeers_configs; assumption)+

theorem server_refines_map_witness:
  "GetPeer (V4 [192, 0, 2, 2]) example_server = Inr (pc_config example_peer) \<and>
   configs (Close_begin example_server) = configs example_server"
proof -
  have "server_step example_server SClose = Some (Val (Close_begin example_server))" by (simp add: server_step_def)
  with server_refines_map [of example_server, THEN conjunct1]
  have "configs (Close_begin example_server) = map_step SClose (configs example_server)" by simp
  moreover have "GetPeer (V4 [192, 0, 2, 2]) example_server =
      (case configs example_server (Addr_String (V4 [192, 0, 2, 2])) of None \<Rightarrow> Inl ErrPeerNotExist | Some c \<Rightarrow> Inr c)"
    by (rule server_refines_map [of example_server, THEN conjunct2, THEN conjunct1, THEN spec])
  moreover have "configs example_server (Addr_String (V4 [192, 0, 2, 2])) = Some (pc_config example_peer)"
    using example_lookup unfolding configs_def by (simp del: Addr_String.simps)
  ultimately show ?thesis by (simp add: map_step_def del: Addr_String.simps)
qed



end
