(* ===== verification/FeaturesMain.thy ===== *)
theory FeaturesMain
  imports Features Md5 ServerProps
begin

text \<open>
  The rest of the example program \<open>src/examples/features/main.go\<close>: the text of an update message
  and what \<open>main\<close> sets up from the command line before it serves.
\<close>

section \<open>The text of an update message\<close>

text \<open>The texts of the values that are printed with \<open>%v\<close>.\<close>

definition Prefix_String :: "Prefix \<Rightarrow> string" where
  "Prefix_String p =
     (case p_bits p of
        None \<Rightarrow> ''invalid Prefix''
      | Some n \<Rightarrow> Addr_String (p_addr p) @ ''/'' @ fmt_d n)"

definition AddPathPrefix_text :: "AddPathPrefix \<Rightarrow> string" where
  "AddPathPrefix_text a = ''{'' @ Prefix_String (ap_Prefix a) @ '' '' @ fmt_d (unat (ap_ID a)) @ ''}''"

definition slice_text :: "string list \<Rightarrow> string" where
  "slice_text ts = ''['' @ join '' '' ts @ '']''"

text \<open>
  \<open>fmtSlice\<close> on the texts of the elements; \<open>sb\<close> is what has been written to the builder.
\<close>

definition fmtSlice :: "string list \<Rightarrow> string \<Rightarrow> string \<Rightarrow> string" where
  "fmtSlice ts name sb =
     (if ts \<noteq> [] then sb @ (if sb \<noteq> [] then '' '' else []) @ name @ ''='' @ slice_text ts else sb)"

definition commsFmt :: "u32 list \<Rightarrow> string list" where
  "commsFmt cs = map (\<lambda>c. fmt_d (unat (drop_bit 16 c)) @ '':'' @ fmt_d (unat (c AND 0x0000FFFF))) cs"

definition largeCommsFmt :: "LargeCommunity list \<Rightarrow> string list" where
  "largeCommsFmt cs =
     map (\<lambda>c. fmt_d (unat (GlobalAdmin c)) @ '':'' @ fmt_d (unat (LocalData1 c)) @ '':'' @ fmt_d (unat (LocalData2 c))) cs"

definition nlri_text :: "updateMessage \<Rightarrow> string" where
  "nlri_text u =
     fmtSlice (map AddPathPrefix_text (um_addPathIPv6NLRI u)) ''addPathIPv6NLRI''
       (fmtSlice (map AddPathPrefix_text (um_addPathNLRI u)) ''addPathNLRI''
       (fmtSlice (map Prefix_String (um_ipv6NLRI u)) ''ipv6NLRI''
       (fmtSlice (map Prefix_String (um_nlri u)) ''nlri'' [])))"

definition hops_text :: "updateMessage \<Rightarrow> string \<Rightarrow> string" where
  "hops_text u sb =
     (if um_nlri u \<noteq> [] \<or> um_ipv6NLRI u \<noteq> [] \<or> um_addPathNLRI u \<noteq> [] \<or> um_addPathIPv6NLRI u \<noteq> []
      then
        let sb = sb @ '' origin='' @ fmt_d (unat (um_origin u));
            sb = (if um_nlri u \<noteq> [] then sb @ '' nextHop='' @ Addr_String (um_nextHop u) else sb)
        in if um_ipv6NLRI u \<noteq> []
           then fmtSlice (map Addr_String (um_ipv6NextHops u)) ''ipv6NextHops'' sb else sb
      else sb)"

definition metrics_text :: "updateMessage \<Rightarrow> string \<Rightarrow> string" where
  "metrics_text u sb =
     (let sb = (if um_med u > 0 then sb @ '' med='' @ fmt_d (unat (um_med u)) else sb)
      in if um_localPref u > 0 then sb @ '' localPref='' @ fmt_d (unat (um_localPref u)) else sb)"

definition attrs_text :: "updateMessage \<Rightarrow> string \<Rightarrow> string" where
  "attrs_text u sb =
     fmtSlice (largeCommsFmt (um_largeCommunities u)) ''large-communities''
       (fmtSlice (commsFmt (um_communities u)) ''communities''
       (fmtSlice (map (\<lambda>a. fmt_d (unat a)) (um_asPath u)) ''asPath'' sb))"

definition withdrawn_text :: "updateMessage \<Rightarrow> string \<Rightarrow> string" where
  "withdrawn_text u sb =
     fmtSlice (map AddPathPrefix_text (um_addPathIPv6Withdrawn u)) ''addPathIPv6Withdrawn''
       (fmtSlice (map AddPathPrefix_text (um_addPathWithdrawn u)) ''addPathWithdrawn''
       (fmtSlice (map Prefix_String (um_ipv6Withdrawn u)) ''ipv6Withdrawn''
       (fmtSlice (map Prefix_String (um_withdrawn u)) ''withdrawn'' sb)))"

definition updateMessage_String :: "updateMessage \<Rightarrow> string" where
  "updateMessage_String u =
     (let sb = withdrawn_text u (attrs_text u (metrics_text u (hops_text u (nlri_text u)))) in
      if sb = [] then ''End-of-RIB'' else sb)"

text \<open>
  An update is shown as the End-of-RIB marker exactly if it carries no route and none of the
  attributes that are printed.
\<close>

definition carries_nothing :: "updateMessage \<Rightarrow> bool" where
  "carries_nothing u \<longleftrightarrow>
     um_nlri u = [] \<and> um_ipv6NLRI u = [] \<and> um_addPathNLRI u = [] \<and> um_addPathIPv6NLRI u = [] \<and>
     um_med u = 0 \<and> um_localPref u = 0 \<and> um_asPath u = [] \<and> um_communities u = [] \<and>
     um_largeCommunities u = [] \<and> um_withdrawn u = [] \<and> um_ipv6Withdrawn u = [] \<and>
     um_addPathWithdrawn u = [] \<and> um_addPathIPv6Withdrawn u = []"

lemma fmtSlice_Nil [simp]: "fmtSlice [] name sb = sb"
  by (simp add: fmtSlice_def)

lemma fmtSlice_equals [simp]: "CHR ''='' \<in> set (fmtSlice ts name sb) \<longleftrightarrow> ts \<noteq> [] \<or> CHR ''='' \<in> set sb"
  by (simp add: fmtSlice_def)

lemma fmtSlice_empty [simp]: "fmtSlice ts name sb = [] \<longleftrightarrow> ts = [] \<and> sb = []"
  by (simp add: fmtSlice_def)

lemma parts_equals:
  "CHR ''='' \<in> set (nlri_text u) \<longleftrightarrow>
     um_nlri u \<noteq> [] \<or> um_ipv6NLRI u \<noteq> [] \<or> um_addPathNLRI u \<noteq> [] \<or> um_addPathIPv6NLRI u \<noteq> []"
  "CHR ''='' \<in> set sb \<Longrightarrow> CHR ''='' \<in> set (hops_text u sb)"
  "um_med u \<noteq> 0 \<or> um_localPref u \<noteq> 0 \<or> CHR ''='' \<in> set sb \<Longrightarrow> CHR ''='' \<in> set (metrics_text u sb)"
  "CHR ''='' \<in> set (attrs_text u sb) \<longleftrightarrow>
     um_asPath u \<noteq> [] \<or> um_communities u \<noteq> [] \<or> um_largeCommunities u \<noteq> [] \<or> CHR ''='' \<in> set sb"
  "CHR ''='' \<in> set (withdrawn_text u sb) \<longleftrightarrow>
     um_withdrawn u \<noteq> [] \<or> um_ipv6Withdrawn u \<noteq> [] \<or> um_addPathWithdrawn u \<noteq> [] \<or>
     um_addPathIPv6Withdrawn u \<noteq> [] \<or> CHR ''='' \<in> set sb"
  by (auto simp: nlri_text_def hops_text_def metrics_text_def attrs_text_def withdrawn_text_def
      commsFmt_def largeCommsFmt_def word_gt_0 Let_def)

lemma end_of_rib_text: "updateMessage_String u = ''End-of-RIB'' \<longleftrightarrow> carries_nothing u"
proof
  show "carries_nothing u \<Longrightarrow> updateMessage_String u = ''End-of-RIB''"
    by (simp add: carries_nothing_def updateMessage_String_def nlri_text_def hops_text_def metrics_text_def
        attrs_text_def withdrawn_text_def commsFmt_def largeCommsFmt_def)
  have "\<not> carries_nothing u \<Longrightarrow>
      CHR ''='' \<in> set (withdrawn_text u (attrs_text u (metrics_text u (hops_text u (nlri_text u)))))"
    unfolding carries_nothing_def parts_equals(4,5) using parts_equals(1-3) by blast
  then show "updateMessage_String u = ''End-of-RIB'' \<Longrightarrow> carries_nothing u"
    by (auto simp: updateMessage_String_def Let_def split: if_splits)
qed

section \<open>The main function\<close>

record cmd_line =
  cl_routerID :: string
  cl_localAS :: nat
  cl_remoteAS :: nat
  cl_localAddress :: string
  cl_remoteAddress :: string
  cl_bindAddr :: string
  cl_passive :: bool
  cl_md5 :: bytes

text \<open>
  The control function for a socket: \<open>Control\<close> of the raw connection fails or passes a file
  descriptor.
\<close>

definition md5_control :: "endian \<Rightarrow> unix \<Rightarrow> cmd_line \<Rightarrow> Addr \<Rightarrow> error + int \<Rightarrow> error option" where
  "md5_control e u cl remote raw =
     (case raw of
        Inl err \<Rightarrow> Some err
      | Inr fd \<Rightarrow> SetTCPMD5Signature e u fd remote (if Is4 remote then 32 else 128) (cl_md5 cl))"

datatype 'l main_exit =
    ParsePanic string
  | ListenerFatal error
  | ServerFatal error
  | PeerFatal error
  | Started Server "'l option"

definition main_options :: "cmd_line \<Rightarrow> Addr \<Rightarrow> PeerOption list" where
  "main_options cl local =
     (if cl_md5 cl \<noteq> [] then [WithDialerControl (ControlFn 0)] else []) @
     (if cl_passive cl then [WithPassive] else []) @ [WithLocalAddress local]"

definition main_config :: "cmd_line \<Rightarrow> Addr \<Rightarrow> PeerConfig" where
  "main_config cl remote =
     \<lparr>RemoteAddress = remote, LocalAS = of_nat (cl_localAS cl), RemoteAS = of_nat (cl_remoteAS cl)\<rparr>"

text \<open>
  \<open>main\<close> up to the call of \<open>Serve\<close> with the listener, which is nil without an address to bind to.
  \<open>listen\<close> is \<open>ListenConfig.Listen\<close>, told whether it has the control function; \<open>plugin\<close> is the
  plugin.
\<close>

definition main_listener :: "(bool \<Rightarrow> string \<Rightarrow> error + 'l) \<Rightarrow> cmd_line \<Rightarrow> error + 'l option" where
  "main_listener listen cl =
     (if cl_bindAddr cl \<noteq> []
      then map_sum id Some (listen (cl_md5 cl \<noteq> []) (cl_bindAddr cl))
      else Inr None)"

definition main_serve :: "Plugin \<Rightarrow> cmd_line \<Rightarrow> Addr \<Rightarrow> Addr \<Rightarrow> 'l option \<Rightarrow> 'l main_exit go" where
  "main_serve plugin cl remote local lis =
     (if \<not> IsValid (ParseAddr (cl_routerID cl)) then Val (ParsePanic (cl_routerID cl))
      else
        go_bind (NewServer (ParseAddr (cl_routerID cl))) (\<lambda>r.
        case r of
          Inl err \<Rightarrow> Val (ServerFatal err)
        | Inr srv \<Rightarrow>
            Val (case AddPeer (main_config cl remote) plugin (main_options cl local) srv of
                   (_, Some err) \<Rightarrow> PeerFatal err
                 | (srv, None) \<Rightarrow> Started srv lis)))"

definition features_main ::
    "(bool \<Rightarrow> string \<Rightarrow> error + 'l) \<Rightarrow> Plugin \<Rightarrow> cmd_line \<Rightarrow> 'l main_exit go" where
  "features_main listen plugin cl =
     (let remote = ParseAddr (cl_remoteAddress cl); local = ParseAddr (cl_localAddress cl) in
      if \<not> IsValid remote then Val (ParsePanic (cl_remoteAddress cl))
      else if \<not> IsValid local then Val (ParsePanic (cl_localAddress cl))
      else
        case main_listener listen cl of
          Inl err \<Rightarrow> Val (ListenerFatal err)
        | Inr lis \<Rightarrow> main_serve plugin cl remote local lis)"

text \<open>
  What \<open>main\<close> serves is a server that can be reached by the operations of the library, so what is
  shown of such servers applies to it. Its only peer is the one of the command line.
\<close>

lemma main_options_holdTime: "opt_holdTime (apply_options (main_options cl local)) = opt_holdTime defaultPeerOptions"
  by (simp add: apply_options_def main_options_def WithDialerControl_def WithPassive_def WithLocalAddress_def)

lemma default_holdTime: "3 * Second \<le> opt_holdTime defaultPeerOptions"
  by code_simp

lemma main_serve_started:
  assumes "main_serve plugin cl r l lis' = Val (Started srv lis)"
  obtains s where "lis' = lis" "NewServer (ParseAddr (cl_routerID cl)) = ok s"
    "AddPeer (main_config cl r) plugin (main_options cl l) s = (srv, None)"
proof (cases "NewServer (ParseAddr (cl_routerID cl))" rule: go_sum_cases)
  case (ok s)
  with assms that show ?thesis
    by (cases "AddPeer (main_config cl r) plugin (main_options cl l) s")
       (auto simp: main_serve_def split: if_splits option.splits)
qed (use assms in \<open>auto simp: main_serve_def split: if_splits\<close>)

lemma features_main_started:
  assumes "features_main listen plugin cl = Val (Started srv lis)"
  shows "server_reach srv \<and>
    configs srv = [Addr_String (ParseAddr (cl_remoteAddress cl)) \<mapsto> main_config cl (ParseAddr (cl_remoteAddress cl))] \<and>
    (lis = None \<longleftrightarrow> cl_bindAddr cl = [])"
proof -
  let ?r = "ParseAddr (cl_remoteAddress cl)" and ?l = "ParseAddr (cl_localAddress cl)"
  let ?add = "AddPeer (main_config cl ?r) plugin (main_options cl ?l)"
  from assms obtain lis' where "main_listener listen cl = Inr lis'" "main_serve plugin cl ?r ?l lis' = Val (Started srv lis)"
    by (auto simp: features_main_def Let_def split: if_splits sum.splits)
  then obtain s where lis: "main_listener listen cl = Inr lis"
    and s: "NewServer (ParseAddr (cl_routerID cl)) = ok s" and a: "?add s = (srv, None)"
    by (auto elim: main_serve_started)
  from s have "server_reach s" by (auto intro!: reach_init simp: server_init_def)
  moreover have "good_sevent (SAdd (main_config cl ?r) plugin (main_options cl ?l))"
    using main_options_holdTime default_holdTime by simp
  moreover have "server_step s (SAdd (main_config cl ?r) plugin (main_options cl ?l)) = Some (Val srv)"
    using a by (simp add: server_step_def)
  ultimately have "server_reach srv" by (rule reach_step)
  moreover have "configs s = Map.empty"
    using s by (auto simp: NewServer_def configs_def go_bind_Val_iff split: if_splits)
  with a have "configs srv = [Addr_String ?r \<mapsto> main_config cl ?r]"
    by (cases rule: AddPeer_cases [of "main_config cl ?r" plugin "main_options cl ?l" s])
       (auto simp: main_config_def)
  moreover have "lis = None \<longleftrightarrow> cl_bindAddr cl = []"
    using lis by (cases "listen (cl_md5 cl \<noteq> []) (cl_bindAddr cl)") (auto simp: main_listener_def split: if_splits)
  ultimately show ?thesis by blast
qed

text \<open>
  \<open>Serve\<close> is called with the listener in any case, and the first thing its goroutine does is to
  call \<open>Accept\<close> on it.
\<close>

definition first_accept :: "'l option \<Rightarrow> 'l go" where
  "first_accept lis = (case lis of None \<Rightarrow> Fault NilDereference | Some l \<Rightarrow> Val l)"

lemma no_bind_address_panics:
  assumes "features_main listen plugin cl = Val (Started srv lis)" "cl_bindAddr cl = []"
  shows "first_accept lis = Fault NilDereference"
  using features_main_started [OF assms(1)] assms(2) by (simp add: first_accept_def)

end
