(* ===== verification/Reader.thy ===== *)
theory Reader
  imports Packet
begin

text \<open>
  The reader goroutine of an FSM, \<open>fsm.read\<close> in \<open>src/fsm.go\<close>. The connection is the octets it
  will still yield and the error \<open>Read\<close> answers after them. The loop is run with the FSM taking
  every message; when the FSM closes the reader, the goroutine stops after some of them.
\<close>

definition maxMessageLength :: nat where [simp]: "maxMessageLength = 4096"

record stream =
  s_bytes :: bytes
  s_err :: error

definition io_EOF :: error where "io_EOF = PlainErr ''EOF''"
definition io_ErrUnexpectedEOF :: error where "io_ErrUnexpectedEOF = PlainErr ''unexpected EOF''"

text \<open>\<open>io.ReadFull\<close> into a buffer of \<open>n\<close> octets.\<close>

definition ReadFull :: "nat \<Rightarrow> stream \<Rightarrow> (bytes \<times> stream) ret" where
  "ReadFull n s =
     (if n \<le> length (s_bytes s) then ok (take n (s_bytes s), s\<lparr>s_bytes := drop n (s_bytes s)\<rparr>)
      else fail (if s_err s = io_EOF \<and> s_bytes s \<noteq> [] then io_ErrUnexpectedEOF else s_err s))"

definition headerErr :: "u8 \<Rightarrow> error" where
  "headerErr subcode =
     newNotificationError (newNotification NOTIF_CODE_MESSAGE_HEADER_ERR subcode []) True"

text \<open>The loop \<open>for i := 0; i < 16; i++\<close> over the marker.\<close>

fun marker_ok :: "bytes \<Rightarrow> nat \<Rightarrow> nat \<Rightarrow> bool go" where
  "marker_ok header i 0 = Val True"
| "marker_ok header i (Suc n) =
     go_bind (go_index header i) (\<lambda>x. if x \<noteq> 0xFF then Val False else marker_ok header (i + 1) n)"

text \<open>One iteration: the next message, or the error the goroutine reports before it returns.\<close>

definition read_message :: "stream \<Rightarrow> (message \<times> stream) ret" where
  "read_message s =
     try_bind (ReadFull headerLength s) (\<lambda>(header, s).
     go_bind (marker_ok header 0 16) (\<lambda>synced.
     if \<not> synced then fail (headerErr NOTIF_SUBCODE_CONN_NOT_SYNCHRONIZED)
     else
       go_bind (go_bind (go_slice header 16 18) Uint16) (\<lambda>l.
       let bodyLen = int (unat l) - int headerLength in
       if bodyLen < 0 \<or> bodyLen + int headerLength > int maxMessageLength
       then fail (headerErr NOTIF_SUBCODE_BAD_MESSAGE_LEN)
       else
         try_bind (if bodyLen > 0 then ReadFull (nat bodyLen) s else ok ([], s)) (\<lambda>(body, s).
         go_bind (go_index header 18) (\<lambda>messageType.
         try_bind (messageFromBytes body messageType) (\<lambda>m. ok (m, s)))))))"

lemma read_message_shrinks:
  "read_message s = ok (m, s') \<Longrightarrow> length (s_bytes s') < length (s_bytes s)"
  by (auto simp: read_message_def ReadFull_def try_bind_ok_iff go_bind_Val_iff Let_def
      split: if_splits)

function read_loop :: "stream \<Rightarrow> message list \<Rightarrow> (message list \<times> error) go" where
  "read_loop s ms =
     go_bind (read_message s) (\<lambda>r.
       case r of
         Inl err \<Rightarrow> Val (ms, err)
       | Inr (m, s') \<Rightarrow> read_loop s' (ms @ [m]))"
  by pat_completeness auto
termination
  by (relation "measure (\<lambda>(s, ms). length (s_bytes s))") (auto dest: read_message_shrinks)

declare read_loop.simps [simp del]

definition read :: "stream \<Rightarrow> (message list \<times> error) go" where
  "read s = read_loop s []"

section \<open>Frames\<close>

text \<open>A body with its type octet, of a size a message may have.\<close>

type_synonym frame = "bytes \<times> u8"

fun frame_bytes :: "frame \<Rightarrow> bytes" where
  "frame_bytes (body, t) = prependHeader body t"

fun wf_frame :: "frame \<Rightarrow> bool" where
  "wf_frame (body, t) \<longleftrightarrow> length body + headerLength \<le> maxMessageLength"

fun decodes_to :: "frame \<Rightarrow> message \<Rightarrow> bool" where
  "decodes_to (body, t) m \<longleftrightarrow> messageFromBytes body t = ok m"

lemma marker_ok_eq:
  "i + n \<le> length header \<Longrightarrow> marker_ok header i n = Val (take n (drop i header) = replicate n 0xFF)"
proof (induction header i n rule: marker_ok.induct)
  case (2 header i n)
  then have "drop i header = header ! i # drop (Suc i) header" by (simp add: Cons_nth_drop_Suc)
  with 2 show ?case by auto
qed simp

text \<open>The error of \<open>ReadFull\<close> when too few octets come.\<close>

definition short_err :: "stream \<Rightarrow> error" where
  "short_err s = (if s_err s = io_EOF \<and> s_bytes s \<noteq> [] then io_ErrUnexpectedEOF else s_err s)"

text \<open>The length field of the header at the front of the stream.\<close>

definition frame_len :: "bytes \<Rightarrow> nat" where
  "frame_len b = unat (u16_of (b ! 16) (b ! 17))"

lemma read_message_short: "length (s_bytes s) < 19 \<Longrightarrow> read_message s = fail (short_err s)"
  by (simp add: read_message_def ReadFull_def short_err_def)

lemma read_message_long:
  assumes 19: "19 \<le> length (s_bytes s)"
  shows "read_message s =
    (if take 16 (s_bytes s) \<noteq> replicate 16 0xFF then fail (headerErr NOTIF_SUBCODE_CONN_NOT_SYNCHRONIZED)
     else if frame_len (s_bytes s) < 19 \<or> 4096 < frame_len (s_bytes s)
     then fail (headerErr NOTIF_SUBCODE_BAD_MESSAGE_LEN)
     else if length (s_bytes s) < frame_len (s_bytes s)
     then fail (short_err (s\<lparr>s_bytes := drop 19 (s_bytes s)\<rparr>))
     else try_bind (messageFromBytes (take (frame_len (s_bytes s) - 19) (drop 19 (s_bytes s))) (s_bytes s ! 18))
       (\<lambda>m. ok (m, s\<lparr>s_bytes := drop (frame_len (s_bytes s)) (s_bytes s)\<rparr>)))"
proof -
  let ?b = "s_bytes s" and ?s = "s\<lparr>s_bytes := drop 19 (s_bytes s)\<rparr>"
  define L where "L = frame_len ?b"
  have rf: "ReadFull 19 s = ok (take 19 ?b, ?s)" using 19 by (simp add: ReadFull_def)
  have mk: "marker_ok (take 19 ?b) 0 16 = Val (take 16 ?b = replicate 16 0xFF)"
    using 19 by (subst marker_ok_eq) (simp_all add: min_def)
  have u: "go_bind (go_slice (take 19 ?b) 16 18) Uint16 = Val (u16_of (?b ! 16) (?b ! 17))"
    using 19 by (simp add: Uint16_in)
  have t: "go_index (take 19 ?b) 18 = Val (?b ! 18)" using 19 by simp
  have body: "(if int L - int 19 > 0 then ReadFull (nat (int L - int 19)) ?s else ok ([], ?s)) =
      (if length ?b < L then fail (short_err ?s)
       else ok (take (L - 19) (drop 19 ?b), s\<lparr>s_bytes := drop L ?b\<rparr>))" if "19 \<le> L"
  proof -
    have "nat (int L - int 19) = L - 19" by simp
    with that 19 show ?thesis by (auto simp: ReadFull_def short_err_def)
  qed
  show ?thesis
    unfolding read_message_def headerLength_def maxMessageLength_def
    unfolding rf try_bind_simps(3) prod.case mk go_bind.simps u t Let_def
      frame_len_def [symmetric] L_def [symmetric]
    using body by auto
qed

lemma frame_len_prependHeader:
  "length body + 19 \<le> 4096 \<Longrightarrow> frame_len (prependHeader body t @ r) = length body + 19"
  using unat_u16_of_nat [of "length body + 19"]
  by (simp add: frame_len_def prependHeader_def nth_append PutUint16_def)

lemma read_message_frame:
  assumes "length body + 19 \<le> 4096"
  shows "read_message \<lparr>s_bytes = prependHeader body t @ r, s_err = e\<rparr> =
    try_bind (messageFromBytes body t) (\<lambda>m. ok (m, \<lparr>s_bytes = r, s_err = e\<rparr>))"
proof -
  let ?b = "prependHeader body t @ r"
  have b: "take 16 ?b = replicate 16 0xFF" "19 \<le> length ?b" "length body + 19 \<le> length ?b"
    "take (length body) (drop 19 ?b) = body" "drop (length body + 19) ?b = r" "?b ! 18 = t"
    by (simp_all add: prependHeader_def nth_append)
  have "s_bytes \<lparr>s_bytes = ?b, s_err = e\<rparr> = ?b" by simp
  with b assms frame_len_prependHeader [OF assms, of t r] show ?thesis
    by (subst read_message_long) simp_all
qed

lemma prependHeader_split:
  assumes "take 16 b = replicate 16 0xFF" "19 \<le> frame_len b" "frame_len b \<le> length b"
  shows "b = prependHeader (take (frame_len b - 19) (drop 19 b)) (b ! 18) @ drop (frame_len b) b"
proof -
  let ?body = "take (frame_len b - 19) (drop 19 b)"
  have len: "length ?body + headerLength = frame_len b" using assms by simp
  have l: "PutUint16 (of_nat (frame_len b)) = [b ! 16, b ! 17]" by (simp add: frame_len_def)
  have "take 3 (drop 16 b) = [b ! 16, b ! 17, b ! 18]"
    using assms by (simp add: numeral_3_eq_3 take_Suc_conv_app_nth)
  then have h: "take 19 b = take 16 b @ [b ! 16, b ! 17, b ! 18]" using take_add [of 16 3 b] by simp
  have "b = take 19 b @ ?body @ drop (frame_len b - 19) (drop 19 b)"
    by (simp only: append_take_drop_id)
  also have "drop (frame_len b - 19) (drop 19 b) = drop (frame_len b) b" using assms(2) by simp
  also have "take 19 b @ ?body @ drop (frame_len b) b = prependHeader ?body (b ! 18) @ drop (frame_len b) b"
    unfolding h assms(1) prependHeader_def len l by simp
  finally show ?thesis .
qed

lemma read_message_sound:
  assumes "read_message s = ok (m, s')"
  shows "\<exists>fr. wf_frame fr \<and> decodes_to fr m \<and> s_bytes s = frame_bytes fr @ s_bytes s' \<and> s_err s' = s_err s"
proof -
  let ?b = "s_bytes s"
  have 19: "19 \<le> length ?b" using assms read_message_short [of s] by (cases "length ?b < 19") auto
  note eq = assms [unfolded read_message_long [OF 19]]
  from eq have b: "take 16 ?b = replicate 16 0xFF" "19 \<le> frame_len ?b" "frame_len ?b \<le> 4096"
    "frame_len ?b \<le> length ?b" by (auto split: if_splits)
  with eq have m: "messageFromBytes (take (frame_len ?b - 19) (drop 19 ?b)) (?b ! 18) = ok m"
    and s': "s' = s\<lparr>s_bytes := drop (frame_len ?b) ?b\<rparr>" by (auto simp: try_bind_ok_iff)
  show ?thesis
    using prependHeader_split [OF b(1,2,4)] m s' b
    by (intro exI [of _ "(take (frame_len ?b - 19) (drop 19 ?b), ?b ! 18)"]) simp
qed

lemma read_message_total: "read_message s \<noteq> Fault f"
  by (cases "length (s_bytes s) < 19")
     (simp_all add: read_message_short read_message_long try_bind_Fault_iff messageFromBytes_total)

section \<open>The loop\<close>

lemma read_loop_step_ok: "read_message s = ok (m, s') \<Longrightarrow> read_loop s ms = read_loop s' (ms @ [m])"
  by (subst read_loop.simps) simp

lemma read_loop_step_fail: "read_message s = fail e \<Longrightarrow> read_loop s ms = Val (ms, e)"
  by (subst read_loop.simps) simp

lemma read_loop_frames:
  "list_all2 (\<lambda>fr m. wf_frame fr \<and> decodes_to fr m) frs ms \<Longrightarrow>
     read_loop \<lparr>s_bytes = concat (map frame_bytes frs) @ r, s_err = e\<rparr> acc =
     read_loop \<lparr>s_bytes = r, s_err = e\<rparr> (acc @ ms)"
proof (induction frs ms arbitrary: acc rule: list_all2_induct)
  case (Cons fr frs m ms)
  obtain body t where fr: "fr = (body, t)" by (cases fr)
  with Cons have "read_message \<lparr>s_bytes = prependHeader body t @ concat (map frame_bytes frs) @ r, s_err = e\<rparr> =
      ok (m, \<lparr>s_bytes = concat (map frame_bytes frs) @ r, s_err = e\<rparr>)"
    by (subst read_message_frame) simp_all
  from read_loop_step_ok [OF this, of acc] Cons show ?case by (simp add: fr)
qed simp

lemma read_loop_sound:
  "\<exists>frs ms rest e. read_loop s acc = Val (acc @ ms, e) \<and>
     list_all2 (\<lambda>fr m. wf_frame fr \<and> decodes_to fr m) frs ms \<and>
     s_bytes s = concat (map frame_bytes frs) @ rest \<and> read_message (s\<lparr>s_bytes := rest\<rparr>) = fail e"
proof (induction s acc rule: read_loop.induct)
  case (1 s acc)
  show ?case
  proof (cases "read_message s" rule: go_sum_cases)
    case (Fault f)
    then show ?thesis by (simp add: read_message_total)
  next
    case (fail e)
    then show ?thesis
      by (intro exI [of _ "[]"] exI [of _ "s_bytes s"] exI [of _ e]) (simp add: read_loop_step_fail)
  next
    case (ok x)
    obtain m s' where x: "x = (m, s')" by (cases x)
    from read_message_sound [OF ok [unfolded x]] obtain fr where fr: "wf_frame fr" "decodes_to fr m"
      "s_bytes s = frame_bytes fr @ s_bytes s'" "s_err s' = s_err s" by blast
    from "1.IH" [OF ok, unfolded x, OF refl refl] obtain frs ms rest e where
      IH: "read_loop s' (acc @ [m]) = Val ((acc @ [m]) @ ms, e)"
      "list_all2 (\<lambda>fr m. wf_frame fr \<and> decodes_to fr m) frs ms"
      "s_bytes s' = concat (map frame_bytes frs) @ rest" "read_message (s'\<lparr>s_bytes := rest\<rparr>) = fail e"
      by blast
    have "s'\<lparr>s_bytes := rest\<rparr> = s\<lparr>s_bytes := rest\<rparr>" using fr(4) by (cases s; cases s') simp
    with IH fr ok x show ?thesis
      by (intro exI [of _ "fr # frs"] exI [of _ "m # ms"] exI [of _ rest] exI [of _ e])
         (simp add: read_loop_step_ok)
  qed
qed

lemma read_message_error:
  assumes "read_message s = fail e"
  shows "e = s_err s \<or> e = io_ErrUnexpectedEOF \<or> e = PlainErr ''notification message too short'' \<or>
    (\<exists>n. e = NotifErr n True \<and> Code n \<in> {NOTIF_CODE_MESSAGE_HEADER_ERR, NOTIF_CODE_OPEN_MESSAGE_ERR})"
proof (cases "length (s_bytes s) < 19")
  case True
  with assms show ?thesis by (auto simp: read_message_short short_err_def)
next
  case False
  have "messageFromBytes b t = fail e \<Longrightarrow> ?thesis" for b t using messageFromBytes_error [of b t e] by blast
  with assms False show ?thesis
    by (auto simp: read_message_long try_bind_fail_iff short_err_def headerErr_def newNotification_def
        split: if_splits)
qed

text \<open>
  What stops the reading, by the format of the octets that are left when the connection ends with
  \<open>err\<close>: a header is cut short, if only because nothing is left, the marker or the length field is
  bad, a body is cut short, or there is a whole frame whose body does not decode. A connection
  that ends where a header or a body should begin ends with \<open>io.EOF\<close>, elsewhere with
  \<open>io.ErrUnexpectedEOF\<close>.
\<close>

inductive ends_reading :: "error \<Rightarrow> bytes \<Rightarrow> error \<Rightarrow> bool" for err where
  cut_header: "length b < headerLength \<Longrightarrow>
    ends_reading err b (if err = io_EOF \<and> b \<noteq> [] then io_ErrUnexpectedEOF else err)"
| unsynchronised: "headerLength \<le> length b \<Longrightarrow> take 16 b \<noteq> replicate 16 0xFF \<Longrightarrow>
    ends_reading err b (headerErr NOTIF_SUBCODE_CONN_NOT_SYNCHRONIZED)"
| bad_length: "unat l < headerLength \<or> maxMessageLength < unat l \<Longrightarrow>
    ends_reading err (replicate 16 0xFF @ PutUint16 l @ t # b) (headerErr NOTIF_SUBCODE_BAD_MESSAGE_LEN)"
| cut_body: "unat l \<le> maxMessageLength \<Longrightarrow> headerLength + length b < unat l \<Longrightarrow>
    ends_reading err (replicate 16 0xFF @ PutUint16 l @ t # b)
      (if err = io_EOF \<and> b \<noteq> [] then io_ErrUnexpectedEOF else err)"
| undecodable: "wf_frame (body, t) \<Longrightarrow> messageFromBytes body t = fail e \<Longrightarrow>
    ends_reading err (frame_bytes (body, t) @ b) e"

lemma header_split:
  assumes "take 16 b = replicate 16 0xFF" "19 \<le> length b"
  shows "b = replicate 16 0xFF @ PutUint16 (u16_of (b ! 16) (b ! 17)) @ (b ! 18) # drop 19 b"
proof -
  have "take 3 (drop 16 b) = [b ! 16, b ! 17, b ! 18]"
    using assms by (simp add: numeral_3_eq_3 take_Suc_conv_app_nth)
  then have "take 19 b = replicate 16 0xFF @ [b ! 16, b ! 17, b ! 18]" using take_add [of 16 3 b] assms(1) by simp
  then have "take 19 b @ drop 19 b = (replicate 16 0xFF @ [b ! 16, b ! 17, b ! 18]) @ drop 19 b" by simp
  then show ?thesis by simp
qed

lemma read_message_ends:
  assumes "read_message s = fail e"
  shows "ends_reading (s_err s) (s_bytes s) e"
proof (cases "length (s_bytes s) < 19")
  case True
  with assms cut_header [of "s_bytes s" "s_err s"] show ?thesis by (simp add: read_message_short short_err_def)
next
  case False
  let ?b = "s_bytes s" and ?l = "u16_of (s_bytes s ! 16) (s_bytes s ! 17)"
  note eq = assms [unfolded read_message_long [OF False [unfolded not_less]]]
  show ?thesis
  proof (cases "take 16 ?b = replicate 16 0xFF")
    case False
    with eq \<open>\<not> length ?b < 19\<close> unsynchronised [of ?b "s_err s"] show ?thesis by simp
  next
    case sync: True
    note b = header_split [OF sync False [unfolded not_less]]
    consider "frame_len ?b < 19 \<or> 4096 < frame_len ?b"
      | "19 \<le> frame_len ?b" "frame_len ?b \<le> 4096" "length ?b < frame_len ?b"
      | "19 \<le> frame_len ?b" "frame_len ?b \<le> 4096" "frame_len ?b \<le> length ?b" by linarith
    then show ?thesis
    proof cases
      case 1
      with eq sync bad_length [of ?l "s_err s" "?b ! 18" "drop 19 ?b"] show ?thesis
        unfolding b [symmetric] by (simp add: frame_len_def)
    next
      case 2
      with False eq sync cut_body [of ?l "drop 19 ?b" "s_err s" "?b ! 18"] show ?thesis
        unfolding b [symmetric] by (auto simp: frame_len_def short_err_def split: if_splits)
    next
      case 3
      with eq sync have "messageFromBytes (take (frame_len ?b - 19) (drop 19 ?b)) (?b ! 18) = fail e"
        by (simp add: try_bind_fail_iff)
      from undecodable [OF _ this, of "s_err s" "drop (frame_len ?b) ?b"] prependHeader_split [OF sync 3(1,3)] 3
      show ?thesis by simp
    qed
  qed
qed

lemma read_loop_acc: "read_loop s (acc @ ms) = go_bind (read_loop s ms) (\<lambda>(ms', e). Val (acc @ ms', e))"
proof (induction s ms rule: read_loop.induct)
  case (1 s ms)
  show ?case
  proof (cases "read_message s" rule: go_sum_cases)
    case (Fault f)
    then show ?thesis by (simp add: read_message_total)
  next
    case (fail e)
    then show ?thesis by (simp add: read_loop_step_fail)
  next
    case (ok x)
    obtain m s' where x: "x = (m, s')" by (cases x)
    from "1.IH" [OF ok, unfolded x, OF refl refl] ok x show ?thesis by (simp add: read_loop_step_ok)
  qed
qed

section \<open>What a speaker writes\<close>

text \<open>The octets the code writes for a message.\<close>

fun wire :: "message \<Rightarrow> bytes" where
  "wire (OpenMsg o') = (case openMessage_encode o' of Inr b \<Rightarrow> b | Inl _ \<Rightarrow> [])"
| "wire (UpdateMsg b) = prependHeader b updateMessageType"
| "wire (NotificationMsg n) = Notification_encode n"
| "wire KeepAliveMsg = keepAliveMessage_encode"

fun sendable :: "message \<Rightarrow> bool" where
  "sendable (OpenMsg o') \<longleftrightarrow> wf_open o'"
| "sendable (UpdateMsg b) \<longleftrightarrow> length b \<le> 4077"
| "sendable (NotificationMsg n) \<longleftrightarrow> length (Data n) \<noteq> 1 \<and> length (Data n) \<le> 4075"
| "sendable KeepAliveMsg \<longleftrightarrow> True"

lemma length_open_body: "wf_open o' \<Longrightarrow> length (open_body o') \<le> 265"
  by (simp add: wf_open_def open_body_def Let_def)

lemma wire_frame:
  assumes "sendable m"
  shows "\<exists>fr. wire m = frame_bytes fr \<and> wf_frame fr \<and> decodes_to fr m"
proof (cases m)
  case (OpenMsg o')
  with assms have wf: "wf_open o'" by simp
  then have "openMessage_encode o' = Inr (prependHeader (open_body o') openMessageType)"
    by (intro openMessage_encode_eq) (simp add: wf_open_def)
  with OpenMsg wf length_open_body [OF wf] show ?thesis
    by (intro exI [of _ "(open_body o', openMessageType)"])
       (simp add: messageFromBytes_def openMessage_decode_open_body)
next
  case (UpdateMsg b)
  with assms show ?thesis
    by (intro exI [of _ "(b, updateMessageType)"]) (simp add: messageFromBytes_def)
next
  case (NotificationMsg n)
  with assms show ?thesis
    by (intro exI [of _ "(Code n # Subcode n # Data n, notificationMessageType)"])
       (cases n; cases "Data n"; auto simp: messageFromBytes_def Notification_encode_def Let_def
         Notification_decode_Cons)
next
  case KeepAliveMsg
  then show ?thesis
    by (intro exI [of _ "([], keepAliveMessageType)"])
       (simp add: messageFromBytes_def keepAliveMessage_encode_def)
qed

lemma wire_frames:
  "list_all sendable ms \<Longrightarrow> \<exists>frs. concat (map wire ms) = concat (map frame_bytes frs) \<and>
     list_all2 (\<lambda>fr m. wf_frame fr \<and> decodes_to fr m) frs ms"
proof (induction ms)
  case (Cons m ms)
  then obtain frs where "concat (map wire ms) = concat (map frame_bytes frs)"
    "list_all2 (\<lambda>fr m. wf_frame fr \<and> decodes_to fr m) frs ms" by auto
  moreover from Cons.prems have "sendable m" by simp
  then obtain fr where "wire m = frame_bytes fr" "wf_frame fr" "decodes_to fr m"
    using wire_frame by blast
  ultimately show ?case by (intro exI [of _ "fr # frs"]) simp
qed simp

section \<open>Properties\<close>

text \<open>
  C8. What one speaker writes the other one's reader delivers: the octets of any sequence of
  OPEN, UPDATE, NOTIFICATION and KEEPALIVE messages, written one after the other, are read back
  as exactly that sequence, and whatever octets follow are read as they would be on their own.
  When nothing follows, the reading ends with the end of the stream. Messages may be cut anywhere
  by the transport, as the reader asks for whole headers and whole bodies. An UPDATE may have up
  to 4077 octets and a NOTIFICATION must not have one octet of data, which its encoder drops.
\<close>

theorem read_delivers_written:
  assumes "list_all sendable ms"
  shows "(\<exists>ms' e. read \<lparr>s_bytes = rest, s_err = err\<rparr> = Val (ms', e) \<and>
      read \<lparr>s_bytes = concat (map wire ms) @ rest, s_err = err\<rparr> = Val (ms @ ms', e)) \<and>
    read \<lparr>s_bytes = concat (map wire ms), s_err = err\<rparr> = Val (ms, err)"
proof -
  obtain frs where frs: "concat (map wire ms) = concat (map frame_bytes frs)"
    "list_all2 (\<lambda>fr m. wf_frame fr \<and> decodes_to fr m) frs ms" using wire_frames [OF assms] by blast
  have written: "read \<lparr>s_bytes = concat (map wire ms) @ r, s_err = err\<rparr> = read_loop \<lparr>s_bytes = r, s_err = err\<rparr> ms" for r
    using read_loop_frames [OF frs(2), of r err "[]"] by (simp add: read_def frs(1))
  obtain ms' e where r: "read \<lparr>s_bytes = rest, s_err = err\<rparr> = Val (ms', e)"
    using read_loop_sound [of "\<lparr>s_bytes = rest, s_err = err\<rparr>" "[]"] unfolding read_def by auto
  have "read_message \<lparr>s_bytes = [], s_err = err\<rparr> = fail err" by (simp add: read_message_short short_err_def)
  then have "read \<lparr>s_bytes = concat (map wire ms), s_err = err\<rparr> = Val (ms, err)"
    using written [of "[]"] by (simp add: read_loop_step_fail)
  moreover have "read \<lparr>s_bytes = concat (map wire ms) @ rest, s_err = err\<rparr> = Val (ms @ ms', e)"
    using r read_loop_acc [of "\<lparr>s_bytes = rest, s_err = err\<rparr>" ms "[]"] unfolding written by (simp add: read_def)
  ultimately show ?thesis using r by blast
qed

theorem read_delivers_written_witness:
  "let ms = [KeepAliveMsg, UpdateMsg [0, 0, 0, 0],
       NotificationMsg \<lparr>Code = NOTIF_CODE_CEASE, Subcode = 2, Data = []\<rparr>] in
   (\<exists>ms' e. read \<lparr>s_bytes = [0, 1, 2], s_err = io_EOF\<rparr> = Val (ms', e) \<and>
      read \<lparr>s_bytes = concat (map wire ms) @ [0, 1, 2], s_err = io_EOF\<rparr> = Val (ms @ ms', e)) \<and>
   read \<lparr>s_bytes = concat (map wire ms), s_err = io_EOF\<rparr> = Val (ms, io_EOF)"
  unfolding Let_def by (rule read_delivers_written) simp

text \<open>
  C21. Whatever octets arrive, the reader never faults and always ends with an error. What it
  delivered before are the decodings of a sequence of frames the octets start with, each with
  the synchronised marker, a correct length field and at most 4096 octets. The error is the one
  that the octets after these frames call for: they are none or are cut short inside a message,
  or have a bad marker or a bad length, or hold a frame whose body does not decode. It is therefore
  the connection's own, or the end of the stream inside a message, or a NOTIFICATION too short to
  read, or a Message Header Error or OPEN Message Error to be sent.
\<close>

theorem read_sound:
  "\<exists>frs ms rest e. read s = Val (ms, e) \<and>
     list_all2 (\<lambda>fr m. wf_frame fr \<and> decodes_to fr m) frs ms \<and>
     s_bytes s = concat (map frame_bytes frs) @ rest \<and> ends_reading (s_err s) rest e \<and>
     (e = s_err s \<or> e = io_ErrUnexpectedEOF \<or> e = PlainErr ''notification message too short'' \<or>
      (\<exists>n. e = NotifErr n True \<and>
         Code n \<in> {NOTIF_CODE_MESSAGE_HEADER_ERR, NOTIF_CODE_OPEN_MESSAGE_ERR}))"
proof -
  obtain frs ms rest e where r: "read_loop s [] = Val (ms, e)"
    "list_all2 (\<lambda>fr m. wf_frame fr \<and> decodes_to fr m) frs ms"
    "s_bytes s = concat (map frame_bytes frs) @ rest" "read_message (s\<lparr>s_bytes := rest\<rparr>) = fail e"
    using read_loop_sound [of s "[]"] by auto
  from read_message_error [OF r(4)] have "e = s_err s \<or> e = io_ErrUnexpectedEOF \<or>
      e = PlainErr ''notification message too short'' \<or> (\<exists>n. e = NotifErr n True \<and>
         Code n \<in> {NOTIF_CODE_MESSAGE_HEADER_ERR, NOTIF_CODE_OPEN_MESSAGE_ERR})" by simp
  with r read_message_ends [OF r(4)] show ?thesis unfolding read_def by fastforce
qed

end
