(* ===== verification/Session.thy ===== *)
theory Session
  imports FsmProps Reader
begin

text \<open>
  Two speakers against each other: one machine dials, the other is started with the inbound end
  of the connection, and each is given the messages its reader delivers from the octets the other
  one wrote. The theory joins the message codec, the reader and the machine.
\<close>

section \<open>Compatible peers\<close>

text \<open>The OPEN a machine sends; its capabilities may depend on the history.\<close>

definition own_open :: "peerCtx \<Rightarrow> action list \<Rightarrow> openMessage" where
  "own_open p tr = newOpenMessage (LocalAS (pc_config p)) (opt_holdTime (pc_options p)) (pc_id p)
     (pi_GetCapabilities (pc_plugin p) tr (pc_config p))"

text \<open>
  The capabilities fit into an OPEN, the hold time is a number of seconds that can be announced,
  and the plugin has no objection to any OPEN.
\<close>

definition speaker :: "peerCtx \<Rightarrow> bool" where
  "speaker p \<longleftrightarrow>
     (\<forall>tr. length (caps_bytes (newFourOctetASCap (LocalAS (pc_config p)) #
        filter (\<lambda>c. CapCode c \<noteq> CAP_FOUR_OCTET_AS) (pi_GetCapabilities (pc_plugin p) tr (pc_config p)))) \<le> 253) \<and>
     (\<exists>h. opt_holdTime (pc_options p) = h * Second \<and> 3 \<le> h \<and> h \<le> 65535) \<and>
     \<not> IsMulticast (AddrFrom4 (PutUint32 (pc_id p))) \<and>
     (\<forall>tr rid caps. pi_OnOpenMessage (pc_plugin p) tr (pc_config p) rid caps = None)"

definition compatible :: "peerCtx \<Rightarrow> peerCtx \<Rightarrow> bool" where
  "compatible p q \<longleftrightarrow>
     speaker p \<and> speaker q \<and>
     RemoteAS (pc_config p) = LocalAS (pc_config q) \<and> RemoteAS (pc_config q) = LocalAS (pc_config p) \<and>
     (LocalAS (pc_config p) = LocalAS (pc_config q) \<longrightarrow> pc_id p \<noteq> pc_id q)"

lemma compatible_sym: "compatible p q \<Longrightarrow> compatible q p"
  by (auto simp: compatible_def)

lemma own_open_wf: "speaker p \<Longrightarrow> wf_open (own_open p tr)"
  unfolding own_open_def speaker_def by (blast intro: newOpenMessage_wf)

lemma own_open_encode:
  "speaker p \<Longrightarrow> openMessage_encode (own_open p tr) = Inr (wire (OpenMsg (own_open p tr)))"
  using own_open_wf [of p tr] by (simp add: openMessage_encode_eq wf_open_def)

lemma own_open_valid:
  assumes "compatible p q"
  shows "openMessage_validate (own_open q tr) (pc_id p) (LocalAS (pc_config p)) (RemoteAS (pc_config p)) = ok ()"
proof -
  from assms obtain h where "opt_holdTime (pc_options q) = h * Second" "3 \<le> h" "h \<le> 65535"
    by (auto simp: compatible_def speaker_def)
  with assms show ?thesis
    unfolding own_open_def compatible_def speaker_def by (auto intro!: newOpenMessage_valid)
qed

lemma own_open_holdTime:
  assumes "speaker p"
  shows "int (unat (o_holdTime (own_open p tr))) * Second = opt_holdTime (pc_options p)"
    and "3 * Second \<le> opt_holdTime (pc_options p)"
proof -
  from assms obtain h where h: "opt_holdTime (pc_options p) = h * Second" "3 \<le> h" "h \<le> 65535"
    by (auto simp: speaker_def)
  then have "go_quot (h * Second) Second = h" by (simp add: go_quot_def Second_def)
  moreover have "uint (of_int h :: u16) = h" using h by (simp add: uint_word_of_int_eq take_bit_int_eq_self)
  ultimately show "int (unat (o_holdTime (own_open p tr))) * Second = opt_holdTime (pc_options p)"
    using h(1) by (simp add: own_open_def newOpenMessage_def)
  show "3 * Second \<le> opt_holdTime (pc_options p)" using h by (simp add: Second_def)
qed

section \<open>The runs\<close>

definition fresh_conn :: conn where
  "fresh_conn = \<lparr>c_out = [], c_broken = False, c_closed = False\<rparr>"

definition dial_run :: "event list" where
  "dial_run =
     asked disabledState idleState @ [EvExpire IdleHoldT, EvTimer IdleHoldT] @
     asked idleState connectState @ [EvDialResult (DialConn fresh_conn)] @
     asked connectState openSentState"

definition accept_run :: "event list" where
  "accept_run = asked disabledState activeState @ asked activeState openSentState"

definition session_run :: "message list \<Rightarrow> event list" where
  "session_run ms =
     (case ms of
        [m, m'] \<Rightarrow> [EvMsg m] @ asked openSentState openConfirmState @ [EvMsg m'] @ asked openConfirmState establishedState
      | _ \<Rightarrow> [])"

definition sent_open :: "peerCtx \<Rightarrow> action list \<Rightarrow> fsm \<Rightarrow> bool" where
  "sent_open p tr f \<longleftrightarrow>
     f_ctl f = Running openSentState \<and> f_reader f = ReaderRunning \<and>
     holdTimer f = Some (NewTimer longHoldTime) \<and>
     f_conn f = Some (fresh_conn\<lparr>c_out := [wire (OpenMsg (own_open p tr))]\<rparr>)"

lemmas run_defs = managed_step_def fsm_step_def ambient_event_def state_event_def on_return_def
  next_iteration_def enter_state_def newStateTransition_def enter_select_def Let_def

lemma accept_run:
  assumes "speaker p"
  obtains f tr where "run_events (managed_step p) (newFSM (Some fresh_conn)) accept_run = Some (Val f)" "sent_open p tr f"
proof -
  let ?r = "run_events (managed_step p) (newFSM (Some fresh_conn)) accept_run"
  have "\<exists>f. ?r = Some (Val f) \<and> sent_open p [] f"
    using own_open_encode [OF assms, of "[]", unfolded own_open_def]
    by (simp add: accept_run_def asked_def newFSM_def run_defs sendOpenAndSetHoldTimer_def write_conn_def
        conn_Write_def fresh_conn_def startReading_def act_def sent_open_def own_open_def del: wire.simps)
  with that show ?thesis by blast
qed

lemma dial_run:
  assumes "speaker p"
  obtains f tr where "run_events (managed_step p) (newFSM None) dial_run = Some (Val f)" "sent_open p tr f"
proof -
  let ?r = "run_events (managed_step p) (newFSM None) dial_run"
  have "\<exists>f. ?r = Some (Val f) \<and> sent_open p [DialStarted] f"
    using own_open_encode [OF assms, of "[DialStarted]", unfolded own_open_def]
    by (simp add: dial_run_def asked_def newFSM_def run_defs idle_def connect_def got_conn_def returns_def
        recv_timer_def recv_dial_def dialPeer_def expire_opt_def timer_expire_def NewTimer_def
        sendOpenAndSetHoldTimer_def write_conn_def
        conn_Write_def fresh_conn_def startReading_def act_def sent_open_def own_open_def del: wire.simps)
  with that show ?thesis by blast
qed

text \<open>From the OPEN of the other side to Established.\<close>

definition established_with :: "peerCtx \<Rightarrow> action list \<Rightarrow> openMessage \<Rightarrow> fsm \<Rightarrow> bool" where
  "established_with p tr m f \<longleftrightarrow>
     f_ctl f = Running establishedState \<and> f_reader f = ReaderRunning \<and> remoteID f = bgpID m \<and>
     holdTime f = min (int (unat (o_holdTime m)) * Second) (opt_holdTime (pc_options p)) \<and>
     (\<exists>tr. f_handler f = pi_OnEstablished (pc_plugin p) tr (pc_config p)) \<and>
     hold_live (holdTimer f) \<and>
     f_conn f = Some (fresh_conn\<lparr>c_out := [wire (OpenMsg (own_open p tr)), wire KeepAliveMsg]\<rparr>)"

lemma session_run:
  assumes "sent_open p tr f" "speaker p"
    and v: "openMessage_validate m (pc_id p) (LocalAS (pc_config p)) (RemoteAS (pc_config p)) = ok ()"
    and t: "0 < int (unat (o_holdTime m)) * Second"
  obtains f' where "run_events (managed_step p) f (session_run [OpenMsg m, KeepAliveMsg]) = Some (Val f')"
    "established_with p tr m f'"
proof -
  have nz: "uint (o_holdTime m) \<noteq> 0" using t by auto
  have h: "0 < opt_holdTime (pc_options p)" using own_open_holdTime(2) [OF assms(2)] Second_pos by linarith
  have on: "pi_OnOpenMessage (pc_plugin p) tr' (pc_config p) rid caps = None" for tr' rid caps
    using assms(2) by (simp add: speaker_def)
  have "\<exists>f'. run_events (managed_step p) f (session_run [OpenMsg m, KeepAliveMsg]) = Some (Val f') \<and>
      established_with p tr m f'"
    using assms(1) v nz h on
    by (simp add: sent_open_def session_run_def asked_def run_defs openSent_def openSent_select_def
        from_reader_def openSent_open_def sendKeepAlive_def write_conn_def conn_Write_def openSent_return_def
        fresh_conn_def act_def drainAndResetHoldTimer_def NewTimer_def timer_Stop_def timer_Reset_def
        openConfirm_def openConfirm_select_def openConfirm_return_def established_with_def hold_live_def
        min_def) blast
  with that show ?thesis by blast
qed

lemma read_session:
  assumes "speaker p"
  shows "read \<lparr>s_bytes = concat [wire (OpenMsg (own_open p tr)), wire KeepAliveMsg], s_err = io_EOF\<rparr> =
    Val ([OpenMsg (own_open p tr), KeepAliveMsg], io_EOF)"
proof -
  let ?ms = "[OpenMsg (own_open p tr), KeepAliveMsg]"
  have "list_all sendable ?ms" using own_open_wf [OF assms] by simp
  from wire_frames [OF this] obtain frs where frs: "concat (map wire ?ms) = concat (map frame_bytes frs)"
    "list_all2 (\<lambda>fr m. wf_frame fr \<and> decodes_to fr m) frs ?ms" by blast
  have "read_message \<lparr>s_bytes = [], s_err = io_EOF\<rparr> = fail io_EOF"
    by (simp add: read_message_short short_err_def)
  then show ?thesis
    using read_loop_frames [OF frs(2), of "[]" io_EOF "[]"] frs(1)
    by (simp add: read_def read_loop_step_fail del: wire.simps)
qed

lemma establish:
  assumes "compatible p q" "sent_open p tr f"
  obtains f' where
    "run_events (managed_step p) f (session_run [OpenMsg (own_open q tr'), KeepAliveMsg]) = Some (Val f')"
    "established_with p tr (own_open q tr') f'"
    "holdTime f' = min (opt_holdTime (pc_options p)) (opt_holdTime (pc_options q))"
    "remoteID f' = pc_id q"
proof -
  have sp: "speaker p" "speaker q" using assms(1) by (simp_all add: compatible_def)
  have t: "int (unat (o_holdTime (own_open q tr'))) * Second = opt_holdTime (pc_options q)"
    by (rule own_open_holdTime(1) [OF sp(2)])
  with own_open_holdTime(2) [OF sp(2)] Second_pos
  have "0 < int (unat (o_holdTime (own_open q tr'))) * Second" by linarith
  from session_run [OF assms(2) sp(1) own_open_valid [OF assms(1)] this]
  obtain f' where f': "run_events (managed_step p) f (session_run [OpenMsg (own_open q tr'), KeepAliveMsg]) = Some (Val f')"
    "established_with p tr (own_open q tr') f'" .
  then show ?thesis
    by (intro that) (simp_all only: established_with_def t, simp_all add: own_open_def newOpenMessage_def min.commute)
qed

section \<open>Properties\<close>

definition mirror_peer :: peerCtx where
  "mirror_peer = example_peer\<lparr>
     pc_config := \<lparr>RemoteAddress = AddrFrom4 [192, 0, 2, 1], LocalAS = 65002, RemoteAS = 65001\<rparr>,
     pc_id := 3221225986\<rparr>"

lemma example_compatible: "compatible example_peer mirror_peer"
proof -
  have "opt_holdTime defaultPeerOptions = 90 * Second" by code_simp
  then show ?thesis
    by (auto simp: compatible_def speaker_def example_peer_def mirror_peer_def caps_bytes_def Capability_encode_def
        newFourOctetASCap_def AddrFrom4_def PutUint32_def intro!: exI [of _ 90])
qed

text \<open>
  C3. Two speakers with matching configurations establish a session: one dials, the other one
  accepts, and when each machine is given what its reader delivers from the octets the other one
  wrote, both get to Established. They agree on the hold time, the smaller of the two configured
  ones, and each knows the identifier of the other.
\<close>

theorem speakers_establish:
  assumes "compatible p q"
  shows "\<exists>ms ms' f f' c c'.
    run_events (managed_step p) (newFSM None) (dial_run @ session_run ms) = Some (Val f) \<and>
    run_events (managed_step q) (newFSM (Some fresh_conn)) (accept_run @ session_run ms') = Some (Val f') \<and>
    f_ctl f = Running establishedState \<and> f_ctl f' = Running establishedState \<and>
    f_conn f = Some c \<and> f_conn f' = Some c' \<and>
    read \<lparr>s_bytes = concat (c_out c'), s_err = io_EOF\<rparr> = Val (ms, io_EOF) \<and>
    read \<lparr>s_bytes = concat (c_out c), s_err = io_EOF\<rparr> = Val (ms', io_EOF) \<and>
    holdTime f = min (opt_holdTime (pc_options p)) (opt_holdTime (pc_options q)) \<and>
    holdTime f' = holdTime f \<and> remoteID f = pc_id q \<and> remoteID f' = pc_id p"
proof -
  have sp: "speaker p" "speaker q" using assms by (simp_all add: compatible_def)
  obtain f tr where f: "run_events (managed_step p) (newFSM None) dial_run = Some (Val f)" "sent_open p tr f"
    using dial_run [OF sp(1)] .
  obtain g tr' where g: "run_events (managed_step q) (newFSM (Some fresh_conn)) accept_run = Some (Val g)"
    "sent_open q tr' g"
    using accept_run [OF sp(2)] .
  obtain f' where f': "run_events (managed_step p) f (session_run [OpenMsg (own_open q tr'), KeepAliveMsg]) = Some (Val f')"
    "established_with p tr (own_open q tr') f'"
    "holdTime f' = min (opt_holdTime (pc_options p)) (opt_holdTime (pc_options q))" "remoteID f' = pc_id q"
    using establish [OF assms f(2)] .
  obtain g' where g': "run_events (managed_step q) g (session_run [OpenMsg (own_open p tr), KeepAliveMsg]) = Some (Val g')"
    "established_with q tr' (own_open p tr) g'"
    "holdTime g' = min (opt_holdTime (pc_options q)) (opt_holdTime (pc_options p))" "remoteID g' = pc_id p"
    using establish [OF compatible_sym [OF assms] g(2)] .
  have est: "f_ctl f' = Running establishedState" "f_ctl g' = Running establishedState"
    "f_conn f' = Some (fresh_conn\<lparr>c_out := [wire (OpenMsg (own_open p tr)), wire KeepAliveMsg]\<rparr>)"
    "f_conn g' = Some (fresh_conn\<lparr>c_out := [wire (OpenMsg (own_open q tr')), wire KeepAliveMsg]\<rparr>)"
    using f'(2) g'(2) by (simp_all only: established_with_def)
  have runs: "run_events (managed_step p) (newFSM None)
      (dial_run @ session_run [OpenMsg (own_open q tr'), KeepAliveMsg]) = Some (Val f')"
    "run_events (managed_step q) (newFSM (Some fresh_conn))
      (accept_run @ session_run [OpenMsg (own_open p tr), KeepAliveMsg]) = Some (Val g')"
    using f(1) f'(1) g(1) g'(1) by (simp_all only: run_events_append option.case go.case)
  have reads: "read \<lparr>s_bytes = concat (c_out (fresh_conn\<lparr>c_out := [wire (OpenMsg (own_open x t)), wire KeepAliveMsg]\<rparr>)),
      s_err = io_EOF\<rparr> = Val ([OpenMsg (own_open x t), KeepAliveMsg], io_EOF)" if "speaker x" for x t
    using read_session [OF that] by simp
  have "holdTime g' = holdTime f'" using f'(3) g'(3) by (simp add: min.commute)
  with est runs reads [OF sp(1)] reads [OF sp(2)] f'(3,4) g'(4) show ?thesis by blast
qed

theorem speakers_establish_witness:
  "\<exists>ms f. run_events (managed_step example_peer) (newFSM None) (dial_run @ session_run ms) = Some (Val f) \<and>
     f_ctl f = Running establishedState \<and> holdTime f = 90 * Second \<and> remoteID f = 3221225986"
proof -
  have "opt_holdTime (pc_options example_peer) = 90 * Second" "opt_holdTime (pc_options mirror_peer) = 90 * Second"
    "pc_id mirror_peer = 3221225986" by code_simp+
  with speakers_establish [OF example_compatible] show ?thesis by auto
qed

end
