(* ===== verification/Dial.thy ===== *)
theory Dial
  imports Fsm NetText
begin

text \<open>
  The goroutine started by \<open>dialPeer\<close> of \<open>src/fsm.go\<close>: the addresses it dials from and to, and
  the results it sends. The machine of the theory \<open>Fsm\<close> receives these results as events; the
  lemmas at the end show that its account of the channel agrees with what is sent.
\<close>

section \<open>The goroutine\<close>

definition strconv_Itoa :: "int \<Rightarrow> string" where
  "strconv_Itoa n = (if n < 0 then ''-'' @ fmt_d (nat (- n)) else fmt_d (nat n))"

text \<open>
  The local address of the dialer: nil without a configured address. If the address is not
  resolved, it is a nil pointer in an interface that is not nil.
\<close>

datatype 'a localAddr = NilAddr | NilTCPAddr | TCPAddr 'a

text \<open>
  \<open>resolve\<close> is \<open>net.ResolveTCPAddr\<close> and \<open>dial\<close> is \<open>DialContext\<close> of a dialer with a local address
  and a control function. The values sent are listed in order; after the last one the channel is
  closed.
\<close>

definition dial_local :: "(string \<Rightarrow> error + 'a) \<Rightarrow> Addr \<Rightarrow> 'a localAddr \<times> dialResult list" where
  "dial_local resolve a =
     (if IsValid a
      then
        case resolve (JoinHostPort (Addr_String a) ''0'') of
          Inl err \<Rightarrow> (NilTCPAddr, [ResolveErr err])
        | Inr laddr \<Rightarrow> (TCPAddr laddr, [])
      else (NilAddr, []))"

definition dial_target :: "peerCtx \<Rightarrow> string" where
  "dial_target p =
     JoinHostPort (Addr_String (RemoteAddress (pc_config p))) (strconv_Itoa (opt_port (pc_options p)))"

definition dial_goroutine ::
    "(string \<Rightarrow> error + 'a) \<Rightarrow> ('a localAddr \<Rightarrow> dialerControl \<Rightarrow> string \<Rightarrow> error + conn) \<Rightarrow> peerCtx \<Rightarrow>
     dialResult list" where
  "dial_goroutine resolve dial p =
     (let (laddr, sent) = dial_local resolve (opt_localAddress (pc_options p)) in
      sent @ [case dial laddr (opt_dialerControlFn (pc_options p)) (dial_target p) of
                Inl err \<Rightarrow> DialErr err
              | Inr conn \<Rightarrow> DialConn conn])"

section \<open>What the machine receives\<close>

text \<open>
  The first value is an error of the resolution exactly if a second value follows, so the machine
  takes the channel for closed exactly when the goroutine has nothing left to send.
\<close>

lemma dial_goroutine_cases:
  obtains (dialed) r where "dial_goroutine resolve dial p = [r]" "\<And>err. r \<noteq> ResolveErr err"
  | (unresolved) err r where "dial_goroutine resolve dial p = [ResolveErr err, r]" "\<And>err. r \<noteq> ResolveErr err"
  by (cases "dial_local resolve (opt_localAddress (pc_options p))")
     (auto simp: dial_goroutine_def dial_local_def split: if_splits sum.splits)

lemma recv_first_result:
  assumes "dial_goroutine resolve dial p = r # rs" "f_dial f = Dialing"
  obtains f' where "recv_dial r f = Val (f', Some r)" "f_dial f' = (if rs = [] then DialClosed else Dialing)"
  using assms by (cases rule: dial_goroutine_cases [of resolve dial p]) (auto simp: recv_dial_def split: dialResult.splits)

lemma dial_goroutine_no_local:
  "\<not> IsValid (opt_localAddress (pc_options p)) \<Longrightarrow>
   dial_goroutine resolve dial p =
     [case dial NilAddr (opt_dialerControlFn (pc_options p)) (dial_target p) of Inl err \<Rightarrow> DialErr err | Inr c \<Rightarrow> DialConn c]"
  by (simp add: dial_goroutine_def dial_local_def)

text \<open>A peer with an IPv4 address is dialed at that address and at the configured port.\<close>

lemma set_fmt_d: "set (fmt_d n) \<subseteq> set ''0123456789''"
proof (induction n rule: fmt_d.induct)
  case (1 n)
  have d: "Errors.digit k \<in> set ''0123456789''" if "k < 10" for k
    using digit_dec [OF that] unfolding Errors.digit_def by (metis char_of_char)
  show ?case
  proof (cases "n < 10")
    case True
    with d show ?thesis by (subst fmt_d.simps) auto
  next
    case False
    with 1 d [of "n mod 10"] show ?thesis by (subst fmt_d.simps) auto
  qed
qed

lemma dial_target_split:
  assumes "Is4 (RemoteAddress (pc_config p))" "0 \<le> opt_port (pc_options p)"
  shows "SplitHostPort (dial_target p) =
    Some (Addr_String (RemoteAddress (pc_config p)), fmt_d (nat (opt_port (pc_options p))))"
proof -
  obtain b where b: "RemoteAddress (pc_config p) = V4 b"
    using assms(1) by (cases "RemoteAddress (pc_config p)") simp_all
  have "set (fmt_d (nat (opt_port (pc_options p)))) \<inter> set '':[]'' = {}"
    using set_fmt_d [of "nat (opt_port (pc_options p))"] by auto
  then show ?thesis
    unfolding dial_target_def b using assms(2)
    by (simp only: strconv_Itoa_def if_False not_less [symmetric] SplitHostPort_JoinHostPort [OF String4_brackets])
qed

end
