(* ===== verification/Strings.thy ===== *)
theory Strings
  imports Prelude "HOL-Library.Sublist"
begin

text \<open>
  The functions of Go's packages \<open>strings\<close> and \<open>strconv\<close> the sources use, on ASCII text:
  \<open>Contains\<close>, \<open>Index\<close>, \<open>TrimSpace\<close>, \<open>ToUpper\<close>, the replacers made by \<open>NewReplacer\<close>,
  \<open>ParseUint\<close> in base ten and \<open>Itoa\<close>.
\<close>

section \<open>Searching\<close>

fun strings_Index :: "string \<Rightarrow> string \<Rightarrow> nat option" where
  "strings_Index [] sub = (if sub = [] then Some 0 else None)"
| "strings_Index (c # s) sub =
     (if prefix sub (c # s) then Some 0 else map_option Suc (strings_Index s sub))"

definition strings_Contains :: "string \<Rightarrow> string \<Rightarrow> bool" where
  "strings_Contains s sub \<longleftrightarrow> strings_Index s sub \<noteq> None"

lemma strings_Contains_iff: "strings_Contains s sub \<longleftrightarrow> sublist sub s"
  unfolding strings_Contains_def
  by (induction s) (auto simp: sublist_Cons_right split: if_splits)

lemma strings_Index_less: "strings_Index s sub = Some n \<Longrightarrow> n + length sub \<le> length s"
  by (induction s arbitrary: n) (auto split: if_splits dest: prefix_length_le)

section \<open>Case and white space\<close>

definition lower_case :: "char \<Rightarrow> bool" where
  "lower_case c \<longleftrightarrow> 97 \<le> (of_char c :: int) \<and> (of_char c :: int) \<le> 122"

definition upper :: "char \<Rightarrow> char" where
  "upper c = (if lower_case c then char_of (of_char c - 32 :: int) else c)"

definition strings_ToUpper :: "string \<Rightarrow> string" where
  "strings_ToUpper s = map upper s"

definition is_space :: "char \<Rightarrow> bool" where
  "is_space c \<longleftrightarrow> c = CHR '' '' \<or> (9 \<le> (of_char c :: int) \<and> (of_char c :: int) \<le> 13)"

definition strings_TrimSpace :: "string \<Rightarrow> string" where
  "strings_TrimSpace s = rev (dropWhile is_space (rev (dropWhile is_space s)))"

lemma upper_not_lower [simp]: "\<not> lower_case (upper c)"
proof (cases "lower_case c")
  case True
  define n where "n = (of_char c :: int)"
  with True have n: "97 \<le> n" "n \<le> 122" by (simp_all add: lower_case_def)
  then have "(of_char (char_of (n - 32) :: char) :: int) = n - 32" by (simp add: of_char_of)
  with n show ?thesis by (simp add: upper_def True flip: n_def) (simp add: lower_case_def)
next
  case False
  then show ?thesis by (simp add: upper_def)
qed

lemma ToUpper_no_lower [simp]: "\<not> list_ex lower_case (strings_ToUpper s)"
  by (auto simp: strings_ToUpper_def list_ex_iff)

lemma TrimSpace_sublist: "sublist (strings_TrimSpace s) s"
  unfolding strings_TrimSpace_def
  by (meson sublist_order.order_trans suffix_dropWhile suffix_imp_sublist suffix_to_prefix
      prefix_imp_sublist sublist_rev_left rev_rev_ident)

section \<open>Replacers\<close>

text \<open>
  \<open>strings.NewReplacer(old1, new1, ...).Replace(s)\<close>: from left to right, at each position the
  first pair in argument order whose old string is found there. No old string of the sources is
  empty; the recursion drops the rest of the old string after its first character.
\<close>

function strings_Replace :: "(string \<times> string) list \<Rightarrow> string \<Rightarrow> string" where
  "strings_Replace pairs [] = []"
| "strings_Replace pairs (c # s) =
     (case find (\<lambda>(old, new). prefix old (c # s)) pairs of
        Some (old, new) \<Rightarrow> new @ strings_Replace pairs (drop (length old - 1) s)
      | None \<Rightarrow> c # strings_Replace pairs s)"
  by pat_completeness auto
termination by (relation "measure (\<lambda>(pairs, s). length s)") auto

section \<open>Numbers\<close>

definition decimal_digit :: "char \<Rightarrow> int option" where
  "decimal_digit c =
     (let n = of_char c :: int in if 48 \<le> n \<and> n \<le> 57 then Some (n - 48) else None)"

fun decimal :: "int \<Rightarrow> string \<Rightarrow> int option" where
  "decimal v [] = Some v"
| "decimal v (c # s) =
     (case decimal_digit c of None \<Rightarrow> None | Some d \<Rightarrow> decimal (10 * v + d) s)"

text \<open>\<open>strconv.ParseUint(s, 10, bits)\<close>; both of its errors are \<open>None\<close>.\<close>

definition strconv_ParseUint :: "nat \<Rightarrow> string \<Rightarrow> int option" where
  "strconv_ParseUint bits s =
     (if s = [] then None
      else case decimal 0 s of
        None \<Rightarrow> None
      | Some v \<Rightarrow> if v < 2 ^ bits then Some v else None)"

lemma decimal_nonneg: "decimal v s = Some n \<Longrightarrow> 0 \<le> v \<Longrightarrow> 0 \<le> n"
  by (induction v s rule: decimal.induct)
     (auto simp: decimal_digit_def Let_def split: option.splits if_splits)

lemma ParseUint_bound: "strconv_ParseUint bits s = Some v \<Longrightarrow> 0 \<le> v \<and> v < 2 ^ bits"
  by (auto simp: strconv_ParseUint_def split: if_splits option.splits dest: decimal_nonneg)

end
