(* ===== verification/IanaGen.thy ===== *)
theory IanaGen
  imports Errors Strings "HOL-Library.AList_Mapping"
begin

text \<open>
  \<open>src/iana_gen.go\<close>, the program that generates \<open>src/iana_const.go\<close>: which records of a
  registry become constants, how their names are made from the descriptions, how subcodes are
  assigned to NOTIFICATION codes, and the text that is written. The XML decoder, the HTTP client
  and the formatter are arguments. Texts are ASCII.
\<close>

section \<open>Registries and constants\<close>

record constRecord =
  originalName :: string
  cr_name :: string
  cr_value :: int

text \<open>The records and registries as \<open>encoding/xml\<close> decodes them.\<close>

record registryRecord =
  rr_Value :: string
  rr_Description :: string

record registry =
  reg_Title :: string
  reg_Records :: "registryRecord list"

record capabilityRegistry =
  cap_Title :: string
  cap_Updated :: string
  cap_Registries :: "registry list"

record afiRegistry =
  afi_Title :: string
  afi_Updated :: string
  afi_Registry :: registry

record safiRegistry =
  safi_Title :: string
  safi_Updated :: string
  safi_Registry :: registry

text \<open>
  Each \<open>escape\<close> function skips the records whose description contains one of some words or
  whose value is no number, and names the others: by a \<open>switch\<close> on the description, otherwise
  from its text.
\<close>

definition skipped :: "string list \<Rightarrow> string \<Rightarrow> bool" where
  "skipped words s \<longleftrightarrow> list_ex (strings_Contains s) words"

definition cut_at :: "string \<Rightarrow> string \<Rightarrow> string" where
  "cut_at sep s =
     (case strings_Index s sep of
        Some n \<Rightarrow> if n > 0 then take n s else s
      | None \<Rightarrow> s)"

section \<open>Capability codes\<close>

definition capability_replacer :: "(string \<times> string) list" where
  "capability_replacer = [
     ('' for BGP-4'', ''''),
     ('' Capability'', ''''),
     ('' '', ''_''),
     (''-'', ''_'')]"

definition capability_cases :: "(string \<times> string) list" where
  "capability_cases = [
     (''Multiprotocol Extensions for BGP-4'', ''MP_EXTENSIONS''),
     (''BGP Extended Message'', ''EXTENDED_MESSSAGE''),
     (''BGP Role'', ''ROLE''),
     (''Support for 4-octet AS number capability'', ''FOUR_OCTET_AS''),
     (''Support for Dynamic Capability (capability specific)'', ''DYNAMIC''),
     (''Multisession BGP Capability'', ''MULTISESSION''),
     (''Long-Lived Graceful Restart (LLGR) Capability'', ''LLGR''),
     (''Routing Policy Distribution'', ''ROUTING_POLICY_DIST'')]"

definition capability_name :: "string \<Rightarrow> string" where
  "capability_name s =
     (case map_of capability_cases s of
        Some name \<Rightarrow> name
      | None \<Rightarrow> strings_ToUpper (strings_Replace capability_replacer (strings_TrimSpace s)))"

definition capability_const :: "registryRecord \<Rightarrow> constRecord option" where
  "capability_const record =
     (if skipped [''Reserved'', ''deprecated'', ''Deprecated''] (rr_Description record) then None
      else
        case strconv_ParseUint 8 (rr_Value record) of
          None \<Rightarrow> None
        | Some v \<Rightarrow> Some \<lparr>originalName = rr_Description record,
                        cr_name = capability_name (rr_Description record), cr_value = v\<rparr>)"

definition capabilityRegistry_escape :: "capabilityRegistry \<Rightarrow> constRecord list" where
  "capabilityRegistry_escape c =
     concat (map (\<lambda>registry.
       if reg_Title registry \<noteq> ''Capability Codes'' then []
       else List.map_filter capability_const (reg_Records registry)) (cap_Registries c))"

section \<open>Address families\<close>

definition afi_replacer :: "(string \<times> string) list" where
  "afi_replacer = [
     (''Identifier'', ''ID''),
     ('' '', ''_''),
     (''.'', ''''),
     (''-'', ''_'')]"

definition afi_cases :: "(string \<times> string) list" where
  "afi_cases = [
     (''IP (IP version 4)'', ''IPV4''),
     (''IP6 (IP version 6)'', ''IPV6''),
     (''E.164 with NSAP format subaddress'', ''E164_WITH_NSAP_SUBADDR''),
     (''XTP over IP version 4'', ''XTP_OVER_IPV4''),
     (''XTP over IP version 6'', ''XTP_OVER_IPV6''),
     (''XTP native mode XTP'', ''XTP_NATIVE''),
     (''Fibre Channel World-Wide Port Name'', ''FIBRE_CHANNEL_WWPN''),
     (''Fibre Channel World-Wide Node Name'', ''FIBRE_CHANNEL_WWNN''),
     (''AFI for L2VPN information'', ''L2VPN_INFO''),
     (''MT IP: Multi-Topology IP version 4'', ''MT_IPV4''),
     (''MT IPv6: Multi-Topology IP version 6'', ''MT_IPV6''),
     (''LISP Canonical Address Format (LCAF)'', ''LCAF''),
     (''MAC/24'', ''MAC_FINAL_24_BITS''),
     (''MAC/40'', ''MAC_FINAL_40_BITS''),
     (''IPv6/64'', ''IPV6_INITIAL_64_BITS''),
     (''Routing Policy AFI'', ''ROUTING_POLICY''),
     (''Universally Unique Identifier (UUID)'', ''UUID'')]"

definition afi_name :: "string \<Rightarrow> string" where
  "afi_name s =
     (case map_of afi_cases s of
        Some name \<Rightarrow> name
      | None \<Rightarrow>
          let s = cut_at ''('' s;
              s = cut_at '':'' s;
              s = strings_TrimSpace s
          in strings_ToUpper (strings_Replace afi_replacer s))"

definition afi_const :: "registryRecord \<Rightarrow> constRecord option" where
  "afi_const record =
     (if skipped [''Reserved'', ''Unassigned''] (rr_Description record) then None
      else
        case strconv_ParseUint 16 (rr_Value record) of
          None \<Rightarrow> None
        | Some v \<Rightarrow> Some \<lparr>originalName = rr_Description record,
                        cr_name = afi_name (rr_Description record), cr_value = v\<rparr>)"

definition afiRegistry_escape :: "afiRegistry \<Rightarrow> constRecord list" where
  "afiRegistry_escape a = List.map_filter afi_const (reg_Records (afi_Registry a))"

definition safi_replacer :: "(string \<times> string) list" where
  "safi_replacer = [
     ('' SAFI'', ''''),
     (''Flow Specification'', ''FLOWSPEC''),
     ('' '', ''_''),
     (''.'', ''''),
     (''-'', ''_''),
     (''/'', '''')]"

definition safi_cases :: "(string \<times> string) list" where
  "safi_cases = [
     (''Network Layer Reachability Information used     '' @ [CHR 0x0A] @ ''for unicast forwarding'', ''UNICAST''),
     (''Network Layer Reachability Information used     '' @ [CHR 0x0A] @ ''for multicast forwarding'', ''MULTICAST''),
     (''Network Layer Reachability Information (NLRI)   '' @ [CHR 0x0A] @ ''with MPLS Labels'', ''MPLS''),
     (''Network Layer Reachability Information used     '' @ [CHR 0x0A] @ ''for Dynamic Placement of Multi-Segment Pseudowires'', ''DYN_PLACEMENT_MULTI_SEGMENT_PW''),
     (''Virtual Private LAN Service (VPLS)'', ''VPLS''),
     (''Layer-1 VPN auto-discovery information'', ''LAYER_1_VPN_AUTO_DISCOVERY_INFO''),
     (''MPLS-labeled VPN address'', ''MPLS_LABELED_VPN_ADDR''),
     (''Multicast for BGP/MPLS IP Virtual Private       '' @ [CHR 0x0A] @ ''Networks (VPNs)'', ''MULTICAST_BGP_MPLS_IP_VPNS'')]"

text \<open>The descriptions of the registry that are broken over two lines are written on one.\<close>

definition safi_originals :: "(string \<times> string) list" where
  "safi_originals = [
     (''Network Layer Reachability Information used     '' @ [CHR 0x0A] @ ''for unicast forwarding'',
       ''Network Layer Reachability Information used for unicast forwarding''),
     (''Network Layer Reachability Information used     '' @ [CHR 0x0A] @ ''for multicast forwarding'',
       ''Network Layer Reachability Information used for multicast forwarding''),
     (''Network Layer Reachability Information (NLRI)   '' @ [CHR 0x0A] @ ''with MPLS Labels'',
       ''Network Layer Reachability Information (NLRI) with MPLS Labels''),
     (''Network Layer Reachability Information used     '' @ [CHR 0x0A] @ ''for Dynamic Placement of Multi-Segment Pseudowires'',
       ''Network Layer Reachability Information used for Dynamic Placement of Multi-Segment Pseudowires''),
     (''Multicast for BGP/MPLS IP Virtual Private       '' @ [CHR 0x0A] @ ''Networks (VPNs)'',
       ''Multicast for BGP/MPLS IP Virtual Private Networks (VPNs)'')]"

definition safi_name :: "string \<Rightarrow> string" where
  "safi_name s =
     (case map_of safi_cases s of
        Some name \<Rightarrow> name
      | None \<Rightarrow>
          let s = cut_at ''('' s;
              s = cut_at '':'' s;
              s = strings_TrimSpace s
          in strings_ToUpper (strings_Replace safi_replacer s))"

definition safi_original :: "string \<Rightarrow> string" where
  "safi_original s = (case map_of safi_originals s of Some s' \<Rightarrow> s' | None \<Rightarrow> s)"

definition safi_const :: "registryRecord \<Rightarrow> constRecord option" where
  "safi_const record =
     (if skipped [''Reserved'', ''Unassigned'', ''OBSOLETE''] (rr_Description record) then None
      else
        case strconv_ParseUint 8 (rr_Value record) of
          None \<Rightarrow> None
        | Some v \<Rightarrow> Some \<lparr>originalName = safi_original (rr_Description record),
                        cr_name = safi_name (rr_Description record), cr_value = v\<rparr>)"

definition safiRegistry_escape :: "safiRegistry \<Rightarrow> constRecord list" where
  "safiRegistry_escape a = List.map_filter safi_const (reg_Records (safi_Registry a))"

section \<open>BGP parameters\<close>

record bgpParametersRecord =
  bp_Value :: string
  bp_Name :: string
  bp_Code :: string

record bgpInnerRegistry =
  inner_Title :: string
  inner_Records :: "bgpParametersRecord list"

record bgpRegistry =
  bgp_Title :: string
  bgp_Records :: "bgpParametersRecord list"
  bgp_Registries :: "bgpInnerRegistry list"

record bgpParametersRegistry =
  par_Title :: string
  par_Updated :: string
  par_Registries :: "bgpRegistry list"

record bgpParametersBlock =
  blk_title :: string
  blk_records :: "constRecord list"

definition pathAttr_replacer :: "(string \<times> string) list" where
  "pathAttr_replacer = [
     ('' '', ''_''),
     (''-'', ''_''),
     (''attribute'', ''ATTR'')]"

definition pathAttr_cases :: "(string \<times> string) list" where
  "pathAttr_cases = [
     (''MULTI_EXIT_DISC'', ''MED''),
     (''IPv6 Address Specific Extended Community'', ''IPV6_ADDR_SPECIFIC_EXTENDED_COMMUNITY''),
     (''BGP-LS Attribute'', ''BGP_LS''),
     (''Only to Customer (OTC)'', ''OTC'')]"

definition pathAttr_name :: "string \<Rightarrow> string" where
  "pathAttr_name s = ''PATH_ATTR_'' @
     (case map_of pathAttr_cases s of
        Some name \<Rightarrow> name
      | None \<Rightarrow> strings_ToUpper (strings_Replace pathAttr_replacer s))"

definition pathAttr_const :: "bgpParametersRecord \<Rightarrow> constRecord option" where
  "pathAttr_const record =
     (if skipped [''Reserved'', ''deprecated'', ''Deprecated'', ''TEMPORARY'', ''Unassigned''] (bp_Code record)
      then None
      else
        case strconv_ParseUint 8 (bp_Value record) of
          None \<Rightarrow> None
        | Some v \<Rightarrow> Some \<lparr>originalName = bp_Code record, cr_name = pathAttr_name (bp_Code record),
                        cr_value = v\<rparr>)"

definition escapePathAttributes :: "bgpParametersRecord list \<Rightarrow> constRecord list" where
  "escapePathAttributes records = List.map_filter pathAttr_const records"

definition notifCode_replacer :: "(string \<times> string) list" where
  "notifCode_replacer = [
     ('' '', ''_''),
     (''-'', ''_''),
     (''Error'', ''ERR''),
     (''Finite State Machine'', ''FSM'')]"

definition notifCode_name :: "string \<Rightarrow> string" where
  "notifCode_name s = ''NOTIF_CODE_'' @
     strings_ToUpper (strings_Replace notifCode_replacer s)"

definition notifCode_const :: "bgpParametersRecord \<Rightarrow> constRecord option" where
  "notifCode_const record =
     (if skipped [''Reserved'', ''Unassigned''] (bp_Name record)
      then None
      else
        case strconv_ParseUint 8 (bp_Value record) of
          None \<Rightarrow> None
        | Some v \<Rightarrow> Some \<lparr>originalName = bp_Name record, cr_name = notifCode_name (bp_Name record),
                        cr_value = v\<rparr>)"

definition escapeNotificationCodes :: "bgpParametersRecord list \<Rightarrow> constRecord list" where
  "escapeNotificationCodes records = List.map_filter notifCode_const records"

definition notifSubcode_replacer :: "(string \<times> string) list" where
  "notifSubcode_replacer = [
     ('' '', ''_''),
     (''-'', ''_''),
     (''Error'', ''ERR''),
     (''Connection'', ''CONN''),
     (''Configuration'', ''CONFIG''),
     (''Maximum'', ''MAX''),
     (''Number'', ''NUM''),
     (''Identifier'', ''ID''),
     (''Attribute'', ''ATTR''),
     (''Parameter'', ''PARAM''),
     (''Administrative'', ''ADMIN''),
     (''Length'', ''LEN'')]"

definition notifSubcode_cases :: "(string \<times> string) list" where
  "notifSubcode_cases = [
     (''Receive Unexpected Message in OpenSent State'', ''RX_UNEXPECTED_MESSAGE_OPENSENT''),
     (''Receive Unexpected Message in OpenConfirm State'', ''RX_UNEXPECTED_MESSAGE_OPENCONFIRM''),
     (''Receive Unexpected Message in Established State'', ''RX_UNEXPECTED_MESSAGE_ESTABLISHED''),
     (''Peer De-configured'', ''PEER_DECONFIGURED'')]"

definition notifSubcode_name :: "string \<Rightarrow> string" where
  "notifSubcode_name s = ''NOTIF_SUBCODE_'' @
     (case map_of notifSubcode_cases s of
        Some name \<Rightarrow> name
      | None \<Rightarrow> strings_ToUpper (strings_Replace notifSubcode_replacer s))"

definition notifSubcode_const :: "bgpParametersRecord \<Rightarrow> constRecord option" where
  "notifSubcode_const record =
     (if skipped [''Reserved'', ''Unassigned'', ''Deprecated'', ''Unspecific'', ''Unspecified Error'', ''TEMPORARY''] (bp_Name record)
      then None
      else
        case strconv_ParseUint 8 (bp_Value record) of
          None \<Rightarrow> None
        | Some v \<Rightarrow> Some \<lparr>originalName = bp_Name record, cr_name = notifSubcode_name (bp_Name record),
                        cr_value = v\<rparr>)"

definition escapeNotificationSubcodes :: "bgpParametersRecord list \<Rightarrow> constRecord list" where
  "escapeNotificationSubcodes records = List.map_filter notifSubcode_const records"

text \<open>
  \<open>codes\<close> maps the value of a NOTIFICATION code to its constant and its subcodes. The subcode
  registries belong to the codes 1, 2, 3, 5, 6 and so on; appending to the subcodes of a code that
  is not in the map dereferences nil.
\<close>

record notifCodeAndSubcodes =
  nc_const :: constRecord
  nc_subcodes :: "constRecord list"

type_synonym codes = "(int, notifCodeAndSubcodes) mapping"

definition add_codes :: "constRecord list \<Rightarrow> codes \<Rightarrow> codes" where
  "add_codes records codes =
     fold (\<lambda>record. Mapping.update (cr_value record) \<lparr>nc_const = record, nc_subcodes = []\<rparr>) records codes"

definition append_subcodes :: "int \<Rightarrow> constRecord list \<Rightarrow> codes \<Rightarrow> codes go" where
  "append_subcodes i records codes =
     (if records = [] then Val codes
      else
        case Mapping.lookup codes i of
          None \<Rightarrow> Fault NilDereference
        | Some c \<Rightarrow> Val (Mapping.update i (c\<lparr>nc_subcodes := nc_subcodes c @ records\<rparr>) codes))"

definition next_code :: "int \<Rightarrow> int" where
  "next_code i = (if i = 3 then i + 2 else i + 1)"

fun escape_subcodes ::
    "int \<Rightarrow> bgpInnerRegistry list \<Rightarrow> bgpParametersBlock list \<Rightarrow> codes \<Rightarrow> (bgpParametersBlock list \<times> codes) go" where
  "escape_subcodes i [] blocks codes = Val (blocks, codes)"
| "escape_subcodes i (innerRegistry # rs) blocks codes =
     (let b = \<lparr>blk_title = inner_Title innerRegistry,
               blk_records = escapeNotificationSubcodes (inner_Records innerRegistry)\<rparr> in
      go_bind (append_subcodes i (blk_records b) codes) (\<lambda>codes.
      escape_subcodes (next_code i) rs (blocks @ [b]) codes))"

fun escape_registries ::
    "bgpRegistry list \<Rightarrow> bgpParametersBlock list \<Rightarrow> codes \<Rightarrow> (bgpParametersBlock list \<times> codes) go" where
  "escape_registries [] blocks codes = Val (blocks, codes)"
| "escape_registries (registry # rs) blocks codes =
     (if bgp_Title registry = ''BGP Path Attributes''
      then escape_registries rs
             (blocks @ [\<lparr>blk_title = bgp_Title registry,
                         blk_records = escapePathAttributes (bgp_Records registry)\<rparr>]) codes
      else if bgp_Title registry = ''BGP Error (Notification) Codes''
      then
        let b = \<lparr>blk_title = bgp_Title registry,
                 blk_records = escapeNotificationCodes (bgp_Records registry)\<rparr>
        in escape_registries rs (blocks @ [b]) (add_codes (blk_records b) codes)
      else if bgp_Title registry = ''BGP Error Subcodes''
      then go_bind (escape_subcodes 1 (bgp_Registries registry) blocks codes) (\<lambda>(blocks, codes).
           escape_registries rs blocks codes)
      else escape_registries rs blocks codes)"

text \<open>
  \<open>ks\<close> is the order in which Go visits the map. \<open>sort.Slice\<close> returns the sorted permutation, which
  is unique as the values are distinct.
\<close>

definition bgpParametersRegistry_escape ::
    "int list \<Rightarrow> bgpParametersRegistry \<Rightarrow> (bgpParametersBlock list \<times> notifCodeAndSubcodes list) go option" where
  "bgpParametersRegistry_escape ks a =
     (case escape_registries (par_Registries a) [] Mapping.empty of
        Fault e \<Rightarrow> Some (Fault e)
      | Val (blocks, codes) \<Rightarrow>
          if distinct ks \<and> set ks = Mapping.keys codes
          then Some (Val (blocks, sort_key (\<lambda>c. cr_value (nc_const c))
                 (map (\<lambda>k. the (Mapping.lookup codes k)) ks)))
          else None)"

section \<open>The generated text\<close>

definition newline :: string where
  "newline = [CHR 0x0A]"

definition quoted :: "string \<Rightarrow> string" where
  "quoted s = [CHR 0x22] @ s @ [CHR 0x22]"

definition block_header :: "string \<Rightarrow> string \<Rightarrow> string" where
  "block_header title updated = ''// '' @ title @ '', Updated: '' @ updated @ newline @ ''const('' @ newline"

definition const_line :: "string \<Rightarrow> string \<Rightarrow> constRecord \<Rightarrow> string" where
  "const_line pre ty cr =
     pre @ cr_name cr @ '' '' @ ty @ '' = '' @ fmt_d (nat (cr_value cr)) @ ''// '' @ originalName cr @ newline"

definition const_block :: "string \<Rightarrow> string \<Rightarrow> string \<Rightarrow> string \<Rightarrow> constRecord list \<Rightarrow> string" where
  "const_block title updated pre ty crs =
     block_header title updated @ concat (map (const_line pre ty) crs) @ '')'' @ newline"

text \<open>
  Each \<open>parse\<close> function returns what it writes and its error. \<open>dec\<close> is \<open>xml.Decoder.Decode\<close> on
  the body that was read.
\<close>

definition parseCapabilityRegistry ::
    "(string \<Rightarrow> error + capabilityRegistry) \<Rightarrow> string \<Rightarrow> string \<times> error option" where
  "parseCapabilityRegistry dec r =
     (case dec r of
        Inl err \<Rightarrow> ([], Some err)
      | Inr c \<Rightarrow> (const_block (cap_Title c) (cap_Updated c) ''CAP_'' ''uint8'' (capabilityRegistry_escape c), None))"

definition parseAFIRegistry ::
    "(string \<Rightarrow> error + afiRegistry) \<Rightarrow> string \<Rightarrow> string \<times> error option" where
  "parseAFIRegistry dec r =
     (case dec r of
        Inl err \<Rightarrow> ([], Some err)
      | Inr a \<Rightarrow> (const_block (afi_Title a) (afi_Updated a) ''AFI_'' ''uint16'' (afiRegistry_escape a), None))"

definition parseSAFIRegistry ::
    "(string \<Rightarrow> error + safiRegistry) \<Rightarrow> string \<Rightarrow> string \<times> error option" where
  "parseSAFIRegistry dec r =
     (case dec r of
        Inl err \<Rightarrow> ([], Some err)
      | Inr s \<Rightarrow> (const_block (safi_Title s) (safi_Updated s) ''SAFI_'' ''uint8'' (safiRegistry_escape s), None))"

definition subcode_entry :: "constRecord \<Rightarrow> string" where
  "subcode_entry cr = cr_name cr @ '': '' @ quoted (originalName cr) @ '','' @ newline"

definition code_entry :: "notifCodeAndSubcodes \<Rightarrow> string" where
  "code_entry code =
     cr_name (nc_const code) @ '': {'' @ newline @
     ''desc: '' @ quoted (originalName (nc_const code)) @ '','' @ newline @
     ''subcodes: map[uint8]string{'' @ newline @
     concat (map subcode_entry (nc_subcodes code)) @
     ''},'' @ newline @ ''},'' @ newline"

definition codes_table :: "notifCodeAndSubcodes list \<Rightarrow> string" where
  "codes_table codes =
     ''type notifCodeDescAndSubcodes struct {'' @ newline @ ''desc string'' @ newline @
     ''subcodes map[uint8]string'' @ newline @ ''}'' @ newline @ ''var ('' @ newline @
     ''notifCodesMap = map[uint8]notifCodeDescAndSubcodes{'' @ newline @
     concat (map code_entry codes) @ ''}'' @ newline @ '')'' @ newline"

definition parseBGPParametersRegistry ::
    "(string \<Rightarrow> error + bgpParametersRegistry) \<Rightarrow> int list \<Rightarrow> string \<Rightarrow> (string \<times> error option) go option" where
  "parseBGPParametersRegistry dec ks r =
     (case dec r of
        Inl err \<Rightarrow> Some (Val ([], Some err))
      | Inr b \<Rightarrow>
          (case bgpParametersRegistry_escape ks b of
             None \<Rightarrow> None
           | Some (Fault e) \<Rightarrow> Some (Fault e)
           | Some (Val (blocks, codes)) \<Rightarrow>
               Some (Val (concat (map (\<lambda>block.
                   const_block (blk_title block) (par_Updated b) [] ''uint8'' (blk_records block)) blocks) @
                 codes_table codes, None))))"

section \<open>The program\<close>

text \<open>
  \<open>get\<close> is the HTTP client, which returns a status and a body, \<open>format\<close> is \<open>format.Source\<close> and
  \<open>write\<close> is \<open>os.WriteFile\<close> on \<open>iana_const.go\<close>. \<open>ks\<close> is the order in which the map of codes is
  visited.
\<close>

type_synonym parseFn = "string \<Rightarrow> (string \<times> error option) go option"

definition registries ::
    "(string \<Rightarrow> error + capabilityRegistry) \<Rightarrow> (string \<Rightarrow> error + afiRegistry) \<Rightarrow>
     (string \<Rightarrow> error + safiRegistry) \<Rightarrow> (string \<Rightarrow> error + bgpParametersRegistry) \<Rightarrow> int list \<Rightarrow>
     (string \<times> parseFn) list" where
  "registries dc da ds db ks = [
     (''https://www.iana.org/assignments/capability-codes/capability-codes.xml'',
        \<lambda>r. Some (Val (parseCapabilityRegistry dc r))),
     (''https://www.iana.org/assignments/address-family-numbers/address-family-numbers.xml'',
        \<lambda>r. Some (Val (parseAFIRegistry da r))),
     (''https://www.iana.org/assignments/safi-namespace/safi-namespace.xml'',
        \<lambda>r. Some (Val (parseSAFIRegistry ds r))),
     (''https://www.iana.org/assignments/bgp-parameters/bgp-parameters.xml'',
        parseBGPParametersRegistry db ks)]"

datatype gen_exit =
    GetError string error
  | BadStatus nat string
  | ParseError string error
  | FormatError error
  | WriteError error
  | Printed string
  | Wrote string

fun gen_loop ::
    "(string \<Rightarrow> error + nat \<times> string) \<Rightarrow> (string \<times> parseFn) list \<Rightarrow> string \<Rightarrow> (gen_exit + string) go option" where
  "gen_loop get [] buf = Some (Val (Inr buf))"
| "gen_loop get ((url, parse) # rs) buf =
     (case get url of
        Inl err \<Rightarrow> Some (Val (Inl (GetError url err)))
      | Inr (status, body) \<Rightarrow>
          if status \<noteq> 200 then Some (Val (Inl (BadStatus status url)))
          else
            case parse body of
              None \<Rightarrow> None
            | Some (Fault e) \<Rightarrow> Some (Fault e)
            | Some (Val (text, Some err)) \<Rightarrow> Some (Val (Inl (ParseError url err)))
            | Some (Val (text, None)) \<Rightarrow> gen_loop get rs (buf @ text @ newline))"

definition gen_header :: string where
  "gen_header =
     ''// go generate iana_gen.go'' @ newline @
     ''// Code generated by the command above; DO NOT EDIT.'' @ newline @ newline @
     ''package corebgp'' @ newline @ newline"

definition gen_main ::
    "(string \<Rightarrow> error + nat \<times> string) \<Rightarrow> (string \<Rightarrow> error + string) \<Rightarrow> (string \<Rightarrow> error option) \<Rightarrow> bool \<Rightarrow>
     (string \<times> parseFn) list \<Rightarrow> gen_exit go option" where
  "gen_main get format write flagPrint rs =
     (case gen_loop get rs gen_header of
        None \<Rightarrow> None
      | Some (Fault e) \<Rightarrow> Some (Fault e)
      | Some (Val (Inl x)) \<Rightarrow> Some (Val x)
      | Some (Val (Inr buf)) \<Rightarrow>
          Some (Val
            (if flagPrint then Printed (buf @ newline)
             else
               case format buf of
                 Inl err \<Rightarrow> FormatError err
               | Inr b \<Rightarrow> (case write b of Some err \<Rightarrow> WriteError err | None \<Rightarrow> Wrote b))))"

end
