(* ===== verification/IanaProps.thy ===== *)
theory IanaProps
  imports IanaGen "HOL-Library.Multiset"
begin

text \<open>
  What the generator guarantees for every registry (the form of the names, the range of the
  values, one table whatever the order of the map), and that the constants and the table of
  \<open>src/iana_const.go\<close> are what it generates from the records the comments of that file name.
\<close>

section \<open>The form of the constants\<close>

definition well_named :: "nat \<Rightarrow> constRecord \<Rightarrow> bool" where
  "well_named bits cr \<longleftrightarrow>
     0 \<le> cr_value cr \<and> cr_value cr < 2 ^ bits \<and> \<not> list_ex lower_case (cr_name cr)"

locale escaper =
  fixes const :: "'r \<Rightarrow> constRecord option"
    and bits :: nat
  assumes const_ok: "const r = Some cr \<Longrightarrow> well_named bits cr"
begin

lemma escaped: "list_all (well_named bits) (List.map_filter const rs)"
  by (auto simp: list_all_iff List.map_filter_def dest: const_ok)

end

definition upper_cases :: "(string \<times> string) list \<Rightarrow> bool" where
  "upper_cases cs = list_all (\<lambda>(s, name). \<not> list_ex lower_case name) cs"

lemma upper_case_of: "upper_cases cs \<Longrightarrow> map_of cs s = Some name \<Longrightarrow> \<not> list_ex lower_case name"
  by (auto simp: upper_cases_def list_all_iff dest: map_of_SomeD)

lemma switches_upper:
  "upper_cases capability_cases" "upper_cases afi_cases" "upper_cases safi_cases"
  "upper_cases pathAttr_cases" "upper_cases notifSubcode_cases"
  by code_simp+

lemma prefixes_upper:
  "\<not> list_ex lower_case ''PATH_ATTR_''" "\<not> list_ex lower_case ''NOTIF_CODE_''"
  "\<not> list_ex lower_case ''NOTIF_SUBCODE_''"
  by code_simp+

lemmas cases_upper = switches_upper [THEN upper_case_of]

lemma name_upper:
  "\<not> list_ex lower_case (capability_name s)" "\<not> list_ex lower_case (afi_name s)"
  "\<not> list_ex lower_case (safi_name s)" "\<not> list_ex lower_case (pathAttr_name s)"
  "\<not> list_ex lower_case (notifCode_name s)" "\<not> list_ex lower_case (notifSubcode_name s)"
  unfolding capability_name_def afi_name_def safi_name_def pathAttr_name_def notifCode_name_def
    notifSubcode_name_def Let_def list_ex_append
  by (simp_all only: ToUpper_no_lower prefixes_upper split: option.split) (auto dest: cases_upper)

interpretation capability: escaper capability_const 8
  by unfold_locales (auto simp: capability_const_def well_named_def name_upper
      split: if_splits option.splits dest: ParseUint_bound)

interpretation afi: escaper afi_const 16
  by unfold_locales (auto simp: afi_const_def well_named_def name_upper
      split: if_splits option.splits dest: ParseUint_bound)

interpretation safi: escaper safi_const 8
  by unfold_locales (auto simp: safi_const_def well_named_def name_upper
      split: if_splits option.splits dest: ParseUint_bound)

interpretation pathAttr: escaper pathAttr_const 8
  by unfold_locales (auto simp: pathAttr_const_def well_named_def name_upper
      split: if_splits option.splits dest: ParseUint_bound)

interpretation notifCode: escaper notifCode_const 8
  by unfold_locales (auto simp: notifCode_const_def well_named_def name_upper
      split: if_splits option.splits dest: ParseUint_bound)

interpretation notifSubcode: escaper notifSubcode_const 8
  by unfold_locales (auto simp: notifSubcode_const_def well_named_def name_upper
      split: if_splits option.splits dest: ParseUint_bound)

lemma capabilities_well_named: "list_all (well_named 8) (capabilityRegistry_escape c)"
  using capability.escaped by (auto simp: capabilityRegistry_escape_def list_all_iff)

section \<open>The codes and their subcodes\<close>

definition good_block :: "bgpParametersBlock \<Rightarrow> bool" where
  "good_block b \<longleftrightarrow> list_all (well_named 8) (blk_records b)"

definition good_codes :: "codes \<Rightarrow> bool" where
  "good_codes codes \<longleftrightarrow>
     finite (Mapping.keys codes) \<and>
     (\<forall>k c. Mapping.lookup codes k = Some c \<longrightarrow>
        cr_value (nc_const c) = k \<and> well_named 8 (nc_const c) \<and> list_all (well_named 8) (nc_subcodes c))"

lemma keys_update: "Mapping.keys (Mapping.update k v m) = insert k (Mapping.keys m)"
  by transfer simp

lemma lookup_update_if: "Mapping.lookup (Mapping.update k v m) k' = (if k' = k then Some v else Mapping.lookup m k')"
  by transfer simp

lemma good_codes_empty: "good_codes Mapping.empty"
  by (simp add: good_codes_def)

lemma good_codes_update:
  "good_codes m \<Longrightarrow> cr_value (nc_const c) = k \<Longrightarrow> well_named 8 (nc_const c) \<Longrightarrow>
   list_all (well_named 8) (nc_subcodes c) \<Longrightarrow> good_codes (Mapping.update k c m)"
  by (simp add: good_codes_def keys_update lookup_update_if)

lemma add_codes_good:
  "good_codes codes \<Longrightarrow> list_all (well_named 8) rs \<Longrightarrow> good_codes (add_codes rs codes)"
  unfolding add_codes_def
  by (induction rs arbitrary: codes) (simp_all add: good_codes_update)

lemma append_subcodes_good:
  assumes "good_codes codes" "list_all (well_named 8) rs" "append_subcodes i rs codes = Val codes'"
  shows "good_codes codes' \<and> Mapping.keys codes' = Mapping.keys codes"
proof (cases "rs = []")
  case True
  with assms show ?thesis by (simp add: append_subcodes_def)
next
  case False
  with assms obtain c where c: "Mapping.lookup codes i = Some c"
    and codes': "codes' = Mapping.update i (c\<lparr>nc_subcodes := nc_subcodes c @ rs\<rparr>) codes"
    by (auto simp: append_subcodes_def split: option.splits)
  moreover from c have "i \<in> Mapping.keys codes" by transfer auto
  ultimately show ?thesis
    using assms(1,2) by (auto simp: keys_update good_codes_def lookup_update_if)
qed

lemma escape_subcodes_good:
  "escape_subcodes i rs blocks codes = Val (blocks', codes') \<Longrightarrow> good_codes codes \<Longrightarrow>
   list_all good_block blocks \<Longrightarrow> good_codes codes' \<and> list_all good_block blocks'"
proof (induction i rs blocks codes rule: escape_subcodes.induct)
  case (2 i innerRegistry rs blocks codes)
  let ?rs = "escapeNotificationSubcodes (inner_Records innerRegistry)"
  from 2(2) obtain codes1 where s: "append_subcodes i ?rs codes = Val codes1"
    and r: "escape_subcodes (next_code i) rs
        (blocks @ [\<lparr>blk_title = inner_Title innerRegistry, blk_records = ?rs\<rparr>]) codes1 = Val (blocks', codes')"
    by (auto simp: Let_def go_bind_Val_iff)
  have w: "list_all (well_named 8) ?rs" by (simp add: escapeNotificationSubcodes_def notifSubcode.escaped)
  from append_subcodes_good [OF 2(3) w s] 2(4) w show ?case
    by (intro 2(1) [OF refl _ r]) (use s in \<open>simp_all add: good_block_def\<close>)
qed simp

lemma escape_registries_good:
  "escape_registries rs blocks codes = Val (blocks', codes') \<Longrightarrow> good_codes codes \<Longrightarrow>
   list_all good_block blocks \<Longrightarrow> good_codes codes' \<and> list_all good_block blocks'"
proof (induction rs blocks codes rule: escape_registries.induct)
  case (2 registry rs blocks codes)
  note IH = 2(1-4) and e = 2(5) and g = 2(6,7)
  have p: "good_block \<lparr>blk_title = t, blk_records = escapePathAttributes r\<rparr>" for t r
    by (simp add: good_block_def escapePathAttributes_def pathAttr.escaped)
  have n: "list_all (well_named 8) (escapeNotificationCodes r)" for r
    by (simp add: escapeNotificationCodes_def notifCode.escaped)
  consider "bgp_Title registry = ''BGP Path Attributes''"
    | "bgp_Title registry = ''BGP Error (Notification) Codes''"
    | "bgp_Title registry = ''BGP Error Subcodes''"
    | "bgp_Title registry \<noteq> ''BGP Path Attributes''" "bgp_Title registry \<noteq> ''BGP Error (Notification) Codes''"
      "bgp_Title registry \<noteq> ''BGP Error Subcodes''" by blast
  then show ?case
  proof cases
    case 1
    with IH(1) e g p show ?thesis by simp
  next
    case 2
    with IH(2) e g n add_codes_good show ?thesis by (simp add: Let_def good_block_def)
  next
    case 3
    with e obtain b c where s: "escape_subcodes 1 (bgp_Registries registry) blocks codes = Val (b, c)"
      and r: "escape_registries rs b c = Val (blocks', codes')" by (auto simp: go_bind_Val_iff)
    have "good_codes c" "list_all good_block b" using escape_subcodes_good [OF s g] by blast+
    then show ?thesis by (intro IH(3) [OF _ _ _ s refl r]) (simp_all add: 3)
  next
    case 4
    with IH(4) e g show ?thesis by simp
  qed
qed simp

text \<open>The order in which the map is visited does not matter.\<close>

lemma sort_key_map_inverse:
  assumes "\<And>k. k \<in> set ks \<Longrightarrow> f (g k) = k"
  shows "sort_key f (map g ks) = map g (sort ks)"
proof (rule sort_key_inj_key_eq)
  show "mset (map g ks) = mset (map g (sort ks))" by simp
  show "inj_on f (set (map g ks))" using assms by (auto simp: inj_on_def)
  have "map (f \<circ> g) (sort ks) = map id (sort ks)" using assms by (intro map_cong) simp_all
  then show "sorted (map f (map g (sort ks)))" by simp
qed

lemma visited_codes:
  assumes "good_codes codes" "distinct ks" "set ks = Mapping.keys codes"
  shows "sort_key (\<lambda>c. cr_value (nc_const c)) (map (\<lambda>k. the (Mapping.lookup codes k)) ks) =
    map (\<lambda>k. the (Mapping.lookup codes k)) (sorted_list_of_set (Mapping.keys codes))"
proof -
  have "cr_value (nc_const (the (Mapping.lookup codes k))) = k" if "k \<in> set ks" for k
    using that assms by (cases "Mapping.lookup codes k") (auto simp: good_codes_def keys_dom_lookup)
  moreover have "sort ks = sorted_list_of_set (Mapping.keys codes)"
    using assms by (metis sorted_list_of_set_sort_remdups distinct_remdups_id)
  ultimately show ?thesis by (subst sort_key_map_inverse) simp_all
qed

lemma bgpParameters_escape_cases:
  assumes "bgpParametersRegistry_escape ks b = Some r"
  obtains (fault) e where "escape_registries (par_Registries b) [] Mapping.empty = Fault e" "r = Fault e"
  | (codes) blocks m where "escape_registries (par_Registries b) [] Mapping.empty = Val (blocks, m)"
      "good_codes m" "list_all good_block blocks"
      "r = Val (blocks, map (\<lambda>k. the (Mapping.lookup m k)) (sorted_list_of_set (Mapping.keys m)))"
proof (cases "escape_registries (par_Registries b) [] Mapping.empty")
  case (Fault e)
  with assms fault show ?thesis by (simp add: bgpParametersRegistry_escape_def)
next
  case (Val x)
  obtain blocks m where x: "x = (blocks, m)" by (cases x)
  from escape_registries_good [OF Val [unfolded x] good_codes_empty]
  have g: "good_codes m" "list_all good_block blocks" by simp_all
  moreover have "r = Val (blocks, map (\<lambda>k. the (Mapping.lookup m k)) (sorted_list_of_set (Mapping.keys m)))"
    using assms Val x g(1) by (auto simp: bgpParametersRegistry_escape_def visited_codes split: if_splits)
  ultimately show ?thesis using Val x by (intro codes) simp_all
qed

lemma bgpParameters_escape_unique:
  assumes "bgpParametersRegistry_escape ks b = Some r" "bgpParametersRegistry_escape ks' b = Some r'"
  shows "r = r'"
  using assms(1)
  by (cases rule: bgpParameters_escape_cases)
     (use assms(2) in \<open>auto elim: bgpParameters_escape_cases\<close>)

lemma codes_well_named:
  assumes "good_codes m"
  shows "list_all (\<lambda>c. well_named 8 (nc_const c) \<and> list_all (well_named 8) (nc_subcodes c))
      (map (\<lambda>k. the (Mapping.lookup m k)) (sorted_list_of_set (Mapping.keys m)))"
    and "map (\<lambda>c. cr_value (nc_const c))
      (map (\<lambda>k. the (Mapping.lookup m k)) (sorted_list_of_set (Mapping.keys m))) =
      sorted_list_of_set (Mapping.keys m)"
proof -
  have g: "cr_value (nc_const (the (Mapping.lookup m k))) = k \<and> well_named 8 (nc_const (the (Mapping.lookup m k))) \<and>
      list_all (well_named 8) (nc_subcodes (the (Mapping.lookup m k)))" if "k \<in> Mapping.keys m" for k
    using that assms by (cases "Mapping.lookup m k") (auto simp: good_codes_def keys_dom_lookup)
  have f: "finite (Mapping.keys m)" using assms by (simp add: good_codes_def)
  with g show "list_all (\<lambda>c. well_named 8 (nc_const c) \<and> list_all (well_named 8) (nc_subcodes c))
      (map (\<lambda>k. the (Mapping.lookup m k)) (sorted_list_of_set (Mapping.keys m)))"
    by (simp add: list_all_iff)
  show "map (\<lambda>c. cr_value (nc_const c))
      (map (\<lambda>k. the (Mapping.lookup m k)) (sorted_list_of_set (Mapping.keys m))) =
      sorted_list_of_set (Mapping.keys m)"
    using f g by (auto intro: map_idI)
qed

section \<open>The records of the constants file\<close>

definition capability_records :: "registryRecord list" where
  \<open>capability_records = [
     \<lparr>rr_Value = ''1'', rr_Description = ''Multiprotocol Extensions for BGP-4''\<rparr>,
     \<lparr>rr_Value = ''2'', rr_Description = ''Route Refresh Capability for BGP-4''\<rparr>,
     \<lparr>rr_Value = ''3'', rr_Description = ''Outbound Route Filtering Capability''\<rparr>,
     \<lparr>rr_Value = ''5'', rr_Description = ''Extended Next Hop Encoding''\<rparr>,
     \<lparr>rr_Value = ''6'', rr_Description = ''BGP Extended Message''\<rparr>,
     \<lparr>rr_Value = ''7'', rr_Description = ''BGPsec Capability''\<rparr>,
     \<lparr>rr_Value = ''8'', rr_Description = ''Multiple Labels Capability''\<rparr>,
     \<lparr>rr_Value = ''9'', rr_Description = ''BGP Role''\<rparr>,
     \<lparr>rr_Value = ''64'', rr_Description = ''Graceful Restart Capability''\<rparr>,
     \<lparr>rr_Value = ''65'', rr_Description = ''Support for 4-octet AS number capability''\<rparr>,
     \<lparr>rr_Value = ''67'', rr_Description = ''Support for Dynamic Capability (capability specific)''\<rparr>,
     \<lparr>rr_Value = ''68'', rr_Description = ''Multisession BGP Capability''\<rparr>,
     \<lparr>rr_Value = ''69'', rr_Description = ''ADD-PATH Capability''\<rparr>,
     \<lparr>rr_Value = ''70'', rr_Description = ''Enhanced Route Refresh Capability''\<rparr>,
     \<lparr>rr_Value = ''71'', rr_Description = ''Long-Lived Graceful Restart (LLGR) Capability''\<rparr>,
     \<lparr>rr_Value = ''72'', rr_Description = ''Routing Policy Distribution''\<rparr>,
     \<lparr>rr_Value = ''73'', rr_Description = ''FQDN Capability''\<rparr>,
     \<lparr>rr_Value = ''74'', rr_Description = ''BFD Capability''\<rparr>,
     \<lparr>rr_Value = ''75'', rr_Description = ''Software Version Capability''\<rparr>]\<close>

definition afi_records :: "registryRecord list" where
  \<open>afi_records = [
     \<lparr>rr_Value = ''1'', rr_Description = ''IP (IP version 4)''\<rparr>,
     \<lparr>rr_Value = ''2'', rr_Description = ''IP6 (IP version 6)''\<rparr>,
     \<lparr>rr_Value = ''3'', rr_Description = ''NSAP''\<rparr>,
     \<lparr>rr_Value = ''4'', rr_Description = ''HDLC (8-bit multidrop)''\<rparr>,
     \<lparr>rr_Value = ''5'', rr_Description = ''BBN 1822''\<rparr>,
     \<lparr>rr_Value = ''6'', rr_Description = ''802 (includes all 802 media plus Ethernet "canonical format")''\<rparr>,
     \<lparr>rr_Value = ''7'', rr_Description = ''E.163''\<rparr>,
     \<lparr>rr_Value = ''8'', rr_Description = ''E.164 (SMDS, Frame Relay, ATM)''\<rparr>,
     \<lparr>rr_Value = ''9'', rr_Description = ''F.69 (Telex)''\<rparr>,
     \<lparr>rr_Value = ''10'', rr_Description = ''X.121 (X.25, Frame Relay)''\<rparr>,
     \<lparr>rr_Value = ''11'', rr_Description = ''IPX''\<rparr>,
     \<lparr>rr_Value = ''12'', rr_Description = ''Appletalk''\<rparr>,
     \<lparr>rr_Value = ''13'', rr_Description = ''Decnet IV''\<rparr>,
     \<lparr>rr_Value = ''14'', rr_Description = ''Banyan Vines''\<rparr>,
     \<lparr>rr_Value = ''15'', rr_Description = ''E.164 with NSAP format subaddress''\<rparr>,
     \<lparr>rr_Value = ''16'', rr_Description = ''DNS (Domain Name System)''\<rparr>,
     \<lparr>rr_Value = ''17'', rr_Description = ''Distinguished Name''\<rparr>,
     \<lparr>rr_Value = ''18'', rr_Description = ''AS Number''\<rparr>,
     \<lparr>rr_Value = ''19'', rr_Description = ''XTP over IP version 4''\<rparr>,
     \<lparr>rr_Value = ''20'', rr_Description = ''XTP over IP version 6''\<rparr>,
     \<lparr>rr_Value = ''21'', rr_Description = ''XTP native mode XTP''\<rparr>,
     \<lparr>rr_Value = ''22'', rr_Description = ''Fibre Channel World-Wide Port Name''\<rparr>,
     \<lparr>rr_Value = ''23'', rr_Description = ''Fibre Channel World-Wide Node Name''\<rparr>,
     \<lparr>rr_Value = ''24'', rr_Description = ''GWID''\<rparr>,
     \<lparr>rr_Value = ''25'', rr_Description = ''AFI for L2VPN information''\<rparr>,
     \<lparr>rr_Value = ''26'', rr_Description = ''MPLS-TP Section Endpoint Identifier''\<rparr>,
     \<lparr>rr_Value = ''27'', rr_Description = ''MPLS-TP LSP Endpoint Identifier''\<rparr>,
     \<lparr>rr_Value = ''28'', rr_Description = ''MPLS-TP Pseudowire Endpoint Identifier''\<rparr>,
     \<lparr>rr_Value = ''29'', rr_Description = ''MT IP: Multi-Topology IP version 4''\<rparr>,
     \<lparr>rr_Value = ''30'', rr_Description = ''MT IPv6: Multi-Topology IP version 6''\<rparr>,
     \<lparr>rr_Value = ''31'', rr_Description = ''BGP SFC''\<rparr>,
     \<lparr>rr_Value = ''16384'', rr_Description = ''EIGRP Common Service Family''\<rparr>,
     \<lparr>rr_Value = ''16385'', rr_Description = ''EIGRP IPv4 Service Family''\<rparr>,
     \<lparr>rr_Value = ''16386'', rr_Description = ''EIGRP IPv6 Service Family''\<rparr>,
     \<lparr>rr_Value = ''16387'', rr_Description = ''LISP Canonical Address Format (LCAF)''\<rparr>,
     \<lparr>rr_Value = ''16388'', rr_Description = ''BGP-LS''\<rparr>,
     \<lparr>rr_Value = ''16389'', rr_Description = ''48-bit MAC''\<rparr>,
     \<lparr>rr_Value = ''16390'', rr_Description = ''64-bit MAC''\<rparr>,
     \<lparr>rr_Value = ''16391'', rr_Description = ''OUI''\<rparr>,
     \<lparr>rr_Value = ''16392'', rr_Description = ''MAC/24''\<rparr>,
     \<lparr>rr_Value = ''16393'', rr_Description = ''MAC/40''\<rparr>,
     \<lparr>rr_Value = ''16394'', rr_Description = ''IPv6/64''\<rparr>,
     \<lparr>rr_Value = ''16395'', rr_Description = ''RBridge Port ID''\<rparr>,
     \<lparr>rr_Value = ''16396'', rr_Description = ''TRILL Nickname''\<rparr>,
     \<lparr>rr_Value = ''16397'', rr_Description = ''Universally Unique Identifier (UUID)''\<rparr>,
     \<lparr>rr_Value = ''16398'', rr_Description = ''Routing Policy AFI''\<rparr>,
     \<lparr>rr_Value = ''16399'', rr_Description = ''MPLS Namespaces''\<rparr>]\<close>

definition safi_records :: "registryRecord list" where
  \<open>safi_records = [
     \<lparr>rr_Value = ''1'', rr_Description = ''Network Layer Reachability Information used     '' @ [CHR 0x0A] @ ''for unicast forwarding''\<rparr>,
     \<lparr>rr_Value = ''2'', rr_Description = ''Network Layer Reachability Information used     '' @ [CHR 0x0A] @ ''for multicast forwarding''\<rparr>,
     \<lparr>rr_Value = ''4'', rr_Description = ''Network Layer Reachability Information (NLRI)   '' @ [CHR 0x0A] @ ''with MPLS Labels''\<rparr>,
     \<lparr>rr_Value = ''5'', rr_Description = ''MCAST-VPN''\<rparr>,
     \<lparr>rr_Value = ''6'', rr_Description = ''Network Layer Reachability Information used     '' @ [CHR 0x0A] @ ''for Dynamic Placement of Multi-Segment Pseudowires''\<rparr>,
     \<lparr>rr_Value = ''8'', rr_Description = ''MCAST-VPLS''\<rparr>,
     \<lparr>rr_Value = ''9'', rr_Description = ''BGP SFC''\<rparr>,
     \<lparr>rr_Value = ''64'', rr_Description = ''Tunnel SAFI''\<rparr>,
     \<lparr>rr_Value = ''65'', rr_Description = ''Virtual Private LAN Service (VPLS)''\<rparr>,
     \<lparr>rr_Value = ''66'', rr_Description = ''BGP MDT SAFI''\<rparr>,
     \<lparr>rr_Value = ''67'', rr_Description = ''BGP 4over6 SAFI''\<rparr>,
     \<lparr>rr_Value = ''68'', rr_Description = ''BGP 6over4 SAFI''\<rparr>,
     \<lparr>rr_Value = ''69'', rr_Description = ''Layer-1 VPN auto-discovery information''\<rparr>,
     \<lparr>rr_Value = ''70'', rr_Description = ''BGP EVPNs''\<rparr>,
     \<lparr>rr_Value = ''71'', rr_Description = ''BGP-LS''\<rparr>,
     \<lparr>rr_Value = ''72'', rr_Description = ''BGP-LS-VPN''\<rparr>,
     \<lparr>rr_Value = ''73'', rr_Description = ''SR TE Policy SAFI''\<rparr>,
     \<lparr>rr_Value = ''74'', rr_Description = ''SD-WAN Capabilities''\<rparr>,
     \<lparr>rr_Value = ''75'', rr_Description = ''Routing Policy SAFI''\<rparr>,
     \<lparr>rr_Value = ''76'', rr_Description = ''Classful-Transport SAFI''\<rparr>,
     \<lparr>rr_Value = ''77'', rr_Description = ''Tunneled Traffic Flowspec''\<rparr>,
     \<lparr>rr_Value = ''78'', rr_Description = ''MCAST-TREE''\<rparr>,
     \<lparr>rr_Value = ''79'', rr_Description = ''BGP-DPS (Dynamic Path Selection)''\<rparr>,
     \<lparr>rr_Value = ''80'', rr_Description = ''BGP-LS-SPF''\<rparr>,
     \<lparr>rr_Value = ''83'', rr_Description = ''BGP CAR''\<rparr>,
     \<lparr>rr_Value = ''84'', rr_Description = ''BGP VPN CAR''\<rparr>,
     \<lparr>rr_Value = ''85'', rr_Description = ''BGP-MUP SAFI''\<rparr>,
     \<lparr>rr_Value = ''128'', rr_Description = ''MPLS-labeled VPN address''\<rparr>,
     \<lparr>rr_Value = ''129'', rr_Description = ''Multicast for BGP/MPLS IP Virtual Private       '' @ [CHR 0x0A] @ ''Networks (VPNs)''\<rparr>,
     \<lparr>rr_Value = ''132'', rr_Description = ''Route Target constrains''\<rparr>,
     \<lparr>rr_Value = ''133'', rr_Description = ''Dissemination of Flow Specification rules''\<rparr>,
     \<lparr>rr_Value = ''134'', rr_Description = ''L3VPN Dissemination of Flow Specification rules''\<rparr>,
     \<lparr>rr_Value = ''140'', rr_Description = ''VPN auto-discovery''\<rparr>]\<close>

definition pathAttr_records :: "bgpParametersRecord list" where
  \<open>pathAttr_records = [
     \<lparr>bp_Value = ''1'', bp_Name = [], bp_Code = ''ORIGIN''\<rparr>,
     \<lparr>bp_Value = ''2'', bp_Name = [], bp_Code = ''AS_PATH''\<rparr>,
     \<lparr>bp_Value = ''3'', bp_Name = [], bp_Code = ''NEXT_HOP''\<rparr>,
     \<lparr>bp_Value = ''4'', bp_Name = [], bp_Code = ''MULTI_EXIT_DISC''\<rparr>,
     \<lparr>bp_Value = ''5'', bp_Name = [], bp_Code = ''LOCAL_PREF''\<rparr>,
     \<lparr>bp_Value = ''6'', bp_Name = [], bp_Code = ''ATOMIC_AGGREGATE''\<rparr>,
     \<lparr>bp_Value = ''7'', bp_Name = [], bp_Code = ''AGGREGATOR''\<rparr>,
     \<lparr>bp_Value = ''8'', bp_Name = [], bp_Code = ''COMMUNITY''\<rparr>,
     \<lparr>bp_Value = ''9'', bp_Name = [], bp_Code = ''ORIGINATOR_ID''\<rparr>,
     \<lparr>bp_Value = ''10'', bp_Name = [], bp_Code = ''CLUSTER_LIST''\<rparr>,
     \<lparr>bp_Value = ''14'', bp_Name = [], bp_Code = ''MP_REACH_NLRI''\<rparr>,
     \<lparr>bp_Value = ''15'', bp_Name = [], bp_Code = ''MP_UNREACH_NLRI''\<rparr>,
     \<lparr>bp_Value = ''16'', bp_Name = [], bp_Code = ''EXTENDED COMMUNITIES''\<rparr>,
     \<lparr>bp_Value = ''17'', bp_Name = [], bp_Code = ''AS4_PATH''\<rparr>,
     \<lparr>bp_Value = ''18'', bp_Name = [], bp_Code = ''AS4_AGGREGATOR''\<rparr>,
     \<lparr>bp_Value = ''22'', bp_Name = [], bp_Code = ''PMSI_TUNNEL''\<rparr>,
     \<lparr>bp_Value = ''23'', bp_Name = [], bp_Code = ''Tunnel Encapsulation''\<rparr>,
     \<lparr>bp_Value = ''24'', bp_Name = [], bp_Code = ''Traffic Engineering''\<rparr>,
     \<lparr>bp_Value = ''25'', bp_Name = [], bp_Code = ''IPv6 Address Specific Extended Community''\<rparr>,
     \<lparr>bp_Value = ''26'', bp_Name = [], bp_Code = ''AIGP''\<rparr>,
     \<lparr>bp_Value = ''27'', bp_Name = [], bp_Code = ''PE Distinguisher Labels''\<rparr>,
     \<lparr>bp_Value = ''29'', bp_Name = [], bp_Code = ''BGP-LS Attribute''\<rparr>,
     \<lparr>bp_Value = ''32'', bp_Name = [], bp_Code = ''LARGE_COMMUNITY''\<rparr>,
     \<lparr>bp_Value = ''33'', bp_Name = [], bp_Code = ''BGPsec_Path''\<rparr>,
     \<lparr>bp_Value = ''35'', bp_Name = [], bp_Code = ''Only to Customer (OTC)''\<rparr>,
     \<lparr>bp_Value = ''37'', bp_Name = [], bp_Code = ''SFP attribute''\<rparr>,
     \<lparr>bp_Value = ''38'', bp_Name = [], bp_Code = ''BFD Discriminator''\<rparr>,
     \<lparr>bp_Value = ''40'', bp_Name = [], bp_Code = ''BGP Prefix-SID''\<rparr>,
     \<lparr>bp_Value = ''128'', bp_Name = [], bp_Code = ''ATTR_SET''\<rparr>]\<close>

definition notifCode_records :: "bgpParametersRecord list" where
  \<open>notifCode_records = [
     \<lparr>bp_Value = ''1'', bp_Name = ''Message Header Error'', bp_Code = []\<rparr>,
     \<lparr>bp_Value = ''2'', bp_Name = ''OPEN Message Error'', bp_Code = []\<rparr>,
     \<lparr>bp_Value = ''3'', bp_Name = ''UPDATE Message Error'', bp_Code = []\<rparr>,
     \<lparr>bp_Value = ''4'', bp_Name = ''Hold Timer Expired'', bp_Code = []\<rparr>,
     \<lparr>bp_Value = ''5'', bp_Name = ''Finite State Machine Error'', bp_Code = []\<rparr>,
     \<lparr>bp_Value = ''6'', bp_Name = ''Cease'', bp_Code = []\<rparr>,
     \<lparr>bp_Value = ''7'', bp_Name = ''ROUTE-REFRESH Message Error'', bp_Code = []\<rparr>]\<close>

definition header_subcode_records :: "bgpParametersRecord list" where
  \<open>header_subcode_records = [
     \<lparr>bp_Value = ''1'', bp_Name = ''Connection Not Synchronized'', bp_Code = []\<rparr>,
     \<lparr>bp_Value = ''2'', bp_Name = ''Bad Message Length'', bp_Code = []\<rparr>,
     \<lparr>bp_Value = ''3'', bp_Name = ''Bad Message Type'', bp_Code = []\<rparr>]\<close>

definition open_subcode_records :: "bgpParametersRecord list" where
  \<open>open_subcode_records = [
     \<lparr>bp_Value = ''1'', bp_Name = ''Unsupported Version Number'', bp_Code = []\<rparr>,
     \<lparr>bp_Value = ''2'', bp_Name = ''Bad Peer AS'', bp_Code = []\<rparr>,
     \<lparr>bp_Value = ''3'', bp_Name = ''Bad BGP Identifier'', bp_Code = []\<rparr>,
     \<lparr>bp_Value = ''4'', bp_Name = ''Unsupported Optional Parameter'', bp_Code = []\<rparr>,
     \<lparr>bp_Value = ''6'', bp_Name = ''Unacceptable Hold Time'', bp_Code = []\<rparr>,
     \<lparr>bp_Value = ''7'', bp_Name = ''Unsupported Capability'', bp_Code = []\<rparr>,
     \<lparr>bp_Value = ''11'', bp_Name = ''Role Mismatch'', bp_Code = []\<rparr>]\<close>

definition update_subcode_records :: "bgpParametersRecord list" where
  \<open>update_subcode_records = [
     \<lparr>bp_Value = ''1'', bp_Name = ''Malformed Attribute List'', bp_Code = []\<rparr>,
     \<lparr>bp_Value = ''2'', bp_Name = ''Unrecognized Well-known Attribute'', bp_Code = []\<rparr>,
     \<lparr>bp_Value = ''3'', bp_Name = ''Missing Well-known Attribute'', bp_Code = []\<rparr>,
     \<lparr>bp_Value = ''4'', bp_Name = ''Attribute Flags Error'', bp_Code = []\<rparr>,
     \<lparr>bp_Value = ''5'', bp_Name = ''Attribute Length Error'', bp_Code = []\<rparr>,
     \<lparr>bp_Value = ''6'', bp_Name = ''Invalid ORIGIN Attribute'', bp_Code = []\<rparr>,
     \<lparr>bp_Value = ''8'', bp_Name = ''Invalid NEXT_HOP Attribute'', bp_Code = []\<rparr>,
     \<lparr>bp_Value = ''9'', bp_Name = ''Optional Attribute Error'', bp_Code = []\<rparr>,
     \<lparr>bp_Value = ''10'', bp_Name = ''Invalid Network Field'', bp_Code = []\<rparr>,
     \<lparr>bp_Value = ''11'', bp_Name = ''Malformed AS_PATH'', bp_Code = []\<rparr>]\<close>

definition fsm_subcode_records :: "bgpParametersRecord list" where
  \<open>fsm_subcode_records = [
     \<lparr>bp_Value = ''1'', bp_Name = ''Receive Unexpected Message in OpenSent State'', bp_Code = []\<rparr>,
     \<lparr>bp_Value = ''2'', bp_Name = ''Receive Unexpected Message in OpenConfirm State'', bp_Code = []\<rparr>,
     \<lparr>bp_Value = ''3'', bp_Name = ''Receive Unexpected Message in Established State'', bp_Code = []\<rparr>]\<close>

definition cease_subcode_records :: "bgpParametersRecord list" where
  \<open>cease_subcode_records = [
     \<lparr>bp_Value = ''1'', bp_Name = ''Maximum Number of Prefixes Reached'', bp_Code = []\<rparr>,
     \<lparr>bp_Value = ''2'', bp_Name = ''Administrative Shutdown'', bp_Code = []\<rparr>,
     \<lparr>bp_Value = ''3'', bp_Name = ''Peer De-configured'', bp_Code = []\<rparr>,
     \<lparr>bp_Value = ''4'', bp_Name = ''Administrative Reset'', bp_Code = []\<rparr>,
     \<lparr>bp_Value = ''5'', bp_Name = ''Connection Rejected'', bp_Code = []\<rparr>,
     \<lparr>bp_Value = ''6'', bp_Name = ''Other Configuration Change'', bp_Code = []\<rparr>,
     \<lparr>bp_Value = ''7'', bp_Name = ''Connection Collision Resolution'', bp_Code = []\<rparr>,
     \<lparr>bp_Value = ''8'', bp_Name = ''Out of Resources'', bp_Code = []\<rparr>,
     \<lparr>bp_Value = ''9'', bp_Name = ''Hard Reset'', bp_Code = []\<rparr>,
     \<lparr>bp_Value = ''10'', bp_Name = ''BFD Down'', bp_Code = []\<rparr>]\<close>

definition refresh_subcode_records :: "bgpParametersRecord list" where
  \<open>refresh_subcode_records = [
     \<lparr>bp_Value = ''1'', bp_Name = ''Invalid Message Length'', bp_Code = []\<rparr>]\<close>

section \<open>The constants of the file\<close>

definition capability_constants :: "(string \<times> int) list" where
  "capability_constants = [
     (''CAP_MP_EXTENSIONS'', uint CAP_MP_EXTENSIONS),
     (''CAP_ROUTE_REFRESH'', uint CAP_ROUTE_REFRESH),
     (''CAP_OUTBOUND_ROUTE_FILTERING'', uint CAP_OUTBOUND_ROUTE_FILTERING),
     (''CAP_EXTENDED_NEXT_HOP_ENCODING'', uint CAP_EXTENDED_NEXT_HOP_ENCODING),
     (''CAP_EXTENDED_MESSSAGE'', uint CAP_EXTENDED_MESSSAGE),
     (''CAP_BGPSEC'', uint CAP_BGPSEC),
     (''CAP_MULTIPLE_LABELS'', uint CAP_MULTIPLE_LABELS),
     (''CAP_ROLE'', uint CAP_ROLE),
     (''CAP_GRACEFUL_RESTART'', uint CAP_GRACEFUL_RESTART),
     (''CAP_FOUR_OCTET_AS'', uint CAP_FOUR_OCTET_AS),
     (''CAP_DYNAMIC'', uint CAP_DYNAMIC),
     (''CAP_MULTISESSION'', uint CAP_MULTISESSION),
     (''CAP_ADD_PATH'', uint CAP_ADD_PATH),
     (''CAP_ENHANCED_ROUTE_REFRESH'', uint CAP_ENHANCED_ROUTE_REFRESH),
     (''CAP_LLGR'', uint CAP_LLGR),
     (''CAP_ROUTING_POLICY_DIST'', uint CAP_ROUTING_POLICY_DIST),
     (''CAP_FQDN'', uint CAP_FQDN),
     (''CAP_BFD'', uint CAP_BFD),
     (''CAP_SOFTWARE_VERSION'', uint CAP_SOFTWARE_VERSION)]"

definition afi_constants :: "(string \<times> int) list" where
  "afi_constants = [
     (''AFI_IPV4'', uint AFI_IPV4),
     (''AFI_IPV6'', uint AFI_IPV6),
     (''AFI_NSAP'', uint AFI_NSAP),
     (''AFI_HDLC'', uint AFI_HDLC),
     (''AFI_BBN_1822'', uint AFI_BBN_1822),
     (''AFI_802'', uint AFI_802),
     (''AFI_E163'', uint AFI_E163),
     (''AFI_E164'', uint AFI_E164),
     (''AFI_F69'', uint AFI_F69),
     (''AFI_X121'', uint AFI_X121),
     (''AFI_IPX'', uint AFI_IPX),
     (''AFI_APPLETALK'', uint AFI_APPLETALK),
     (''AFI_DECNET_IV'', uint AFI_DECNET_IV),
     (''AFI_BANYAN_VINES'', uint AFI_BANYAN_VINES),
     (''AFI_E164_WITH_NSAP_SUBADDR'', uint AFI_E164_WITH_NSAP_SUBADDR),
     (''AFI_DNS'', uint AFI_DNS),
     (''AFI_DISTINGUISHED_NAME'', uint AFI_DISTINGUISHED_NAME),
     (''AFI_AS_NUMBER'', uint AFI_AS_NUMBER),
     (''AFI_XTP_OVER_IPV4'', uint AFI_XTP_OVER_IPV4),
     (''AFI_XTP_OVER_IPV6'', uint AFI_XTP_OVER_IPV6),
     (''AFI_XTP_NATIVE'', uint AFI_XTP_NATIVE),
     (''AFI_FIBRE_CHANNEL_WWPN'', uint AFI_FIBRE_CHANNEL_WWPN),
     (''AFI_FIBRE_CHANNEL_WWNN'', uint AFI_FIBRE_CHANNEL_WWNN),
     (''AFI_GWID'', uint AFI_GWID),
     (''AFI_L2VPN_INFO'', uint AFI_L2VPN_INFO),
     (''AFI_MPLS_TP_SECTION_ENDPOINT_ID'', uint AFI_MPLS_TP_SECTION_ENDPOINT_ID),
     (''AFI_MPLS_TP_LSP_ENDPOINT_ID'', uint AFI_MPLS_TP_LSP_ENDPOINT_ID),
     (''AFI_MPLS_TP_PSEUDOWIRE_ENDPOINT_ID'', uint AFI_MPLS_TP_PSEUDOWIRE_ENDPOINT_ID),
     (''AFI_MT_IPV4'', uint AFI_MT_IPV4),
     (''AFI_MT_IPV6'', uint AFI_MT_IPV6),
     (''AFI_BGP_SFC'', uint AFI_BGP_SFC),
     (''AFI_EIGRP_COMMON_SERVICE_FAMILY'', uint AFI_EIGRP_COMMON_SERVICE_FAMILY),
     (''AFI_EIGRP_IPV4_SERVICE_FAMILY'', uint AFI_EIGRP_IPV4_SERVICE_FAMILY),
     (''AFI_EIGRP_IPV6_SERVICE_FAMILY'', uint AFI_EIGRP_IPV6_SERVICE_FAMILY),
     (''AFI_LCAF'', uint AFI_LCAF),
     (''AFI_BGP_LS'', uint AFI_BGP_LS),
     (''AFI_48_BIT_MAC'', uint AFI_48_BIT_MAC),
     (''AFI_64_BIT_MAC'', uint AFI_64_BIT_MAC),
     (''AFI_OUI'', uint AFI_OUI),
     (''AFI_MAC_FINAL_24_BITS'', uint AFI_MAC_FINAL_24_BITS),
     (''AFI_MAC_FINAL_40_BITS'', uint AFI_MAC_FINAL_40_BITS),
     (''AFI_IPV6_INITIAL_64_BITS'', uint AFI_IPV6_INITIAL_64_BITS),
     (''AFI_RBRIDGE_PORT_ID'', uint AFI_RBRIDGE_PORT_ID),
     (''AFI_TRILL_NICKNAME'', uint AFI_TRILL_NICKNAME),
     (''AFI_UUID'', uint AFI_UUID),
     (''AFI_ROUTING_POLICY'', uint AFI_ROUTING_POLICY),
     (''AFI_MPLS_NAMESPACES'', uint AFI_MPLS_NAMESPACES)]"

definition safi_constants :: "(string \<times> int) list" where
  "safi_constants = [
     (''SAFI_UNICAST'', uint SAFI_UNICAST),
     (''SAFI_MULTICAST'', uint SAFI_MULTICAST),
     (''SAFI_MPLS'', uint SAFI_MPLS),
     (''SAFI_MCAST_VPN'', uint SAFI_MCAST_VPN),
     (''SAFI_DYN_PLACEMENT_MULTI_SEGMENT_PW'', uint SAFI_DYN_PLACEMENT_MULTI_SEGMENT_PW),
     (''SAFI_MCAST_VPLS'', uint SAFI_MCAST_VPLS),
     (''SAFI_BGP_SFC'', uint SAFI_BGP_SFC),
     (''SAFI_TUNNEL'', uint SAFI_TUNNEL),
     (''SAFI_VPLS'', uint SAFI_VPLS),
     (''SAFI_BGP_MDT'', uint SAFI_BGP_MDT),
     (''SAFI_BGP_4OVER6'', uint SAFI_BGP_4OVER6),
     (''SAFI_BGP_6OVER4'', uint SAFI_BGP_6OVER4),
     (''SAFI_LAYER_1_VPN_AUTO_DISCOVERY_INFO'', uint SAFI_LAYER_1_VPN_AUTO_DISCOVERY_INFO),
     (''SAFI_BGP_EVPNS'', uint SAFI_BGP_EVPNS),
     (''SAFI_BGP_LS'', uint SAFI_BGP_LS),
     (''SAFI_BGP_LS_VPN'', uint SAFI_BGP_LS_VPN),
     (''SAFI_SR_TE_POLICY'', uint SAFI_SR_TE_POLICY),
     (''SAFI_SD_WAN_CAPABILITIES'', uint SAFI_SD_WAN_CAPABILITIES),
     (''SAFI_ROUTING_POLICY'', uint SAFI_ROUTING_POLICY),
     (''SAFI_CLASSFUL_TRANSPORT'', uint SAFI_CLASSFUL_TRANSPORT),
     (''SAFI_TUNNELED_TRAFFIC_FLOWSPEC'', uint SAFI_TUNNELED_TRAFFIC_FLOWSPEC),
     (''SAFI_MCAST_TREE'', uint SAFI_MCAST_TREE),
     (''SAFI_BGP_DPS'', uint SAFI_BGP_DPS),
     (''SAFI_BGP_LS_SPF'', uint SAFI_BGP_LS_SPF),
     (''SAFI_BGP_CAR'', uint SAFI_BGP_CAR),
     (''SAFI_BGP_VPN_CAR'', uint SAFI_BGP_VPN_CAR),
     (''SAFI_BGP_MUP'', uint SAFI_BGP_MUP),
     (''SAFI_MPLS_LABELED_VPN_ADDR'', uint SAFI_MPLS_LABELED_VPN_ADDR),
     (''SAFI_MULTICAST_BGP_MPLS_IP_VPNS'', uint SAFI_MULTICAST_BGP_MPLS_IP_VPNS),
     (''SAFI_ROUTE_TARGET_CONSTRAINS'', uint SAFI_ROUTE_TARGET_CONSTRAINS),
     (''SAFI_DISSEMINATION_OF_FLOWSPEC_RULES'', uint SAFI_DISSEMINATION_OF_FLOWSPEC_RULES),
     (''SAFI_L3VPN_DISSEMINATION_OF_FLOWSPEC_RULES'', uint SAFI_L3VPN_DISSEMINATION_OF_FLOWSPEC_RULES),
     (''SAFI_VPN_AUTO_DISCOVERY'', uint SAFI_VPN_AUTO_DISCOVERY)]"

definition pathAttr_constants :: "(string \<times> int) list" where
  "pathAttr_constants = [
     (''PATH_ATTR_ORIGIN'', uint PATH_ATTR_ORIGIN),
     (''PATH_ATTR_AS_PATH'', uint PATH_ATTR_AS_PATH),
     (''PATH_ATTR_NEXT_HOP'', uint PATH_ATTR_NEXT_HOP),
     (''PATH_ATTR_MED'', uint PATH_ATTR_MED),
     (''PATH_ATTR_LOCAL_PREF'', uint PATH_ATTR_LOCAL_PREF),
     (''PATH_ATTR_ATOMIC_AGGREGATE'', uint PATH_ATTR_ATOMIC_AGGREGATE),
     (''PATH_ATTR_AGGREGATOR'', uint PATH_ATTR_AGGREGATOR),
     (''PATH_ATTR_COMMUNITY'', uint PATH_ATTR_COMMUNITY),
     (''PATH_ATTR_ORIGINATOR_ID'', uint PATH_ATTR_ORIGINATOR_ID),
     (''PATH_ATTR_CLUSTER_LIST'', uint PATH_ATTR_CLUSTER_LIST),
     (''PATH_ATTR_MP_REACH_NLRI'', uint PATH_ATTR_MP_REACH_NLRI),
     (''PATH_ATTR_MP_UNREACH_NLRI'', uint PATH_ATTR_MP_UNREACH_NLRI),
     (''PATH_ATTR_EXTENDED_COMMUNITIES'', uint PATH_ATTR_EXTENDED_COMMUNITIES),
     (''PATH_ATTR_AS4_PATH'', uint PATH_ATTR_AS4_PATH),
     (''PATH_ATTR_AS4_AGGREGATOR'', uint PATH_ATTR_AS4_AGGREGATOR),
     (''PATH_ATTR_PMSI_TUNNEL'', uint PATH_ATTR_PMSI_TUNNEL),
     (''PATH_ATTR_TUNNEL_ENCAPSULATION'', uint PATH_ATTR_TUNNEL_ENCAPSULATION),
     (''PATH_ATTR_TRAFFIC_ENGINEERING'', uint PATH_ATTR_TRAFFIC_ENGINEERING),
     (''PATH_ATTR_IPV6_ADDR_SPECIFIC_EXTENDED_COMMUNITY'', uint PATH_ATTR_IPV6_ADDR_SPECIFIC_EXTENDED_COMMUNITY),
     (''PATH_ATTR_AIGP'', uint PATH_ATTR_AIGP),
     (''PATH_ATTR_PE_DISTINGUISHER_LABELS'', uint PATH_ATTR_PE_DISTINGUISHER_LABELS),
     (''PATH_ATTR_BGP_LS'', uint PATH_ATTR_BGP_LS),
     (''PATH_ATTR_LARGE_COMMUNITY'', uint PATH_ATTR_LARGE_COMMUNITY),
     (''PATH_ATTR_BGPSEC_PATH'', uint PATH_ATTR_BGPSEC_PATH),
     (''PATH_ATTR_OTC'', uint PATH_ATTR_OTC),
     (''PATH_ATTR_SFP_ATTR'', uint PATH_ATTR_SFP_ATTR),
     (''PATH_ATTR_BFD_DISCRIMINATOR'', uint PATH_ATTR_BFD_DISCRIMINATOR),
     (''PATH_ATTR_BGP_PREFIX_SID'', uint PATH_ATTR_BGP_PREFIX_SID),
     (''PATH_ATTR_ATTR_SET'', uint PATH_ATTR_ATTR_SET)]"

definition notifCode_constants :: "(string \<times> int) list" where
  "notifCode_constants = [
     (''NOTIF_CODE_MESSAGE_HEADER_ERR'', uint NOTIF_CODE_MESSAGE_HEADER_ERR),
     (''NOTIF_CODE_OPEN_MESSAGE_ERR'', uint NOTIF_CODE_OPEN_MESSAGE_ERR),
     (''NOTIF_CODE_UPDATE_MESSAGE_ERR'', uint NOTIF_CODE_UPDATE_MESSAGE_ERR),
     (''NOTIF_CODE_HOLD_TIMER_EXPIRED'', uint NOTIF_CODE_HOLD_TIMER_EXPIRED),
     (''NOTIF_CODE_FSM_ERR'', uint NOTIF_CODE_FSM_ERR),
     (''NOTIF_CODE_CEASE'', uint NOTIF_CODE_CEASE),
     (''NOTIF_CODE_ROUTE_REFRESH_MESSAGE_ERR'', uint NOTIF_CODE_ROUTE_REFRESH_MESSAGE_ERR)]"

definition header_subcode_constants :: "(string \<times> int) list" where
  "header_subcode_constants = [
     (''NOTIF_SUBCODE_CONN_NOT_SYNCHRONIZED'', uint NOTIF_SUBCODE_CONN_NOT_SYNCHRONIZED),
     (''NOTIF_SUBCODE_BAD_MESSAGE_LEN'', uint NOTIF_SUBCODE_BAD_MESSAGE_LEN),
     (''NOTIF_SUBCODE_BAD_MESSAGE_TYPE'', uint NOTIF_SUBCODE_BAD_MESSAGE_TYPE)]"

definition open_subcode_constants :: "(string \<times> int) list" where
  "open_subcode_constants = [
     (''NOTIF_SUBCODE_UNSUPPORTED_VERSION_NUM'', uint NOTIF_SUBCODE_UNSUPPORTED_VERSION_NUM),
     (''NOTIF_SUBCODE_BAD_PEER_AS'', uint NOTIF_SUBCODE_BAD_PEER_AS),
     (''NOTIF_SUBCODE_BAD_BGP_ID'', uint NOTIF_SUBCODE_BAD_BGP_ID),
     (''NOTIF_SUBCODE_UNSUPPORTED_OPTIONAL_PARAM'', uint NOTIF_SUBCODE_UNSUPPORTED_OPTIONAL_PARAM),
     (''NOTIF_SUBCODE_UNACCEPTABLE_HOLD_TIME'', uint NOTIF_SUBCODE_UNACCEPTABLE_HOLD_TIME),
     (''NOTIF_SUBCODE_UNSUPPORTED_CAPABILITY'', uint NOTIF_SUBCODE_UNSUPPORTED_CAPABILITY),
     (''NOTIF_SUBCODE_ROLE_MISMATCH'', uint NOTIF_SUBCODE_ROLE_MISMATCH)]"

definition update_subcode_constants :: "(string \<times> int) list" where
  "update_subcode_constants = [
     (''NOTIF_SUBCODE_MALFORMED_ATTR_LIST'', uint NOTIF_SUBCODE_MALFORMED_ATTR_LIST),
     (''NOTIF_SUBCODE_UNRECOGNIZED_WELL_KNOWN_ATTR'', uint NOTIF_SUBCODE_UNRECOGNIZED_WELL_KNOWN_ATTR),
     (''NOTIF_SUBCODE_MISSING_WELL_KNOWN_ATTR'', uint NOTIF_SUBCODE_MISSING_WELL_KNOWN_ATTR),
     (''NOTIF_SUBCODE_ATTR_FLAGS_ERR'', uint NOTIF_SUBCODE_ATTR_FLAGS_ERR),
     (''NOTIF_SUBCODE_ATTR_LEN_ERR'', uint NOTIF_SUBCODE_ATTR_LEN_ERR),
     (''NOTIF_SUBCODE_INVALID_ORIGIN_ATTR'', uint NOTIF_SUBCODE_INVALID_ORIGIN_ATTR),
     (''NOTIF_SUBCODE_INVALID_NEXT_HOP_ATTR'', uint NOTIF_SUBCODE_INVALID_NEXT_HOP_ATTR),
     (''NOTIF_SUBCODE_OPTIONAL_ATTR_ERR'', uint NOTIF_SUBCODE_OPTIONAL_ATTR_ERR),
     (''NOTIF_SUBCODE_INVALID_NETWORK_FIELD'', uint NOTIF_SUBCODE_INVALID_NETWORK_FIELD),
     (''NOTIF_SUBCODE_MALFORMED_AS_PATH'', uint NOTIF_SUBCODE_MALFORMED_AS_PATH)]"

definition fsm_subcode_constants :: "(string \<times> int) list" where
  "fsm_subcode_constants = [
     (''NOTIF_SUBCODE_RX_UNEXPECTED_MESSAGE_OPENSENT'', uint NOTIF_SUBCODE_RX_UNEXPECTED_MESSAGE_OPENSENT),
     (''NOTIF_SUBCODE_RX_UNEXPECTED_MESSAGE_OPENCONFIRM'', uint NOTIF_SUBCODE_RX_UNEXPECTED_MESSAGE_OPENCONFIRM),
     (''NOTIF_SUBCODE_RX_UNEXPECTED_MESSAGE_ESTABLISHED'', uint NOTIF_SUBCODE_RX_UNEXPECTED_MESSAGE_ESTABLISHED)]"

definition cease_subcode_constants :: "(string \<times> int) list" where
  "cease_subcode_constants = [
     (''NOTIF_SUBCODE_MAX_NUM_OF_PREFIXES_REACHED'', uint NOTIF_SUBCODE_MAX_NUM_OF_PREFIXES_REACHED),
     (''NOTIF_SUBCODE_ADMIN_SHUTDOWN'', uint NOTIF_SUBCODE_ADMIN_SHUTDOWN),
     (''NOTIF_SUBCODE_PEER_DECONFIGURED'', uint NOTIF_SUBCODE_PEER_DECONFIGURED),
     (''NOTIF_SUBCODE_ADMIN_RESET'', uint NOTIF_SUBCODE_ADMIN_RESET),
     (''NOTIF_SUBCODE_CONN_REJECTED'', uint NOTIF_SUBCODE_CONN_REJECTED),
     (''NOTIF_SUBCODE_OTHER_CONFIG_CHANGE'', uint NOTIF_SUBCODE_OTHER_CONFIG_CHANGE),
     (''NOTIF_SUBCODE_CONN_COLLISION_RESOLUTION'', uint NOTIF_SUBCODE_CONN_COLLISION_RESOLUTION),
     (''NOTIF_SUBCODE_OUT_OF_RESOURCES'', uint NOTIF_SUBCODE_OUT_OF_RESOURCES),
     (''NOTIF_SUBCODE_HARD_RESET'', uint NOTIF_SUBCODE_HARD_RESET),
     (''NOTIF_SUBCODE_BFD_DOWN'', uint NOTIF_SUBCODE_BFD_DOWN)]"

definition refresh_subcode_constants :: "(string \<times> int) list" where
  "refresh_subcode_constants = [
     (''NOTIF_SUBCODE_INVALID_MESSAGE_LEN'', uint NOTIF_SUBCODE_INVALID_MESSAGE_LEN)]"

definition constants :: "string \<Rightarrow> constRecord list \<Rightarrow> (string \<times> int) list" where
  "constants pre crs = map (\<lambda>cr. (pre @ cr_name cr, cr_value cr)) crs"

definition notif_table :: "(u8 \<times> string \<times> (u8 \<times> string) list) list" where
  "notif_table = [
     (NOTIF_CODE_MESSAGE_HEADER_ERR, ''Message Header Error'', [(NOTIF_SUBCODE_CONN_NOT_SYNCHRONIZED, ''Connection Not Synchronized''),
        (NOTIF_SUBCODE_BAD_MESSAGE_LEN, ''Bad Message Length''),
        (NOTIF_SUBCODE_BAD_MESSAGE_TYPE, ''Bad Message Type'')]),
     (NOTIF_CODE_OPEN_MESSAGE_ERR, ''OPEN Message Error'', [(NOTIF_SUBCODE_UNSUPPORTED_VERSION_NUM, ''Unsupported Version Number''),
        (NOTIF_SUBCODE_BAD_PEER_AS, ''Bad Peer AS''),
        (NOTIF_SUBCODE_BAD_BGP_ID, ''Bad BGP Identifier''),
        (NOTIF_SUBCODE_UNSUPPORTED_OPTIONAL_PARAM, ''Unsupported Optional Parameter''),
        (NOTIF_SUBCODE_UNACCEPTABLE_HOLD_TIME, ''Unacceptable Hold Time''),
        (NOTIF_SUBCODE_UNSUPPORTED_CAPABILITY, ''Unsupported Capability''),
        (NOTIF_SUBCODE_ROLE_MISMATCH, ''Role Mismatch'')]),
     (NOTIF_CODE_UPDATE_MESSAGE_ERR, ''UPDATE Message Error'', [(NOTIF_SUBCODE_MALFORMED_ATTR_LIST, ''Malformed Attribute List''),
        (NOTIF_SUBCODE_UNRECOGNIZED_WELL_KNOWN_ATTR, ''Unrecognized Well-known Attribute''),
        (NOTIF_SUBCODE_MISSING_WELL_KNOWN_ATTR, ''Missing Well-known Attribute''),
        (NOTIF_SUBCODE_ATTR_FLAGS_ERR, ''Attribute Flags Error''),
        (NOTIF_SUBCODE_ATTR_LEN_ERR, ''Attribute Length Error''),
        (NOTIF_SUBCODE_INVALID_ORIGIN_ATTR, ''Invalid ORIGIN Attribute''),
        (NOTIF_SUBCODE_INVALID_NEXT_HOP_ATTR, ''Invalid NEXT_HOP Attribute''),
        (NOTIF_SUBCODE_OPTIONAL_ATTR_ERR, ''Optional Attribute Error''),
        (NOTIF_SUBCODE_INVALID_NETWORK_FIELD, ''Invalid Network Field''),
        (NOTIF_SUBCODE_MALFORMED_AS_PATH, ''Malformed AS_PATH'')]),
     (NOTIF_CODE_HOLD_TIMER_EXPIRED, ''Hold Timer Expired'', []),
     (NOTIF_CODE_FSM_ERR, ''Finite State Machine Error'', [(NOTIF_SUBCODE_RX_UNEXPECTED_MESSAGE_OPENSENT, ''Receive Unexpected Message in OpenSent State''),
        (NOTIF_SUBCODE_RX_UNEXPECTED_MESSAGE_OPENCONFIRM, ''Receive Unexpected Message in OpenConfirm State''),
        (NOTIF_SUBCODE_RX_UNEXPECTED_MESSAGE_ESTABLISHED, ''Receive Unexpected Message in Established State'')]),
     (NOTIF_CODE_CEASE, ''Cease'', [(NOTIF_SUBCODE_MAX_NUM_OF_PREFIXES_REACHED, ''Maximum Number of Prefixes Reached''),
        (NOTIF_SUBCODE_ADMIN_SHUTDOWN, ''Administrative Shutdown''),
        (NOTIF_SUBCODE_PEER_DECONFIGURED, ''Peer De-configured''),
        (NOTIF_SUBCODE_ADMIN_RESET, ''Administrative Reset''),
        (NOTIF_SUBCODE_CONN_REJECTED, ''Connection Rejected''),
        (NOTIF_SUBCODE_OTHER_CONFIG_CHANGE, ''Other Configuration Change''),
        (NOTIF_SUBCODE_CONN_COLLISION_RESOLUTION, ''Connection Collision Resolution''),
        (NOTIF_SUBCODE_OUT_OF_RESOURCES, ''Out of Resources''),
        (NOTIF_SUBCODE_HARD_RESET, ''Hard Reset''),
        (NOTIF_SUBCODE_BFD_DOWN, ''BFD Down'')]),
     (NOTIF_CODE_ROUTE_REFRESH_MESSAGE_ERR, ''ROUTE-REFRESH Message Error'', [(NOTIF_SUBCODE_INVALID_MESSAGE_LEN, ''Invalid Message Length'')])]"

lemma notifCodesMap_table:
  "notifCodesMap = map_of (map (\<lambda>(c, d, ss). (c, \<lparr>desc = d, subcodes = map_of ss\<rparr>)) notif_table)"
  unfolding notifCodesMap_def notif_table_def by (simp only: list.map prod.case)

section \<open>The registries of the constants file\<close>

definition recorded_capabilities :: capabilityRegistry where
  "recorded_capabilities = \<lparr>cap_Title = ''Capability Codes'', cap_Updated = ''2023-01-23'',
     cap_Registries = [\<lparr>reg_Title = ''Capability Codes'', reg_Records = capability_records\<rparr>]\<rparr>"

definition recorded_afis :: afiRegistry where
  "recorded_afis = \<lparr>afi_Title = ''Address Family Numbers'', afi_Updated = ''2021-10-19'',
     afi_Registry = \<lparr>reg_Title = ''Address Family Numbers'', reg_Records = afi_records\<rparr>\<rparr>"

definition recorded_safis :: safiRegistry where
  "recorded_safis = \<lparr>
     safi_Title = ''Subsequent Address Family Identifiers (SAFI) Parameters'', safi_Updated = ''2022-08-19'',
     safi_Registry = \<lparr>reg_Title = ''SAFI Values'', reg_Records = safi_records\<rparr>\<rparr>"

definition recorded_parameters :: bgpParametersRegistry where
  "recorded_parameters = \<lparr>
     par_Title = ''Border Gateway Protocol (BGP) Parameters'', par_Updated = ''2023-01-18'',
     par_Registries = [
       \<lparr>bgp_Title = ''BGP Path Attributes'', bgp_Records = pathAttr_records, bgp_Registries = []\<rparr>,
       \<lparr>bgp_Title = ''BGP Error (Notification) Codes'', bgp_Records = notifCode_records, bgp_Registries = []\<rparr>,
       \<lparr>bgp_Title = ''BGP Error Subcodes'', bgp_Records = [], bgp_Registries = [
          \<lparr>inner_Title = ''Message Header Error subcodes'', inner_Records = header_subcode_records\<rparr>,
          \<lparr>inner_Title = ''OPEN Message Error subcodes'', inner_Records = open_subcode_records\<rparr>,
          \<lparr>inner_Title = ''UPDATE Message Error subcodes'', inner_Records = update_subcode_records\<rparr>,
          \<lparr>inner_Title = ''BGP Finite State Machine Error Subcodes'', inner_Records = fsm_subcode_records\<rparr>,
          \<lparr>inner_Title = ''BGP Cease NOTIFICATION message subcodes'', inner_Records = cease_subcode_records\<rparr>,
          \<lparr>inner_Title = ''BGP ROUTE-REFRESH Message Error subcodes'', inner_Records = refresh_subcode_records\<rparr>]\<rparr>]\<rparr>"

definition parameter_constants :: "(string \<times> (string \<times> int) list) list" where
  "parameter_constants = [
     (''BGP Path Attributes'', pathAttr_constants),
     (''BGP Error (Notification) Codes'', notifCode_constants),
     (''Message Header Error subcodes'', header_subcode_constants),
     (''OPEN Message Error subcodes'', open_subcode_constants),
     (''UPDATE Message Error subcodes'', update_subcode_constants),
     (''BGP Finite State Machine Error Subcodes'', fsm_subcode_constants),
     (''BGP Cease NOTIFICATION message subcodes'', cease_subcode_constants),
     (''BGP ROUTE-REFRESH Message Error subcodes'', refresh_subcode_constants)]"

lemma capabilities_generated:
  "constants ''CAP_'' (capabilityRegistry_escape recorded_capabilities) = capability_constants"
  by code_simp

lemma afis_generated:
  "constants ''AFI_'' (afiRegistry_escape recorded_afis) = afi_constants"
  by code_simp

lemma safis_generated:
  "constants ''SAFI_'' (safiRegistry_escape recorded_safis) = safi_constants"
  by code_simp

definition table_row :: "notifCodeAndSubcodes \<Rightarrow> u8 \<times> string \<times> (u8 \<times> string) list" where
  "table_row c = (word_of_int (cr_value (nc_const c)), originalName (nc_const c),
     map (\<lambda>s. (word_of_int (cr_value s), originalName s)) (nc_subcodes c))"

definition recorded_result :: "((string \<times> (string \<times> int) list) list \<times> (u8 \<times> string \<times> (u8 \<times> string) list) list) option" where
  "recorded_result =
     (case bgpParametersRegistry_escape [1, 2, 3, 4, 5, 6, 7] recorded_parameters of
        Some (Val (blocks, codes)) \<Rightarrow>
          Some (map (\<lambda>b. (blk_title b, constants [] (blk_records b))) blocks, map table_row codes)
      | _ \<Rightarrow> None)"

lemma recorded_result: "recorded_result = Some (parameter_constants, notif_table)"
  by code_simp

lemma recorded_escape:
  obtains blocks codes
  where "bgpParametersRegistry_escape [1, 2, 3, 4, 5, 6, 7] recorded_parameters = Some (Val (blocks, codes))"
    "map (\<lambda>b. (blk_title b, constants [] (blk_records b))) blocks = parameter_constants"
    "map table_row codes = notif_table"
  using recorded_result by (auto simp: recorded_result_def split: option.splits go.splits)

definition reversed_visit :: bool where
  "reversed_visit \<longleftrightarrow> bgpParametersRegistry_escape [7, 6, 5, 4, 3, 2, 1] recorded_parameters \<noteq> None"

lemma reversed_visit: reversed_visit
  by code_simp

section \<open>Properties\<close>



text \<open>
  Whatever the registries hold, every constant that is generated fits the type it is declared
  with and its name has no lower-case letter; the NOTIFICATION codes are listed in strictly
  increasing order of their values.
\<close>

theorem generated_constants_fit:
  "list_all (well_named 8) (capabilityRegistry_escape c) \<and>
   list_all (well_named 16) (afiRegistry_escape a) \<and>
   list_all (well_named 8) (safiRegistry_escape s) \<and>
   (bgpParametersRegistry_escape ks b = Some (Val (blocks, codes)) \<longrightarrow>
     list_all (\<lambda>blk. list_all (well_named 8) (blk_records blk)) blocks \<and>
     list_all (\<lambda>c. well_named 8 (nc_const c) \<and> list_all (well_named 8) (nc_subcodes c)) codes \<and>
     sorted_wrt (<) (map (\<lambda>c. cr_value (nc_const c)) codes))"
proof -
  have "list_all (\<lambda>blk. list_all (well_named 8) (blk_records blk)) blocks \<and>
     list_all (\<lambda>c. well_named 8 (nc_const c) \<and> list_all (well_named 8) (nc_subcodes c)) codes \<and>
     sorted_wrt (<) (map (\<lambda>c. cr_value (nc_const c)) codes)"
    if e: "bgpParametersRegistry_escape ks b = Some (Val (blocks, codes))"
    using e
  proof (cases rule: bgpParameters_escape_cases)
    case (codes blocks' m)
    then show ?thesis
      using codes_well_named [OF codes(2)] by (simp only: good_block_def [abs_def] go.inject prod.inject) simp
  qed simp
  then show ?thesis
    by (simp add: capabilities_well_named afiRegistry_escape_def safiRegistry_escape_def
        afi.escaped safi.escaped)
qed

theorem generated_constants_fit_witness:
  "\<exists>blocks codes.
     bgpParametersRegistry_escape [1, 2, 3, 4, 5, 6, 7] recorded_parameters = Some (Val (blocks, codes)) \<and>
     sorted_wrt (<) (map (\<lambda>c. cr_value (nc_const c)) codes)"
proof -
  obtain blocks codes where
    e: "bgpParametersRegistry_escape [1, 2, 3, 4, 5, 6, 7] recorded_parameters = Some (Val (blocks, codes))"
    by (rule recorded_escape)
  with generated_constants_fit [of recorded_capabilities recorded_afis recorded_safis
      "[1, 2, 3, 4, 5, 6, 7]" recorded_parameters blocks codes]
  show ?thesis by blast
qed

end
