(* ===== verification/Spec2Isabelle.thy ===== *)
theory Spec2Isabelle
  imports FeaturesMain Session Dial IanaProps
begin

text \<open>
  A verification development for CoreBGP, a Go library that speaks the Border Gateway Protocol
  and leaves routing decisions to plugins.

  \<^bold>\<open>The program.\<close> A \<open>Server\<close> (\<open>src/server.go\<close>) holds peers by address. Each peer
  (\<open>src/peer.go\<close>, configured by \<open>src/peer_options.go\<close>) has a manager goroutine and up to two finite
  state machines (\<open>src/fsm.go\<close>), one for the connection it dials and one for the connection it is
  dialed. A machine has a reader goroutine that turns octets into messages (\<open>src/packet.go\<close>,
  \<open>src/iana_const.go\<close>), asks its manager before every change of state, and calls the methods of a
  \<open>Plugin\<close> (\<open>src/plugin.go\<close>). A plugin decodes UPDATE messages with the functions of
  \<open>src/update.go\<close>; \<open>src/examples/features/main.go\<close> is a program with such a plugin. Errors that
  are sent to the peer are \<open>src/notification_error.go\<close>. TCP MD5 signatures are
  \<open>src/tcp_md5_sig_linux.go\<close>, and \<open>src/iana_gen.go\<close> is the program that writes the constants.

  \<^bold>\<open>The theories.\<close>

  \<^item> \<open>Prelude\<close>: integers at their Go width, octet strings, and computations that fault
    (\<open>'a go\<close>: an index or slice out of range, a nil dereference, the close of a closed channel, a
    channel operation that blocks forever) or return an error (\<open>'a ret\<close>). Slicing and indexing fault
    exactly where Go panics. \<open>reach\<close> is reachability under events; the locales \<open>go_invariant\<close> and
    \<open>go_safe\<close> give what an inductive invariant gives, and are interpreted for the machine
    (\<open>machine\<close>), the manager (\<open>manager\<close>) and the server (\<open>whole\<close>).
  \<^item> \<open>Iana\<close>: the constants. \<open>Strings\<close>, \<open>Netip\<close>, \<open>NetText\<close>: what the sources use of the standard
    packages \<open>strings\<close>, \<open>strconv\<close>, \<open>net/netip\<close> and \<open>net\<close>.
  \<^item> \<open>Errors\<close>: error values, error trees, and \<open>UpdateNotificationFromErr\<close>, which is shown to pick
    the severest error.
  \<^item> \<open>Packet\<close>: encoding, decoding and validation of OPEN, NOTIFICATION, KEEPALIVE and UPDATE
    messages: round trips, exact acceptance conditions, the class of every error, no faults.
  \<^item> \<open>Prefixes\<close>, \<open>PathAttrs\<close>, \<open>Update\<close>: the decoders of prefixes, path attributes and UPDATE
    messages. A field decoder takes the message under construction and returns it with its error.
    Each decoder accepts exactly the encodings of a set of values; \<open>decodePathAttrs\<close> and \<open>Decode\<close>
    refine specifications on framed attributes and on the three parts of a message.
  \<^item> \<open>Features\<close>: the example plugin, for which no octets can make the decoder fault.
    \<open>FeaturesMain\<close>: the text of its messages and its \<open>main\<close> function, whose server is reachable
    by the operations of the library.
  \<^item> \<open>Reader\<close>: \<open>read\<close> of \<open>fsm.go\<close> as a function from the octets of a connection to the messages
    it delivers and the error it ends with. The loop terminates as every message shortens the
    stream.
  \<^item> \<open>Config\<close>: peer options and configurations and their validation.
  \<^item> \<open>Fsm\<close>: the machine. The record \<open>fsm\<close> has the fields of the struct; goroutines and channels
    appear as the state of dialing and reader, and \<open>f_ctl\<close> is the place in \<open>run\<close>: sending a
    transition, awaiting the answer, reporting an error, waiting in the \<open>select\<close> of a state, done.
    Each state function is a function of the event its \<open>select\<close> receives, \<open>fsm_step\<close> is the machine.
    \<open>f_trace\<close> is a history of calls to the plugin, of dialing and of closed connections.
    \<open>Dial\<close>: the goroutine that dials. \<open>FsmInv\<close>: what each state relies on, and that every
    state function keeps it. \<open>FsmProps\<close>: the properties of machines.
  \<^item> \<open>Peer\<close>: the manager with its machines. Its functions take the branches of their \<open>select\<close>
    statements, and what a machine does while the manager waits for it, as arguments, so theorems
    hold for every schedule. \<open>PeerInv\<close>, \<open>PeerProps\<close>: invariant and properties.
  \<^item> \<open>Server\<close>, \<open>ServerProps\<close>: the methods of the server, the accept loop of a listener, and the
    server with all of its peers as one step function \<open>server_step\<close>.
  \<^item> \<open>Session\<close>: two machines against each other, joined by what their readers make of the octets
    the other side wrote.
  \<^item> \<open>Md5\<close>: the signature option of a socket. \<open>IanaGen\<close>, \<open>IanaProps\<close>: the generator, and that the
    constants of \<open>Iana\<close> are what it generates.

  \<^bold>\<open>What is shown of the running system.\<close> No step of a reachable machine, manager or server
  faults, and at most one connection of a peer gets past OpenSent. In Established the OPEN of the
  peer has been validated, hold time and keepalive interval follow from it and the hold timer runs;
  plugin callbacks are bracketed. Damping lasts between one and five minutes, during which nothing
  is dialed or accepted, and its timer is pending. Any machine and any peer can be stopped, and releases what it
  holds. The server is a map of configurations. Two compatible speakers get to Established.

  \<^bold>\<open>Assumptions.\<close> \<open>good_peer\<close> and \<open>good_event\<close>: no hold time of zero is configured or
  announced, as the code does not support it (\<open>hold_time_zero_faults\<close>); connections are fresh.
  Timers are those of Go 1.21, the version of \<open>go.mod\<close>: a timer that has fired keeps its value in
  the channel until it is received. A plugin method is a function of the history of the machine that
  calls it, and returns. The steps of a manager are atomic towards its own state. \<open>Serve\<close> is called
  again only after it has returned. Texts are ASCII where \<open>iana_gen.go\<close> changes their case.

  \<^bold>\<open>Bounds.\<close> No definition uses fuel: recursions follow lists, or octets that get shorter. The
  decoding of an UPDATE is shown not to fault for bodies of up to 65537 octets; the reader delivers
  at most 4077.

  \<^bold>\<open>Not modelled.\<close> Logging (\<open>src/logger.go\<close>, \<open>logTransition\<close>, \<open>direction\<close>) is output only. The
  choice of a channel by \<open>getFSMTransitionCh\<close> and \<open>getFSMErrorCh\<close> is the choice of the machine. The
  closing of listeners at the end of \<open>Serve\<close> and the wait for signals in the example program are
  left out. The XML decoder, HTTP client and formatter of the generator and the system calls of
  \<open>golang.org/x/sys/unix\<close> are arguments.
\<close>

end
